(* ===== verification/Go_Prelude.thy ===== *)
theory Go_Prelude
  imports
    Main
    "HOL-Library.AList"
    "HOL-Library.Char_ord"
    "HOL-Library.Code_Target_Nat"
    "HOL-Library.List_Lexorder"
    "HOL-Library.Word"
begin

text \<open>
  The part of the Go language and of its standard library that the components of MCP Manager
  use, and the generic lemmas that the component theories share.

  \<^item> A Go string or byte slice is a \<^typ>\<open>string\<close>: a list of bytes. Its order is the
    bytewise lexicographic one, as Go's \<^verbatim>\<open><\<close> on strings.
  \<^item> A Go map is an association list with distinct keys (\<open>wf_map\<close>). Go's \<^verbatim>\<open>range\<close> visits
    the entries in an unspecified order; the list order stands for one such order, and every
    theorem is stated for all lists, so for all orders.
  \<^item> A call that returns \<^verbatim>\<open>(value, error)\<close> is a sum, \<^term>\<open>Inl\<close> for the error.
\<close>

section \<open>Collections of facts\<close>

named_theorems go_string_simps \<open>evaluation of the modelled functions of package strings\<close>
named_theorems catalog_simps \<open>unfolding of the catalog's operations\<close>
named_theorems manager_simps \<open>unfolding of the lifecycle operations of the manager\<close>
named_theorems config_simps \<open>unfolding of the configuration pipeline\<close>

section \<open>Go maps\<close>

type_synonym ('k, 'v) gomap = "('k \<times> 'v) list"

abbreviation mget :: "('k, 'v) gomap \<Rightarrow> 'k \<Rightarrow> 'v option" where
  "mget \<equiv> map_of"

abbreviation mput :: "'k \<Rightarrow> 'v \<Rightarrow> ('k, 'v) gomap \<Rightarrow> ('k, 'v) gomap" where
  "mput \<equiv> AList.update"

abbreviation mdel :: "'k \<Rightarrow> ('k, 'v) gomap \<Rightarrow> ('k, 'v) gomap" where
  "mdel \<equiv> AList.delete"

abbreviation mkeys :: "('k, 'v) gomap \<Rightarrow> 'k list" where
  "mkeys m \<equiv> map fst m"

abbreviation wf_map :: "('k, 'v) gomap \<Rightarrow> bool" where
  "wf_map m \<equiv> distinct (map fst m)"

text \<open>Go's \<^verbatim>\<open>_, ok := m[k]\<close>.\<close>

definition mhas :: "('k, 'v) gomap \<Rightarrow> 'k \<Rightarrow> bool" where
  "mhas m k \<longleftrightarrow> map_of m k \<noteq> None"

text \<open>Reading a missing key gives the zero value of the element type.\<close>

definition mget_or :: "'v \<Rightarrow> ('k, 'v) gomap \<Rightarrow> 'k \<Rightarrow> 'v" where
  "mget_or z m k = (case map_of m k of None \<Rightarrow> z | Some v \<Rightarrow> v)"

lemma mhas_iff [simp]: "mhas m k \<longleftrightarrow> k \<in> fst ` set m"
  by (simp add: mhas_def map_of_eq_None_iff)

lemma mget_or_Nil [simp]: "mget_or z [] k = z"
  by (simp add: mget_or_def)

lemma mget_or_mput [simp]: "mget_or z (mput k v m) k' = (if k' = k then v else mget_or z m k')"
  by (simp add: mget_or_def AList.update_conv')

lemma mget_mput [simp]: "map_of (mput k v m) = (map_of m)(k \<mapsto> v)"
  by (simp add: AList.update_conv')

lemma mget_mdel [simp]: "map_of (mdel k m) = (map_of m)(k := None)"
  by (simp add: AList.delete_conv')

lemma wf_mput [simp, intro]: "wf_map m \<Longrightarrow> wf_map (mput k v m)"
  by (rule AList.distinct_update)

lemma wf_mdel [simp, intro]: "wf_map m \<Longrightarrow> wf_map (mdel k m)"
  by (rule AList.distinct_delete)

lemma mput_fresh: "k \<notin> fst ` set m \<Longrightarrow> mput k v m = m @ [(k, v)]"
  by (induction m) auto

lemma in_mdel_iff: "x \<in> set (mdel k m) \<longleftrightarrow> x \<in> set m \<and> fst x \<noteq> k"
  by (auto simp: AList.delete_eq)

lemma in_mput_iff:
  "wf_map m \<Longrightarrow> x \<in> set (mput k v m) \<longleftrightarrow> x = (k, v) \<or> (x \<in> set m \<and> fst x \<noteq> k)"
  by (induction m) force+

lemma wf_map_get: "wf_map m \<Longrightarrow> map_of m k = Some v \<longleftrightarrow> (k, v) \<in> set m"
  by simp

lemma wf_map_unique: "wf_map m \<Longrightarrow> (k, v) \<in> set m \<Longrightarrow> (k, w) \<in> set m \<Longrightarrow> v = w"
  by (metis map_of_is_SomeI option.inject)

lemma mget_map_values: "map_of (map (\<lambda>(k, v). (k, f k v)) m) n = map_option (f n) (map_of m n)"
  by (induction m) auto

lemma map_of_append_left:
  assumes "wf_map (xs @ ys)"
  shows "map_of xs n = (if n \<in> fst ` set ys then None else map_of (xs @ ys) n)"
proof (cases "map_of ys n")
  case None
  then have "n \<notin> fst ` set ys" by (simp add: map_of_eq_None_iff)
  with None show ?thesis by (simp add: map_add_def split: option.split)
next
  case (Some v)
  then have "n \<in> fst ` set ys" by (force dest: map_of_SomeD)
  moreover from this have "n \<notin> fst ` set xs" using assms by auto
  ultimately show ?thesis by (simp add: map_of_eq_None_iff)
qed

lemma mput_split:
  "wf_map m \<Longrightarrow> map_of m k = Some v \<Longrightarrow>
    \<exists>xs ys. m = xs @ (k, v) # ys \<and> mput k w m = xs @ (k, w) # ys \<and> mdel k m = xs @ ys"
proof (induction m)
  case Nil
  then show ?case by simp
next
  case (Cons p m)
  show ?case
  proof (cases "fst p = k")
    case True
    with Cons.prems have "k \<notin> fst ` set m" by auto
    then have "mdel k m = m" by simp
    with True Cons.prems have "p # m = [] @ (k, v) # m \<and> mput k w (p # m) = [] @ (k, w) # m \<and>
        mdel k (p # m) = [] @ m"
      by (cases p) simp
    then show ?thesis by blast
  next
    case False
    with Cons obtain xs ys where 1: "m = xs @ (k, v) # ys"
      and 2: "mput k w m = xs @ (k, w) # ys" and 3: "mdel k m = xs @ ys"
      by (cases p) fastforce
    have "mput k w (p # m) = (p # xs) @ (k, w) # ys" using False 2 by simp
    moreover have "mdel k (p # m) = (p # xs) @ ys" using False 3 by simp
    moreover have "p # m = (p # xs) @ (k, v) # ys" using 1 by simp
    ultimately show ?thesis by blast
  qed
qed

text \<open>
  Summing a quantity over the entries of a map: an update replaces the summand of its key.
\<close>

lemma sum_list_mput:
  fixes f :: "'v \<Rightarrow> nat"
  assumes "wf_map m"
  shows "(\<Sum>p\<leftarrow>mput k v m. f (snd p)) = (\<Sum>p\<leftarrow>mdel k m. f (snd p)) + f v"
proof (cases "map_of m k")
  case None
  then have "k \<notin> fst ` set m" by (simp add: map_of_eq_None_iff)
  then show ?thesis by (simp add: mput_fresh)
next
  case (Some w)
  from mput_split [OF assms Some, of v] show ?thesis by fastforce
qed

lemma sum_list_replace:
  fixes f :: "'v \<Rightarrow> int"
  assumes "wf_map m" and "map_of m k = Some v"
  shows "(\<Sum>p\<leftarrow>mput k w m. f (snd p)) = (\<Sum>p\<leftarrow>m. f (snd p)) - f v + f w"
  using mput_split [OF assms, of w] by force

lemma mdel_sublist_sum:
  fixes f :: "'v \<Rightarrow> nat"
  shows "(\<Sum>p\<leftarrow>mdel k m. f (snd p)) \<le> (\<Sum>p\<leftarrow>m. f (snd p))"
  by (induction m) auto

section \<open>Package strings\<close>

text \<open>
  The encodings of the runes that \<^verbatim>\<open>unicode.IsSpace\<close> accepts: the six ASCII ones, then
  U+0085, U+00A0, U+1680, U+2000 to U+200A, U+2028, U+2029, U+202F, U+205F and U+3000 in UTF-8.
\<close>

definition space_runes :: "string list" where
  "space_runes =
     [[CHR 0x09], [CHR 0x0A], [CHR 0x0B], [CHR 0x0C], [CHR 0x0D], [CHR 0x20],
      [CHR 0xC2, CHR 0x85], [CHR 0xC2, CHR 0xA0], [CHR 0xE1, CHR 0x9A, CHR 0x80],
      [CHR 0xE2, CHR 0x80, CHR 0x80], [CHR 0xE2, CHR 0x80, CHR 0x81],
      [CHR 0xE2, CHR 0x80, CHR 0x82], [CHR 0xE2, CHR 0x80, CHR 0x83],
      [CHR 0xE2, CHR 0x80, CHR 0x84], [CHR 0xE2, CHR 0x80, CHR 0x85],
      [CHR 0xE2, CHR 0x80, CHR 0x86], [CHR 0xE2, CHR 0x80, CHR 0x87],
      [CHR 0xE2, CHR 0x80, CHR 0x88], [CHR 0xE2, CHR 0x80, CHR 0x89],
      [CHR 0xE2, CHR 0x80, CHR 0x8A], [CHR 0xE2, CHR 0x80, CHR 0xA8],
      [CHR 0xE2, CHR 0x80, CHR 0xA9], [CHR 0xE2, CHR 0x80, CHR 0xAF],
      [CHR 0xE2, CHR 0x81, CHR 0x9F], [CHR 0xE3, CHR 0x80, CHR 0x80]]"

fun has_prefix :: "string \<Rightarrow> string \<Rightarrow> bool" where
  "has_prefix s [] = True"
| "has_prefix [] (p # ps) = False"
| "has_prefix (c # cs) (p # ps) = (c = p \<and> has_prefix cs ps)"

definition has_suffix :: "string \<Rightarrow> string \<Rightarrow> bool" where
  "has_suffix s p = has_prefix (rev s) (rev p)"

text \<open>Dropping leading occurrences of the given non-empty words.\<close>

function trim_words :: "string list \<Rightarrow> string \<Rightarrow> string" where
  "trim_words ws s =
     (case find (\<lambda>w. w \<noteq> [] \<and> has_prefix s w) ws of
        None \<Rightarrow> s
      | Some w \<Rightarrow> trim_words ws (drop (length w) s))"
  by pat_completeness auto
termination
proof (relation "measure (\<lambda>(ws, s). length s)")
  fix ws s w
  assume "find (\<lambda>w. w \<noteq> [] \<and> has_prefix s w) ws = Some w"
  then have "w \<noteq> []" and "has_prefix s w"
    by (auto simp: find_Some_iff)
  then have "s \<noteq> []" by (cases s; cases w) auto
  with \<open>w \<noteq> []\<close> show "((ws, drop (length w) s), ws, s) \<in> measure (\<lambda>(ws, s). length s)"
    by (cases s; cases w) auto
qed simp

declare trim_words.simps [simp del]

definition trim_space :: "string \<Rightarrow> string" where
  "trim_space s =
     rev (trim_words (map rev space_runes) (rev (trim_words space_runes s)))"

text \<open>\<^verbatim>\<open>strings.Trim(s, cutset)\<close> and \<^verbatim>\<open>strings.TrimRight(s, cutset)\<close> for ASCII cutsets.\<close>

definition trim_right_chars :: "string \<Rightarrow> string \<Rightarrow> string" where
  "trim_right_chars cs s = rev (dropWhile (\<lambda>c. c \<in> set cs) (rev s))"

definition trim_chars :: "string \<Rightarrow> string \<Rightarrow> string" where
  "trim_chars cs s = trim_right_chars cs (dropWhile (\<lambda>c. c \<in> set cs) s)"

definition is_lower :: "char \<Rightarrow> bool" where
  "is_lower c \<longleftrightarrow> CHR ''a'' \<le> c \<and> c \<le> CHR ''z''"

definition is_upper :: "char \<Rightarrow> bool" where
  "is_upper c \<longleftrightarrow> CHR ''A'' \<le> c \<and> c \<le> CHR ''Z''"

definition is_digit :: "char \<Rightarrow> bool" where
  "is_digit c \<longleftrightarrow> CHR ''0'' \<le> c \<and> c \<le> CHR ''9''"

text \<open>
  \<^verbatim>\<open>strings.ToLower\<close> and \<^verbatim>\<open>strings.ToUpper\<close> on ASCII; bytes of multi-byte runes are kept.
\<close>

definition lower_char :: "char \<Rightarrow> char" where
  "lower_char c = (if is_upper c then char_of (of_char c + 32 :: nat) else c)"

definition upper_char :: "char \<Rightarrow> char" where
  "upper_char c = (if is_lower c then char_of (of_char c - 32 :: nat) else c)"

definition to_lower :: "string \<Rightarrow> string" where
  "to_lower s = map lower_char s"

definition to_upper :: "string \<Rightarrow> string" where
  "to_upper s = map upper_char s"

definition equal_fold :: "string \<Rightarrow> string \<Rightarrow> bool" where
  "equal_fold s t \<longleftrightarrow> to_lower s = to_lower t"

text \<open>\<^verbatim>\<open>strings.IndexByte\<close>: \<^term>\<open>None\<close> is -1.\<close>

fun index_byte :: "string \<Rightarrow> char \<Rightarrow> nat option" where
  "index_byte [] b = None"
| "index_byte (c # cs) b = (if c = b then Some 0 else map_option Suc (index_byte cs b))"

definition contains_any :: "string \<Rightarrow> string \<Rightarrow> bool" where
  "contains_any s cs \<longleftrightarrow> (\<exists>c \<in> set s. c \<in> set cs)"

fun contains_str :: "string \<Rightarrow> string \<Rightarrow> bool" where
  "contains_str [] p = (p = [])"
| "contains_str (c # cs) p = (has_prefix (c # cs) p \<or> contains_str cs p)"

text \<open>\<^verbatim>\<open>strings.Split(s, sep)\<close> for a one-byte separator.\<close>

fun split_byte :: "char \<Rightarrow> string \<Rightarrow> string list" where
  "split_byte b [] = [[]]"
| "split_byte b (c # cs) =
     (if c = b then [] # split_byte b cs
      else (case split_byte b cs of [] \<Rightarrow> [[c]] | w # ws \<Rightarrow> (c # w) # ws))"

lemma has_prefix_append [simp]: "has_prefix (p @ s) p"
  by (induction p) auto

lemma has_prefix_iff: "has_prefix s p \<longleftrightarrow> (\<exists>t. s = p @ t)"
  by (induction s p rule: has_prefix.induct) auto

lemma index_byte_Some:
  "index_byte s b = Some i \<Longrightarrow> i < length s \<and> s ! i = b \<and> b \<notin> set (take i s)"
proof (induction s arbitrary: i)
  case Nil
  then show ?case by simp
next
  case (Cons c cs)
  show ?case
  proof (cases "c = b")
    case True
    with Cons.prems show ?thesis by simp
  next
    case False
    with Cons.prems obtain j where "index_byte cs b = Some j" and "i = Suc j" by auto
    with Cons.IH False show ?thesis by auto
  qed
qed

lemma index_byte_None: "index_byte s b = None \<longleftrightarrow> b \<notin> set s"
  by (induction s) auto

lemma index_byte_append:
  "b \<notin> set xs \<Longrightarrow> index_byte (xs @ b # ys) b = Some (length xs)"
  by (induction xs) auto

lemma split_byte_nonempty [simp]: "split_byte b s \<noteq> []"
  by (induction s) (auto split: list.splits)

lemma lower_char_idem [simp]: "lower_char (lower_char c) = lower_char c"
proof (cases "is_upper c")
  case True
  then have b: "65 \<le> (of_char c :: nat) \<and> (of_char c :: nat) \<le> 90"
    by (simp add: is_upper_def less_eq_char_def)
  then have "(of_char (lower_char c) :: nat) = of_char c + 32"
    using True by (simp add: lower_char_def)
  with b have "\<not> is_upper (lower_char c)"
    by (simp add: is_upper_def less_eq_char_def)
  then show ?thesis by (simp add: lower_char_def [of "lower_char c"])
next
  case False
  then show ?thesis by (simp add: lower_char_def)
qed

lemma to_lower_idem [simp]: "to_lower (to_lower s) = to_lower s"
  by (simp add: to_lower_def)

lemma length_to_lower [simp]: "length (to_lower s) = length s"
  by (simp add: to_lower_def)

section \<open>Sequences of checks\<close>

text \<open>
  The Go idiom \<^verbatim>\<open>if bad { return err }\<close>, repeated: the first check that fails decides.
\<close>

fun first_error :: "(bool \<times> 'e) list \<Rightarrow> 'e option" where
  "first_error [] = None"
| "first_error ((bad, e) # cs) = (if bad then Some e else first_error cs)"

lemma first_error_None: "first_error cs = None \<longleftrightarrow> (\<forall>p \<in> set cs. \<not> fst p)"
  by (induction cs rule: first_error.induct) auto

lemma first_error_append:
  "first_error (xs @ ys) = (case first_error xs of Some e \<Rightarrow> Some e | None \<Rightarrow> first_error ys)"
  by (induction xs rule: first_error.induct) auto

text \<open>A loop that validates its elements in turn and stops at the first error.\<close>

fun first_failure :: "('a \<Rightarrow> 'e option) \<Rightarrow> 'a list \<Rightarrow> 'e option" where
  "first_failure f [] = None"
| "first_failure f (x # xs) = (case f x of Some e \<Rightarrow> Some e | None \<Rightarrow> first_failure f xs)"

lemma first_failure_None: "first_failure f xs = None \<longleftrightarrow> (\<forall>x \<in> set xs. f x = None)"
  by (induction xs) (auto split: option.splits)

text \<open>A loop that maps its elements with a fallible function and stops at the first error.\<close>

fun try_map :: "('a \<Rightarrow> 'e + 'b) \<Rightarrow> 'a list \<Rightarrow> 'e + 'b list" where
  "try_map f [] = Inr []"
| "try_map f (x # xs) =
     (case f x of
        Inl e \<Rightarrow> Inl e
      | Inr y \<Rightarrow> (case try_map f xs of Inl e \<Rightarrow> Inl e | Inr ys \<Rightarrow> Inr (y # ys)))"

lemma try_map_Inr:
  "try_map f xs = Inr ys \<longleftrightarrow> list_all2 (\<lambda>x y. f x = Inr y) xs ys"
proof (induction xs arbitrary: ys)
  case Nil
  then show ?case by auto
next
  case (Cons x xs)
  show ?case
    by (cases "f x"; cases "try_map f xs") (auto simp: list_all2_Cons1 simp flip: Cons.IH)
qed

lemma map_sum_Inr_iff: "map_sum f g x = Inr y \<longleftrightarrow> (\<exists>z. x = Inr z \<and> y = g z)"
  by (cases x) auto

section \<open>Lists\<close>

lemma list_all2_member2: "list_all2 P xs ys \<Longrightarrow> y \<in> set ys \<Longrightarrow> \<exists>x \<in> set xs. P x y"
  by (induction rule: list_all2_induct) auto

lemma sort_key_distinct_sorted:
  "distinct (map f xs) \<Longrightarrow> distinct (map f (sort_key f xs))"
  by (metis distinct_map distinct_sort set_sort)

lemma sort_key_unique:
  fixes f :: "'a \<Rightarrow> 'b::linorder"
  assumes "set xs = set ys" and "distinct (map f xs)" and "distinct (map f ys)"
  shows "sort_key f xs = sort_key f ys"
proof -
  have "inj_on f (set (sort_key f xs) \<union> set (sort_key f ys))"
    using assms by (simp add: distinct_map)
  moreover have "distinct (map f (sort_key f xs))" and "distinct (map f (sort_key f ys))"
    using assms by (simp_all add: sort_key_distinct_sorted)
  ultimately show ?thesis
    using assms(1) by (intro map_sorted_distinct_set_unique [where f = f]) auto
qed

end
