(* ===== verification/Go_JSON.thy ===== *)
theory Go_JSON
  imports Go_Prelude
begin

text \<open>
  JSON documents as \<^verbatim>\<open>encoding/json\<close> sees them, and Go values of type \<^verbatim>\<open>any\<close> as far as the
  code looks at them: through \<^verbatim>\<open>json.Marshal\<close>. The text of a number is kept as written
  (\<^verbatim>\<open>json.Number\<close>). The members of an object are a list, so a document with a repeated key can
  be represented; decoding into a Go map keeps the last one.
\<close>

datatype json =
    JNull
  | JBool bool
  | JNum string
  | JStr string
  | JArr "json list"
  | JObj "(string \<times> json) list"

text \<open>
  A value of type \<^verbatim>\<open>any\<close>: the nil interface, a value that marshals to a document, or a value
  \<^verbatim>\<open>json.Marshal\<close> refuses, with the text of its error.
\<close>

datatype go_any = AnyNil | Marshals json | MarshalFails string

text \<open>Decoding a document into \<^verbatim>\<open>map[string]any\<close>: the member of a key is its last one.\<close>

definition obj_get :: "(string \<times> json) list \<Rightarrow> string \<Rightarrow> json option" where
  "obj_get kvs k = map_of (rev kvs) k"

fun json_kind :: "json \<Rightarrow> string" where
  "json_kind JNull = ''null''"
| "json_kind (JBool _) = ''bool''"
| "json_kind (JNum _) = ''number''"
| "json_kind (JStr _) = ''string''"
| "json_kind (JArr _) = ''array''"
| "json_kind (JObj _) = ''object''"

end
