(* ===== verification/Naming.thy ===== *)
theory Naming
  imports Go_JSON
begin

text \<open>
  Public tool names (\<^verbatim>\<open>internal/catalog/naming.go\<close>, with the constants of
  \<^verbatim>\<open>limits.go\<close>): validation of server identifiers and of public names, the direct name
  \<^verbatim>\<open><server>__<tool>\<close>, the hashed alias, and the two-pass allocation
  \<^verbatim>\<open>ResolveNamesWithPriority\<close>.

  SHA-256 (package \<^verbatim>\<open>crypto/sha256\<close>) with the hexadecimal encoding of its sum is the
  parameter \<open>sha256_hex\<close>; \<open>sha256_hex_ok\<close> is what the code relies on of it.
\<close>

section \<open>Limits\<close>

definition MaxToolsPerServer :: nat where "MaxToolsPerServer = 512"

definition MaxTotalTools :: nat where "MaxTotalTools = 2048"

definition MaxToolDefinitionBytes :: nat where "MaxToolDefinitionBytes = 256 * 1024"

definition MaxCatalogJSONBytes :: nat where "MaxCatalogJSONBytes = 8 * 1024 * 1024"

definition MaxPaginationPages :: nat where "MaxPaginationPages = 64"

definition MaxPublicToolNameLength :: nat where "MaxPublicToolNameLength = 64"

definition MaxServerIDLength :: nat where "MaxServerIDLength = 32"

section \<open>Errors\<close>

text \<open>
  The errors of the catalog package that name resolution and validation return, one
  constructor per \<^verbatim>\<open>errors.New\<close> or \<^verbatim>\<open>fmt.Errorf\<close>.
\<close>

datatype schema_error =
    SchemaNil
  | SchemaMarshal string
  | SchemaNotObject string
  | SchemaNull
  | SchemaType "json option"

datatype catalog_error =
    ErrInvalidServerID string
  | ErrEmptyToolName
  | ErrNameCollisionDirect string
  | ErrNameCollisionHash string
  | ErrToolNil
  | ErrInputSchemaInvalid schema_error
  | ErrOutputSchemaInvalid schema_error
  | ErrToolMarshal string
  | ErrToolUnmarshal string
  | ErrRenamedMarshal string
  | ErrToolSizeExceeded nat
  | ErrRenamedSizeExceeded
  | ErrSDKRegistration

section \<open>Validation of names\<close>

text \<open>\<^verbatim>\<open>serverIDRegex = ^[a-z][a-z0-9_-]{0,31}$\<close>\<close>

definition server_id_char :: "char \<Rightarrow> bool" where
  "server_id_char c \<longleftrightarrow> is_lower c \<or> is_digit c \<or> c = CHR ''_'' \<or> c = CHR ''-''"

fun serverIDRegex :: "string \<Rightarrow> bool" where
  "serverIDRegex [] = False"
| "serverIDRegex (c # cs) = (is_lower c \<and> length cs \<le> 31 \<and> list_all server_id_char cs)"

definition ValidateServerID :: "string \<Rightarrow> catalog_error option" where
  "ValidateServerID serverID =
     (if \<not> serverIDRegex serverID then Some (ErrInvalidServerID serverID) else None)"

definition IsAllowedPublicNameChar :: "char \<Rightarrow> bool" where
  "IsAllowedPublicNameChar c \<longleftrightarrow>
     (CHR ''a'' \<le> c \<and> c \<le> CHR ''z'') \<or>
     (CHR ''A'' \<le> c \<and> c \<le> CHR ''Z'') \<or>
     (CHR ''0'' \<le> c \<and> c \<le> CHR ''9'') \<or>
     c = CHR ''_'' \<or>
     c = CHR ''-''"

definition IsValidPublicToolName :: "string \<Rightarrow> bool" where
  "IsValidPublicToolName name =
     (if length name = 0 \<or> length name > MaxPublicToolNameLength then False
      else list_all IsAllowedPublicNameChar name)"

section \<open>Direct names and aliases\<close>

definition ComputeHashedAlias :: "(string \<Rightarrow> string) \<Rightarrow> string \<Rightarrow> string \<Rightarrow> string" where
  "ComputeHashedAlias sha256_hex serverID originalName =
     (let hexStr = sha256_hex (serverID @ [CHR 0x00] @ originalName)
      in serverID @ ''__h'' @ take 24 hexStr)"

definition ResolveDirectName :: "string \<Rightarrow> string \<Rightarrow> string option" where
  "ResolveDirectName serverID originalName =
     (if originalName = [] then None
      else let direct = serverID @ ''__'' @ originalName
           in if \<not> IsValidPublicToolName direct then None else Some direct)"

definition ResolveCandidateName ::
  "(string \<Rightarrow> string) \<Rightarrow> string \<Rightarrow> string \<Rightarrow> string \<times> bool" where
  "ResolveCandidateName sha256_hex serverID originalName =
     (case ResolveDirectName serverID originalName of
        Some direct \<Rightarrow> (direct, False)
      | None \<Rightarrow> (ComputeHashedAlias sha256_hex serverID originalName, True))"

section \<open>Two-pass allocation\<close>

record ToolNameCandidate =
  cand_Index :: nat
  cand_OriginalName :: string
  cand_PublicName :: string
  cand_IsAlias :: bool
  cand_DirectValid :: bool
  cand_Err :: "catalog_error option"

text \<open>The body of the loop ``Initialize candidates''.\<close>

definition init_candidate ::
  "(string \<Rightarrow> string) \<Rightarrow> string \<Rightarrow> nat \<Rightarrow> string \<Rightarrow> ToolNameCandidate" where
  "init_candidate sha256_hex serverID i orig =
     (let c = \<lparr>cand_Index = i, cand_OriginalName = orig, cand_PublicName = [],
               cand_IsAlias = False, cand_DirectValid = False, cand_Err = None\<rparr>
      in if orig = [] then c\<lparr>cand_Err := Some ErrEmptyToolName\<rparr>
         else case ResolveDirectName serverID orig of
                Some direct \<Rightarrow> c\<lparr>cand_DirectValid := True, cand_PublicName := direct\<rparr>
              | None \<Rightarrow> c\<lparr>cand_DirectValid := False,
                          cand_PublicName := ComputeHashedAlias sha256_hex serverID orig,
                          cand_IsAlias := True\<rparr>)"

text \<open>
  The two allocation passes are one loop each over \<^verbatim>\<open>results\<close>; they differ in the candidates
  they look at (\<open>sel\<close>) and in the message of the collision error. \<^verbatim>\<open>claimed\<close> maps a public
  name to the index of the candidate that holds it, -1 for a name claimed externally.
\<close>

fun allocate_pass ::
  "(ToolNameCandidate \<Rightarrow> bool) \<Rightarrow> (string \<Rightarrow> catalog_error) \<Rightarrow> (string, int) gomap \<Rightarrow>
   ToolNameCandidate list \<Rightarrow> ToolNameCandidate list \<times> (string, int) gomap" where
  "allocate_pass sel collision claimed [] = ([], claimed)"
| "allocate_pass sel collision claimed (c # cs) =
     (if cand_Err c \<noteq> None \<or> \<not> sel c then
        (let (r, cl) = allocate_pass sel collision claimed cs in (c # r, cl))
      else if mhas claimed (cand_PublicName c) then
        (let (r, cl) = allocate_pass sel collision claimed cs
         in (c\<lparr>cand_Err := Some (collision (cand_PublicName c))\<rparr> # r, cl))
      else
        (let (r, cl) = allocate_pass sel collision
                         (mput (cand_PublicName c) (int (cand_Index c)) claimed) cs
         in (c # r, cl)))"

definition ResolveNamesWithPriority ::
  "(string \<Rightarrow> string) \<Rightarrow> string \<Rightarrow> string list \<Rightarrow> (string, bool) gomap \<Rightarrow>
   ToolNameCandidate list" where
  "ResolveNamesWithPriority sha256_hex serverID originalNames existingClaimed =
     (let claimed = fold (\<lambda>k m. mput k (-1) m) (mkeys existingClaimed) [];
          results = map (\<lambda>(i, orig). init_candidate sha256_hex serverID i orig)
                        (enumerate 0 originalNames);
          (results, claimed) =
            allocate_pass cand_DirectValid ErrNameCollisionDirect claimed results;
          (results, claimed) =
            allocate_pass (\<lambda>c. \<not> cand_DirectValid c) ErrNameCollisionHash claimed results
      in results)"

section \<open>Facts about names\<close>

definition sha256_hex_ok :: "(string \<Rightarrow> string) \<Rightarrow> bool" where
  "sha256_hex_ok sha256_hex \<longleftrightarrow>
     (\<forall>s. length (sha256_hex s) = 64 \<and>
          (\<forall>c \<in> set (sha256_hex s). is_digit c \<or> (CHR ''a'' \<le> c \<and> c \<le> CHR ''f'')))"

text \<open>A digest for witnesses: the length of the input in hexadecimal digits, padded.\<close>

fun hex_digits :: "nat \<Rightarrow> nat \<Rightarrow> string" where
  "hex_digits 0 n = []"
| "hex_digits (Suc k) n =
     (let d = n mod 16
      in hex_digits k (n div 16) @
         [if d < 10 then char_of (48 + d) else char_of (87 + d)])"

definition demo_sha256_hex :: "string \<Rightarrow> string" where
  "demo_sha256_hex s = hex_digits 24 (foldl (\<lambda>a c. 31 * a + of_char c) 7 s) @ replicate 40 CHR ''0''"

lemma hex_digits_length [simp]: "length (hex_digits k n) = k"
  by (induction k arbitrary: n) (auto simp: Let_def)

lemma hex_digits_chars:
  "c \<in> set (hex_digits k n) \<Longrightarrow> is_digit c \<or> (CHR ''a'' \<le> c \<and> c \<le> CHR ''f'')"
proof (induction k arbitrary: n)
  case 0
  then show ?case by simp
next
  case (Suc k)
  let ?d = "n mod 16"
  have d: "?d < 16" by simp
  from Suc.prems have "c \<in> set (hex_digits k (n div 16)) \<or>
      c = (if ?d < 10 then char_of (48 + ?d) else char_of (87 + ?d))"
    by (auto simp: Let_def)
  then show ?case
  proof
    assume "c \<in> set (hex_digits k (n div 16))"
    then show ?thesis by (rule Suc.IH)
  next
    assume c: "c = (if ?d < 10 then char_of (48 + ?d) else char_of (87 + ?d))"
    show ?thesis
    proof (cases "?d < 10")
      case True
      with c show ?thesis by (simp add: is_digit_def less_eq_char_def)
    next
      case False
      with c have "(of_char c :: nat) = 87 + ?d" by simp
      with d False show ?thesis by (simp only: less_eq_char_def) auto
    qed
  qed
qed

lemma demo_sha256_hex_ok: "sha256_hex_ok demo_sha256_hex"
  by (auto simp: sha256_hex_ok_def demo_sha256_hex_def is_digit_def dest!: hex_digits_chars)

lemma server_id_char_allowed: "server_id_char c \<Longrightarrow> IsAllowedPublicNameChar c"
  by (auto simp: server_id_char_def IsAllowedPublicNameChar_def is_lower_def is_digit_def)

lemma serverIDRegex_props:
  assumes "serverIDRegex s"
  shows "s \<noteq> []" and "length s \<le> MaxServerIDLength" and "list_all IsAllowedPublicNameChar s"
  using assms
  by (cases s; auto simp: MaxServerIDLength_def list_all_iff server_id_char_allowed
      server_id_char_def is_lower_def IsAllowedPublicNameChar_def is_digit_def)+

lemma underscore_allowed [simp]: "IsAllowedPublicNameChar CHR ''_''"
  by (simp add: IsAllowedPublicNameChar_def)

lemma lower_h_allowed [simp]: "IsAllowedPublicNameChar CHR ''h''"
  by (simp add: IsAllowedPublicNameChar_def)

lemma hex_allowed:
  "is_digit c \<or> (CHR ''a'' \<le> c \<and> c \<le> CHR ''f'') \<Longrightarrow> IsAllowedPublicNameChar c"
  by (auto simp: IsAllowedPublicNameChar_def is_digit_def intro: order_trans)

lemma ComputeHashedAlias_valid:
  assumes "sha256_hex_ok sha" and "serverIDRegex sid"
  shows "IsValidPublicToolName (ComputeHashedAlias sha sid orig)"
proof -
  let ?hex = "take 24 (sha (sid @ [CHR 0x00] @ orig))"
  have "length ?hex = 24" and "\<forall>c \<in> set ?hex. IsAllowedPublicNameChar c"
    using assms(1) by (auto simp: sha256_hex_ok_def dest!: in_set_takeD intro!: hex_allowed)
  with serverIDRegex_props [OF assms(2)] show ?thesis
    by (auto simp: IsValidPublicToolName_def ComputeHashedAlias_def Let_def
        MaxPublicToolNameLength_def MaxServerIDLength_def list_all_iff)
qed

lemma ResolveDirectName_Some:
  "ResolveDirectName sid orig = Some n \<longleftrightarrow>
     orig \<noteq> [] \<and> n = sid @ ''__'' @ orig \<and> IsValidPublicToolName n"
  by (auto simp: ResolveDirectName_def Let_def split: if_splits)

section \<open>Facts about the allocation\<close>

text \<open>
  What a pass does to the candidate at index \<open>i\<close>: it is refused exactly when its name was
  claimed before the pass, or an earlier candidate of the pass has the same name.
\<close>

abbreviation contends :: "(ToolNameCandidate \<Rightarrow> bool) \<Rightarrow> ToolNameCandidate \<Rightarrow> bool" where
  "contends sel c \<equiv> cand_Err c = None \<and> sel c"

lemma allocate_pass_length [simp]:
  "length (fst (allocate_pass sel coll cl cs)) = length cs"
  by (induction sel coll cl cs rule: allocate_pass.induct) (auto simp: split_def Let_def)

lemma allocate_pass_nth:
  "i < length cs \<Longrightarrow>
   fst (allocate_pass sel coll cl cs) ! i =
     (if contends sel (cs ! i) \<and>
         (cand_PublicName (cs ! i) \<in> fst ` set cl \<or>
          (\<exists>j < i. contends sel (cs ! j) \<and>
                 cand_PublicName (cs ! j) = cand_PublicName (cs ! i)))
      then (cs ! i)\<lparr>cand_Err := Some (coll (cand_PublicName (cs ! i)))\<rparr> else cs ! i)"
proof (induction sel coll cl cs arbitrary: i rule: allocate_pass.induct)
  case (1 sel coll cl)
  then show ?case by simp
next
  case (2 sel coll cl c cs)
  show ?case
  proof (cases i)
    case 0
    then show ?thesis by (auto simp: split_def Let_def)
  next
    case (Suc k)
    with "2.prems" have k: "k < length cs" by simp
    consider (skip) "\<not> contends sel c" | (taken) "contends sel c" "mhas cl (cand_PublicName c)"
      | (free) "contends sel c" "\<not> mhas cl (cand_PublicName c)"
      by blast
    then show ?thesis
    proof cases
      case skip
      with "2.IH"(1) [OF _ k] Suc show ?thesis
        by (auto simp: split_def Let_def Ex_less_Suc2)
    next
      case taken
      with "2.IH"(2) [OF _ _ k] Suc show ?thesis
        by (auto simp: split_def Let_def Ex_less_Suc2 image_iff)
    next
      case free
      with "2.IH"(3) [OF _ _ k] Suc show ?thesis
        by (auto simp: split_def Let_def Ex_less_Suc2 AList.dom_update)
    qed
  qed
qed

lemma allocate_pass_claimed:
  "fst ` set (snd (allocate_pass sel coll cl cs)) =
     fst ` set cl \<union> cand_PublicName ` {c \<in> set cs. contends sel c}"
  by (induction sel coll cl cs rule: allocate_pass.induct)
    (auto simp: split_def Let_def AList.dom_update)

lemma initial_claimed: "fst ` set (fold (\<lambda>k m. mput k (-1::int) m) ks cl) = fst ` set cl \<union> set ks"
  by (induction ks arbitrary: cl) (auto simp: AList.dom_update)

text \<open>
  The specification: a tool with an empty name is refused; a valid direct name is refused only if
  another server holds it or an earlier tool of the list has the same name; an alias is refused
  if another server holds it, if it is the direct name of any tool of the list, or if it is the
  alias of an earlier one.
\<close>

definition direct_names :: "string \<Rightarrow> string list \<Rightarrow> string set" where
  "direct_names sid origs = {n. \<exists>orig \<in> set origs. ResolveDirectName sid orig = Some n}"

definition alias_names :: "(string \<Rightarrow> string) \<Rightarrow> string \<Rightarrow> string list \<Rightarrow> string set" where
  "alias_names sha sid origs =
     {ComputeHashedAlias sha sid orig |orig.
        orig \<in> set origs \<and> orig \<noteq> [] \<and> ResolveDirectName sid orig = None}"

definition name_decision ::
  "(string \<Rightarrow> string) \<Rightarrow> string \<Rightarrow> string list \<Rightarrow> string set \<Rightarrow> nat \<Rightarrow> ToolNameCandidate" where
  "name_decision sha sid origs taken i =
     (let c = init_candidate sha sid i (origs ! i); n = cand_PublicName c
      in if origs ! i = [] then c
         else if cand_DirectValid c then
           (if n \<in> taken \<union> direct_names sid (take i origs)
            then c\<lparr>cand_Err := Some (ErrNameCollisionDirect n)\<rparr> else c)
         else
           (if n \<in> taken \<union> direct_names sid origs \<union> alias_names sha sid (take i origs)
            then c\<lparr>cand_Err := Some (ErrNameCollisionHash n)\<rparr> else c))"

lemma init_candidate_simps [simp]:
  "cand_Index (init_candidate sha sid i orig) = i"
  "cand_OriginalName (init_candidate sha sid i orig) = orig"
  "cand_Err (init_candidate sha sid i orig) = (if orig = [] then Some ErrEmptyToolName else None)"
  "cand_DirectValid (init_candidate sha sid i orig) \<longleftrightarrow> ResolveDirectName sid orig \<noteq> None"
  "cand_IsAlias (init_candidate sha sid i orig) \<longleftrightarrow>
     orig \<noteq> [] \<and> ResolveDirectName sid orig = None"
  by (auto simp: init_candidate_def Let_def ResolveDirectName_def split: option.splits)

lemma init_candidate_name:
  "orig \<noteq> [] \<Longrightarrow> cand_PublicName (init_candidate sha sid i orig) =
     fst (ResolveCandidateName sha sid orig)"
  by (auto simp: init_candidate_def ResolveCandidateName_def Let_def split: option.splits)

lemma contends_direct:
  "contends cand_DirectValid (init_candidate sha sid i orig) \<longleftrightarrow> ResolveDirectName sid orig \<noteq> None"
  by (auto simp: ResolveDirectName_def)

lemma direct_public_name:
  "ResolveDirectName sid orig = Some n \<Longrightarrow> cand_PublicName (init_candidate sha sid i orig) = n"
  by (auto simp: init_candidate_def Let_def ResolveDirectName_def split: if_splits)

lemma alias_public_name:
  "orig \<noteq> [] \<Longrightarrow> ResolveDirectName sid orig = None \<Longrightarrow>
   cand_PublicName (init_candidate sha sid i orig) = ComputeHashedAlias sha sid orig"
  by (simp add: init_candidate_name ResolveCandidateName_def)

definition initial_candidates ::
  "(string \<Rightarrow> string) \<Rightarrow> string \<Rightarrow> string list \<Rightarrow> ToolNameCandidate list" where
  "initial_candidates sha sid origs =
     map (\<lambda>(i, orig). init_candidate sha sid i orig) (enumerate 0 origs)"

lemma initial_candidates_length [simp]: "length (initial_candidates sha sid origs) = length origs"
  by (simp add: initial_candidates_def)

lemma initial_candidates_nth [simp]:
  "i < length origs \<Longrightarrow> initial_candidates sha sid origs ! i = init_candidate sha sid i (origs ! i)"
  by (simp add: initial_candidates_def nth_enumerate_eq)

lemma direct_contender:
  "contends cand_DirectValid (init_candidate sha sid i orig) \<and>
   cand_PublicName (init_candidate sha sid i orig) = n \<longleftrightarrow>
   ResolveDirectName sid orig = Some n"
  by (cases "ResolveDirectName sid orig") (auto simp: direct_public_name ResolveDirectName_Some)

lemma alias_contender:
  "contends (\<lambda>c. \<not> cand_DirectValid c) (init_candidate sha sid i orig) \<and>
   cand_PublicName (init_candidate sha sid i orig) = n \<longleftrightarrow>
   orig \<noteq> [] \<and> ResolveDirectName sid orig = None \<and> n = ComputeHashedAlias sha sid orig"
  by (auto simp: alias_public_name)

lemma ex_nth_take: "i \<le> length xs \<Longrightarrow> (\<exists>j < i. P (xs ! j)) \<longleftrightarrow> (\<exists>x \<in> set (take i xs). P x)"
  by (auto simp flip: nth_image)

lemma earlier_direct:
  assumes "i \<le> length origs"
  shows "(\<exists>j < i. contends cand_DirectValid (initial_candidates sha sid origs ! j) \<and>
              cand_PublicName (initial_candidates sha sid origs ! j) = n) \<longleftrightarrow>
         n \<in> direct_names sid (take i origs)"
proof -
  have "(contends cand_DirectValid (initial_candidates sha sid origs ! j) \<and>
           cand_PublicName (initial_candidates sha sid origs ! j) = n) \<longleftrightarrow>
        ResolveDirectName sid (origs ! j) = Some n" if "j < i" for j
    using that assms direct_contender [of sha sid j "origs ! j" n] by simp
  then have "(\<exists>j < i. contends cand_DirectValid (initial_candidates sha sid origs ! j) \<and>
              cand_PublicName (initial_candidates sha sid origs ! j) = n) \<longleftrightarrow>
        (\<exists>j < i. ResolveDirectName sid (origs ! j) = Some n)"
    by blast
  also have "\<dots> \<longleftrightarrow> n \<in> direct_names sid (take i origs)"
    using ex_nth_take [OF assms, of "\<lambda>x. ResolveDirectName sid x = Some n"]
    by (simp add: direct_names_def)
  finally show ?thesis .
qed

lemma earlier_alias:
  assumes "i \<le> length origs"
  shows "(\<exists>j < i. contends (\<lambda>c. \<not> cand_DirectValid c) (initial_candidates sha sid origs ! j) \<and>
              cand_PublicName (initial_candidates sha sid origs ! j) = n) \<longleftrightarrow>
         n \<in> alias_names sha sid (take i origs)"
proof -
  have "(contends (\<lambda>c. \<not> cand_DirectValid c) (initial_candidates sha sid origs ! j) \<and>
           cand_PublicName (initial_candidates sha sid origs ! j) = n) \<longleftrightarrow>
        (origs ! j \<noteq> [] \<and> ResolveDirectName sid (origs ! j) = None \<and>
         n = ComputeHashedAlias sha sid (origs ! j))" if "j < i" for j
    using that assms alias_contender [of sha sid j "origs ! j" n] by simp
  then have "(\<exists>j < i. contends (\<lambda>c. \<not> cand_DirectValid c) (initial_candidates sha sid origs ! j) \<and>
              cand_PublicName (initial_candidates sha sid origs ! j) = n) \<longleftrightarrow>
        (\<exists>j < i. origs ! j \<noteq> [] \<and> ResolveDirectName sid (origs ! j) = None \<and>
               n = ComputeHashedAlias sha sid (origs ! j))"
    by blast
  also have "\<dots> \<longleftrightarrow> n \<in> alias_names sha sid (take i origs)"
    using ex_nth_take [OF assms, of "\<lambda>x. x \<noteq> [] \<and> ResolveDirectName sid x = None \<and>
        n = ComputeHashedAlias sha sid x"]
    by (auto simp: alias_names_def)
  finally show ?thesis .
qed

lemma all_direct:
  "cand_PublicName ` {c \<in> set (initial_candidates sha sid origs). contends cand_DirectValid c} =
     direct_names sid origs"
proof -
  have "n \<in> cand_PublicName ` {c \<in> set cs. contends cand_DirectValid c} \<longleftrightarrow>
        (\<exists>j < length cs. contends cand_DirectValid (cs ! j) \<and> cand_PublicName (cs ! j) = n)"
    for n cs
    by (auto simp: in_set_conv_nth image_iff)
  with earlier_direct [OF order_refl, where sha = sha and sid = sid and origs = origs]
  show ?thesis by (simp add: set_eq_iff)
qed

text \<open>
  \<^verbatim>\<open>ResolveNamesWithPriority\<close> computes the decision of the specification for every tool.
\<close>

lemma resolve_names_length [simp]:
  "length (ResolveNamesWithPriority sha sid origs existing) = length origs"
  by (simp add: ResolveNamesWithPriority_def Let_def split_def)

lemma resolve_names_nth:
  assumes i: "i < length origs"
  shows "ResolveNamesWithPriority sha sid origs existing ! i =
           name_decision sha sid origs (set (mkeys existing)) i"
proof -
  let ?cs = "initial_candidates sha sid origs"
  let ?cl = "fold (\<lambda>k m. mput k (-1::int) m) (mkeys existing) []"
  let ?p1 = "allocate_pass cand_DirectValid ErrNameCollisionDirect ?cl ?cs"
  let ?al = "\<lambda>c. \<not> cand_DirectValid c"
  have eq: "ResolveNamesWithPriority sha sid origs existing =
      fst (allocate_pass ?al ErrNameCollisionHash (snd ?p1) (fst ?p1))"
    by (simp add: ResolveNamesWithPriority_def initial_candidates_def Let_def split_def)
  have p1: "fst ?p1 ! j = (if ResolveDirectName sid (origs ! j) \<noteq> None \<and>
        cand_PublicName (?cs ! j) \<in> set (mkeys existing) \<union> direct_names sid (take j origs)
      then (?cs ! j)\<lparr>cand_Err := Some (ErrNameCollisionDirect (cand_PublicName (?cs ! j)))\<rparr>
      else ?cs ! j)" if "j < length origs" for j
    using that earlier_direct [of j origs sha sid "cand_PublicName (?cs ! j)"]
    by (auto simp: allocate_pass_nth initial_claimed ResolveDirectName_def)
  have al: "contends ?al (fst ?p1 ! j) \<longleftrightarrow> contends ?al (?cs ! j)"
    and nm: "cand_PublicName (fst ?p1 ! j) = cand_PublicName (?cs ! j)" if "j < length origs" for j
    using that by (auto simp: p1)
  have cl: "fst ` set (snd ?p1) = set (mkeys existing) \<union> direct_names sid origs"
    by (simp add: allocate_pass_claimed initial_claimed all_direct)
  have ex: "(\<exists>j < i. contends ?al (fst ?p1 ! j) \<and>
              cand_PublicName (fst ?p1 ! j) = cand_PublicName (?cs ! i)) \<longleftrightarrow>
            cand_PublicName (?cs ! i) \<in> alias_names sha sid (take i origs)"
  proof -
    have "(contends ?al (fst ?p1 ! j) \<and> cand_PublicName (fst ?p1 ! j) = cand_PublicName (?cs ! i))
        \<longleftrightarrow> (contends ?al (?cs ! j) \<and> cand_PublicName (?cs ! j) = cand_PublicName (?cs ! i))"
      if "j < i" for j
      using that i al [of j] nm [of j] by simp
    then have "(\<exists>j < i. contends ?al (fst ?p1 ! j) \<and>
          cand_PublicName (fst ?p1 ! j) = cand_PublicName (?cs ! i)) \<longleftrightarrow>
        (\<exists>j < i. contends ?al (?cs ! j) \<and> cand_PublicName (?cs ! j) = cand_PublicName (?cs ! i))"
      by blast
    also have "\<dots> \<longleftrightarrow> cand_PublicName (?cs ! i) \<in> alias_names sha sid (take i origs)"
      using i by (intro earlier_alias) simp
    finally show ?thesis .
  qed
  have r: "ResolveNamesWithPriority sha sid origs existing ! i =
      (if contends ?al (?cs ! i) \<and> cand_PublicName (?cs ! i) \<in>
           set (mkeys existing) \<union> direct_names sid origs \<union> alias_names sha sid (take i origs)
       then (fst ?p1 ! i)\<lparr>cand_Err := Some (ErrNameCollisionHash (cand_PublicName (?cs ! i)))\<rparr>
       else fst ?p1 ! i)"
    using i by (simp only: eq allocate_pass_nth [of i "fst ?p1"] allocate_pass_length
        initial_candidates_length cl ex al [OF i] nm [OF i] Un_iff)
  show ?thesis
  proof (cases "ResolveDirectName sid (origs ! i)")
    case None
    then have "fst ?p1 ! i = ?cs ! i" using p1 [OF i] by simp
    with r None i show ?thesis by (simp add: name_decision_def Let_def)
  next
    case (Some n)
    then have "origs ! i \<noteq> []" by (simp add: ResolveDirectName_Some)
    with r Some i p1 [OF i] show ?thesis by (simp add: name_decision_def Let_def)
  qed
qed

lemma resolve_names_eq_map:
  "ResolveNamesWithPriority sha sid origs existing =
     map (name_decision sha sid origs (set (mkeys existing))) [0..<length origs]"
  by (rule nth_equalityI) (simp_all add: resolve_names_nth)

lemma name_decision_fields:
  "cand_Index (name_decision sha sid origs taken i) = i"
  "cand_OriginalName (name_decision sha sid origs taken i) = origs ! i"
  "cand_PublicName (name_decision sha sid origs taken i) =
     cand_PublicName (init_candidate sha sid i (origs ! i))"
  by (auto simp: name_decision_def Let_def)

lemma name_decision_accepted:
  assumes "cand_Err (name_decision sha sid origs taken i) = None"
  shows "origs ! i \<noteq> []"
    and "cand_PublicName (name_decision sha sid origs taken i) =
           fst (ResolveCandidateName sha sid (origs ! i))"
    and "cand_PublicName (name_decision sha sid origs taken i) \<notin> taken"
  using assms
  by (auto simp: name_decision_def Let_def init_candidate_name split: if_splits)

lemma name_decision_accepted_direct:
  assumes "cand_Err (name_decision sha sid origs taken i) = None"
    and "ResolveDirectName sid (origs ! i) = Some n"
  shows "cand_PublicName (name_decision sha sid origs taken i) = n"
    and "n \<notin> direct_names sid (take i origs)"
  using assms direct_public_name [OF assms(2), of sha i]
  by (auto simp: name_decision_def Let_def ResolveDirectName_Some split: if_splits)

lemma name_decision_accepted_alias:
  assumes "cand_Err (name_decision sha sid origs taken i) = None"
    and "ResolveDirectName sid (origs ! i) = None"
  shows "cand_PublicName (name_decision sha sid origs taken i) \<notin> direct_names sid origs"
    and "cand_PublicName (name_decision sha sid origs taken i) \<notin> alias_names sha sid (take i origs)"
  using assms by (auto simp: name_decision_def Let_def split: if_splits)

lemma name_decision_in_names:
  assumes "i < k" and "k \<le> length origs" and "origs ! i \<noteq> []"
  shows "ResolveDirectName sid (origs ! i) = Some n \<Longrightarrow> n \<in> direct_names sid (take k origs)"
    and "ResolveDirectName sid (origs ! i) = None \<Longrightarrow>
         cand_PublicName (name_decision sha sid origs taken i) \<in> alias_names sha sid (take k origs)"
proof -
  have mem: "origs ! i \<in> set (take k origs)"
    using assms(1,2) by (simp add: in_set_conv_nth) (metis nth_take)
  then show "ResolveDirectName sid (origs ! i) = Some n \<Longrightarrow> n \<in> direct_names sid (take k origs)"
    by (auto simp: direct_names_def)
  show "ResolveDirectName sid (origs ! i) = None \<Longrightarrow>
      cand_PublicName (name_decision sha sid origs taken i) \<in> alias_names sha sid (take k origs)"
    using mem assms(3) by (auto simp: alias_names_def name_decision_fields alias_public_name)
qed

lemma name_decision_distinct:
  assumes "i < j" and "j < length origs"
    and ei: "cand_Err (name_decision sha sid origs taken i) = None"
    and ej: "cand_Err (name_decision sha sid origs taken j) = None"
  shows "cand_PublicName (name_decision sha sid origs taken i) \<noteq>
         cand_PublicName (name_decision sha sid origs taken j)"
proof -
  note ni = name_decision_accepted(1) [OF ei] and nj = name_decision_accepted(1) [OF ej]
  note inj = name_decision_in_names [OF assms(1) less_imp_le [OF assms(2)] ni]
    and ini = name_decision_in_names [OF _ order_refl ni, unfolded take_all_iff [THEN iffD2, OF order_refl]]
    and inn = name_decision_in_names [OF assms(2) order_refl nj, unfolded take_all_iff [THEN iffD2, OF order_refl]]
  show ?thesis
  proof (cases "ResolveDirectName sid (origs ! i)")
    case di: None
    show ?thesis
    proof (cases "ResolveDirectName sid (origs ! j)")
      case None
      with inj(2) [OF di] name_decision_accepted_alias(2) [OF ej None] show ?thesis by metis
    next
      case (Some m)
      with inn(1) [OF Some] name_decision_accepted_alias(1) [OF ei di]
        name_decision_accepted_direct(1) [OF ej Some] show ?thesis by metis
    qed
  next
    case di: (Some n)
    note n = name_decision_accepted_direct(1) [OF ei di]
    show ?thesis
    proof (cases "ResolveDirectName sid (origs ! j)")
      case None
      have "i < length origs" using assms(1,2) by simp
      with ini(1) [OF _ di] n name_decision_accepted_alias(1) [OF ej None] show ?thesis by metis
    next
      case (Some m)
      with inj(1) [OF di] n name_decision_accepted_direct [OF ej Some] show ?thesis by metis
    qed
  qed
qed

definition accepted_names :: "ToolNameCandidate list \<Rightarrow> string list" where
  "accepted_names cands = map cand_PublicName (filter (\<lambda>c. cand_Err c = None) cands)"

lemma accepted_names_simps [simp]:
  "accepted_names [] = []"
  "accepted_names (c # cs) =
     (if cand_Err c = None then cand_PublicName c # accepted_names cs else accepted_names cs)"
  by (simp_all add: accepted_names_def)

lemma distinct_map_filterI:
  assumes "\<And>i j. i < j \<Longrightarrow> j < length xs \<Longrightarrow> P (xs ! i) \<Longrightarrow> P (xs ! j) \<Longrightarrow> f (xs ! i) \<noteq> f (xs ! j)"
  shows "distinct (map f (filter P xs))"
  using assms
proof (induction xs)
  case Nil
  then show ?case by simp
next
  case (Cons x xs)
  have "distinct (map f (filter P xs))"
    by (rule Cons.IH) (use Cons.prems [of "Suc i" "Suc j" for i j] in auto)
  moreover have "f x \<noteq> f y" if "P x" "y \<in> set xs" "P y" for y
  proof -
    from that(2) obtain j where "j < length xs" "y = xs ! j" by (auto simp: in_set_conv_nth)
    with Cons.prems [of 0 "Suc j"] that show ?thesis by auto
  qed
  ultimately show ?case by auto
qed

lemma accepted_names_distinct:
  "distinct (accepted_names (ResolveNamesWithPriority sha sid origs existing))"
  unfolding accepted_names_def
  by (rule distinct_map_filterI) (auto simp: resolve_names_nth name_decision_distinct)

lemma accepted_names_valid:
  assumes "sha256_hex_ok sha" and "serverIDRegex sid"
    and "n \<in> set (accepted_names (ResolveNamesWithPriority sha sid origs existing))"
  shows "IsValidPublicToolName n" and "n \<notin> set (mkeys existing)"
proof -
  from assms(3) obtain i where i: "i < length origs"
    and e: "cand_Err (name_decision sha sid origs (set (mkeys existing)) i) = None"
    and n: "n = cand_PublicName (name_decision sha sid origs (set (mkeys existing)) i)"
    by (auto simp: accepted_names_def resolve_names_eq_map)
  from name_decision_accepted(3) [OF e] n show "n \<notin> set (mkeys existing)" by simp
  from name_decision_accepted(2) [OF e] n
  have "n = fst (ResolveCandidateName sha sid (origs ! i))" by simp
  then show "IsValidPublicToolName n"
    using ComputeHashedAlias_valid [OF assms(1,2)]
    by (auto simp: ResolveCandidateName_def ResolveDirectName_Some split: option.splits)
qed

end
