(* ===== verification/Validation.thy ===== *)
theory Validation
  imports Naming
begin

text \<open>
  Validation and cloning of tool definitions (\<^verbatim>\<open>internal/catalog/validation.go\<close>) and the
  filter for disabled tools (\<^verbatim>\<open>filter.go\<close>).

  \<^verbatim>\<open>mcp.Tool\<close> is a type of the MCP Go SDK: its name and its two schemas are fields the code
  reads, the rest is opaque. How the SDK's type is marshalled and unmarshalled and which tools its
  \<^verbatim>\<open>Server.AddTool\<close> accepts without a panic are parameters (\<open>catalog_env\<close>).
\<close>

record tool =
  tool_Name :: string
  tool_InputSchema :: go_any
  tool_OutputSchema :: go_any
  tool_Rest :: string

record catalog_env =
  env_sha256_hex :: "string \<Rightarrow> string"
  env_marshal :: "tool \<Rightarrow> string + string"
  env_unmarshal :: "string \<Rightarrow> string + tool"
  env_AddTool_ok :: "tool \<Rightarrow> bool"

section \<open>Schemas and tools\<close>

fun validateSchemaObject :: "go_any \<Rightarrow> schema_error option" where
  "validateSchemaObject AnyNil = Some SchemaNil"
| "validateSchemaObject (MarshalFails e) = Some (SchemaMarshal e)"
| "validateSchemaObject (Marshals (JObj kvs)) =
     (case obj_get kvs ''type'' of
        Some (JStr t) \<Rightarrow> (if t = ''object'' then None else Some (SchemaType (Some (JStr t))))
      | typ \<Rightarrow> Some (SchemaType typ))"
| "validateSchemaObject (Marshals JNull) = Some SchemaNull"
| "validateSchemaObject (Marshals j) = Some (SchemaNotObject (json_kind j))"

definition validateSDKRegistration :: "catalog_env \<Rightarrow> tool \<Rightarrow> catalog_error option" where
  "validateSDKRegistration env t = (if env_AddTool_ok env t then None else Some ErrSDKRegistration)"

definition ValidateTool :: "catalog_env \<Rightarrow> tool option \<Rightarrow> catalog_error option" where
  "ValidateTool env tp =
     (case tp of
        None \<Rightarrow> Some ErrToolNil
      | Some t \<Rightarrow>
          if tool_Name t = [] then Some ErrEmptyToolName
          else case validateSchemaObject (tool_InputSchema t) of
            Some e \<Rightarrow> Some (ErrInputSchemaInvalid e)
          | None \<Rightarrow>
              case (if tool_OutputSchema t \<noteq> AnyNil
                    then validateSchemaObject (tool_OutputSchema t) else None) of
                Some e \<Rightarrow> Some (ErrOutputSchemaInvalid e)
              | None \<Rightarrow>
                  case env_marshal env t of
                    Inl e \<Rightarrow> Some (ErrToolMarshal e)
                  | Inr data \<Rightarrow>
                      if length data > MaxToolDefinitionBytes
                      then Some (ErrToolSizeExceeded (length data))
                      else validateSDKRegistration env t)"

text \<open>
  The result of \<^verbatim>\<open>CloneAndAssignPublicName\<close> is the clone with its encoded size; the size that
  the code returns beside an error is read by no caller and left out.
\<close>

definition CloneAndAssignPublicName ::
  "catalog_env \<Rightarrow> tool option \<Rightarrow> string \<Rightarrow> catalog_error + tool \<times> nat" where
  "CloneAndAssignPublicName env tp publicName =
     (case ValidateTool env tp of
        Some e \<Rightarrow> Inl e
      | None \<Rightarrow>
          (case tp of None \<Rightarrow> Inl ErrToolNil
           | Some t \<Rightarrow>
              (case env_marshal env t of
                 Inl e \<Rightarrow> Inl (ErrToolMarshal e)
               | Inr data \<Rightarrow>
                   if length data > MaxToolDefinitionBytes
                   then Inl (ErrToolSizeExceeded (length data))
                   else
                     case env_unmarshal env data of
                       Inl e \<Rightarrow> Inl (ErrToolUnmarshal e)
                     | Inr cloned \<Rightarrow>
                         (let cloned = cloned\<lparr>tool_Name := publicName\<rparr>
                          in case env_marshal env cloned of
                               Inl e \<Rightarrow> Inl (ErrRenamedMarshal e)
                             | Inr encoded \<Rightarrow>
                                 if length encoded > MaxToolDefinitionBytes
                                 then Inl ErrRenamedSizeExceeded
                                 else Inr (cloned, length encoded)))))"

section \<open>Disabled tools\<close>

text \<open>
  A slice \<^verbatim>\<open>[]*mcp.Tool\<close> may hold nil pointers: \<^term>\<open>None\<close>. With no disabled names the slice
  is returned as it is, nil pointers included.
\<close>

fun partition_disabled ::
  "(string, bool) gomap \<Rightarrow> tool option list \<Rightarrow> tool option list \<times> tool option list" where
  "partition_disabled ds [] = ([], [])"
| "partition_disabled ds (None # ts) = partition_disabled ds ts"
| "partition_disabled ds (Some t # ts) =
     (let (enabled, disabledTools) = partition_disabled ds ts
      in if mget_or False ds (tool_Name t) then (enabled, Some t # disabledTools)
         else (Some t # enabled, disabledTools))"

definition FilterDisabledTools ::
  "tool option list \<Rightarrow> string list \<Rightarrow> tool option list \<times> tool option list" where
  "FilterDisabledTools tools disabled =
     (if length disabled = 0 then (tools, [])
      else let disabledSet = fold (\<lambda>d m. mput d True m) disabled []
           in partition_disabled disabledSet tools)"

section \<open>Facts\<close>

lemma validateSchemaObject_None:
  "validateSchemaObject a = None \<longleftrightarrow>
     (\<exists>kvs. a = Marshals (JObj kvs) \<and> obj_get kvs ''type'' = Some (JStr ''object''))"
  by (cases a rule: validateSchemaObject.cases) (auto split: option.splits json.splits)

lemma ValidateTool_None:
  "ValidateTool env tp = None \<longleftrightarrow>
     (\<exists>t data. tp = Some t \<and> tool_Name t \<noteq> [] \<and> validateSchemaObject (tool_InputSchema t) = None \<and>
        (tool_OutputSchema t \<noteq> AnyNil \<longrightarrow> validateSchemaObject (tool_OutputSchema t) = None) \<and>
        env_marshal env t = Inr data \<and> length data \<le> MaxToolDefinitionBytes \<and>
        env_AddTool_ok env t)"
  by (auto simp: ValidateTool_def validateSDKRegistration_def not_less
      split: option.splits sum.splits if_splits)

lemma CloneAndAssign_Inr:
  assumes "CloneAndAssignPublicName env tp pn = Inr (cloned, sz)"
  shows "tool_Name cloned = pn" and "sz \<le> MaxToolDefinitionBytes"
    and "\<exists>enc. env_marshal env cloned = Inr enc \<and> sz = length enc"
    and "ValidateTool env tp = None"
  using assms
  by (auto simp: CloneAndAssignPublicName_def Let_def not_less
      split: option.splits sum.splits if_splits)

lemma disabledSet_get:
  "mget_or False (fold (\<lambda>d m. mput d True m) ds m) n \<longleftrightarrow> n \<in> set ds \<or> mget_or False m n"
  by (induction ds arbitrary: m) auto

lemma partition_disabled_eq:
  "partition_disabled ds ts =
     (filter (\<lambda>p. case p of None \<Rightarrow> False | Some t \<Rightarrow> \<not> mget_or False ds (tool_Name t)) ts,
      filter (\<lambda>p. case p of None \<Rightarrow> False | Some t \<Rightarrow> mget_or False ds (tool_Name t)) ts)"
  by (induction ds ts rule: partition_disabled.induct) (auto simp: Let_def)

lemma FilterDisabledTools_eq:
  "FilterDisabledTools tools disabled =
     (if disabled = [] then (tools, [])
      else (filter (\<lambda>p. case p of None \<Rightarrow> False | Some t \<Rightarrow> tool_Name t \<notin> set disabled) tools,
            filter (\<lambda>p. case p of None \<Rightarrow> False | Some t \<Rightarrow> tool_Name t \<in> set disabled) tools))"
  by (auto simp: FilterDisabledTools_def partition_disabled_eq Let_def disabledSet_get
      split: option.splits intro!: filter_cong)

end
