(* ===== verification/Catalog.thy ===== *)
theory Catalog
  imports Validation "HOL-Library.Product_Lexorder"
begin

text \<open>
  The tool catalog (\<^verbatim>\<open>internal/catalog/catalog.go\<close>, \<^verbatim>\<open>snapshot.go\<close>, \<^verbatim>\<open>route.go\<close>): the tools
  each downstream server publishes, the tools it could not publish, and the immutable snapshot that
  routing reads. Every operation runs under \<^verbatim>\<open>c.mu\<close>, so an operation is one state transformer;
  \<^verbatim>\<open>snapshot\<close> is the value of the atomic pointer.

  The state is well formed (\<open>cat_wf\<close>) when public names are globally unique, every published tool
  satisfies the naming and size rules, the capacity limits hold and the snapshot is the one of the
  current tables. \<open>UpdateServerTools\<close> and \<open>RemoveServer\<close> keep this.
\<close>

section \<open>Data\<close>

record RouteEntry =
  route_PublicName :: string
  route_ServerID :: string
  route_OriginalName :: string

datatype unpublished_reason =
    ReasonDisabled
  | ReasonError catalog_error
  | ReasonPerServerLimit
  | ReasonTotalLimit
  | ReasonTotalSizeLimit

record UnpublishedTool =
  up_ServerID :: string
  up_OriginalName :: string
  up_PublicName :: string
  up_Reason :: unpublished_reason

record Snapshot =
  snap_Revision :: int
  snap_Tools :: "tool list"
  snap_Routes :: "(string, RouteEntry) gomap"
  snap_ServerTools :: "(string, string list) gomap"
  snap_PublishedCounts :: "(string, nat) gomap"
  snap_UnpublishedCounts :: "(string, nat) gomap"
  snap_Unpublished :: "UnpublishedTool list"
  snap_TotalCatalogBytes :: nat

record registeredTool =
  rt_tool :: tool
  rt_serverID :: string
  rt_originalName :: string
  rt_publicName :: string
  rt_jsonBytes :: string
  rt_size :: nat

type_synonym server_tools = "(string, registeredTool) gomap"

record Catalog =
  cat_revision :: int
  cat_servers :: "(string, server_tools) gomap"
  cat_unpublished :: "(string, UnpublishedTool list) gomap"
  cat_snapshot :: Snapshot

section \<open>Reading a snapshot\<close>

definition LookupRoute :: "Snapshot \<Rightarrow> string \<Rightarrow> RouteEntry option" where
  "LookupRoute s publicName = mget (snap_Routes s) publicName"

text \<open>
  \<^verbatim>\<open>sort.Search(n, f)\<close> of the standard library: binary search in \<open>[lo, hi)\<close> for the first
  index where \<open>f\<close> holds.
\<close>

function sort_search :: "nat \<Rightarrow> nat \<Rightarrow> (nat \<Rightarrow> bool) \<Rightarrow> nat" where
  "sort_search lo hi f =
     (if lo < hi then
        (let h = (lo + hi) div 2
         in if \<not> f h then sort_search (h + 1) hi f else sort_search lo h f)
      else lo)"
  by pat_completeness auto
termination
  by (relation "measure (\<lambda>(lo, hi, f). hi - lo)") auto

declare sort_search.simps [simp del]

definition GetTool :: "Snapshot \<Rightarrow> string \<Rightarrow> tool option" where
  "GetTool s publicName =
     (let idx = sort_search 0 (length (snap_Tools s))
                  (\<lambda>i. tool_Name (snap_Tools s ! i) \<ge> publicName)
      in if idx < length (snap_Tools s) \<and> tool_Name (snap_Tools s ! idx) = publicName
         then Some (snap_Tools s ! idx) else None)"

definition ToolsList :: "Snapshot \<Rightarrow> tool list" where
  "ToolsList s = snap_Tools s"

definition TotalPublished :: "Snapshot \<Rightarrow> nat" where
  "TotalPublished s = length (snap_Tools s)"

definition PublishedCount :: "Snapshot \<Rightarrow> string \<Rightarrow> nat" where
  "PublishedCount s serverID = mget_or 0 (snap_PublishedCounts s) serverID"

definition UnpublishedCount :: "Snapshot \<Rightarrow> string \<Rightarrow> nat" where
  "UnpublishedCount s serverID = mget_or 0 (snap_UnpublishedCounts s) serverID"

definition ServerToolNames :: "Snapshot \<Rightarrow> string \<Rightarrow> string list" where
  "ServerToolNames s serverID = mget_or [] (snap_ServerTools s) serverID"

section \<open>Building the snapshot\<close>

definition route_of :: "string \<Rightarrow> string \<Rightarrow> registeredTool \<Rightarrow> RouteEntry" where
  "route_of sID pName rt =
     \<lparr>route_PublicName = pName, route_ServerID = sID, route_OriginalName = rt_originalName rt\<rparr>"

fun add_routes ::
  "string \<Rightarrow> server_tools \<Rightarrow> (string, RouteEntry) gomap \<Rightarrow> (string, RouteEntry) gomap" where
  "add_routes sID [] routes = routes"
| "add_routes sID ((pName, rt) # sMap) routes =
     add_routes sID sMap (mput pName (route_of sID pName rt) routes)"

fun collect_routes ::
  "(string, server_tools) gomap \<Rightarrow> (string, RouteEntry) gomap \<Rightarrow> (string, RouteEntry) gomap" where
  "collect_routes [] routes = routes"
| "collect_routes ((sID, sMap) # servers) routes =
     collect_routes servers (add_routes sID sMap routes)"

definition published :: "(string, server_tools) gomap \<Rightarrow> server_tools" where
  "published servers = concat (map snd servers)"

definition build_snapshot ::
  "int \<Rightarrow> (string, server_tools) gomap \<Rightarrow> (string, UnpublishedTool list) gomap \<Rightarrow> Snapshot" where
  "build_snapshot revision servers unpublished =
     (let allTools = map (rt_tool \<circ> snd) (published servers);
          routes = collect_routes servers [];
          serverTools = map (\<lambda>(sID, sMap). (sID, sort (mkeys sMap))) servers;
          publishedCounts = map (\<lambda>(sID, sMap). (sID, length (sort (mkeys sMap)))) servers;
          totalBytes = (\<Sum>p\<leftarrow>published servers. rt_size (snd p));
          unpublishedCounts = map (\<lambda>(sID, unpub). (sID, length unpub)) unpublished;
          allUnpublished = concat (map snd unpublished)
      in \<lparr>snap_Revision = revision,
          snap_Tools = sort_key tool_Name allTools,
          snap_Routes = routes,
          snap_ServerTools = serverTools,
          snap_PublishedCounts = publishedCounts,
          snap_UnpublishedCounts = unpublishedCounts,
          snap_Unpublished = sort_key (\<lambda>u. (up_ServerID u, up_OriginalName u)) allUnpublished,
          snap_TotalCatalogBytes = totalBytes\<rparr>)"

definition rebuildSnapshot :: "Catalog \<Rightarrow> Catalog" where
  "rebuildSnapshot c =
     c\<lparr>cat_snapshot := build_snapshot (cat_revision c) (cat_servers c) (cat_unpublished c)\<rparr>"

definition NewCatalog :: Catalog where
  "NewCatalog =
     \<lparr>cat_revision = 0, cat_servers = [], cat_unpublished = [],
      cat_snapshot = \<lparr>snap_Revision = 0, snap_Tools = [], snap_Routes = [], snap_ServerTools = [],
        snap_PublishedCounts = [], snap_UnpublishedCounts = [], snap_Unpublished = [],
        snap_TotalCatalogBytes = 0\<rparr>\<rparr>"

definition cat_Revision :: "Catalog \<Rightarrow> int" where
  "cat_Revision c = snap_Revision (cat_snapshot c)"

definition cat_LookupRoute :: "Catalog \<Rightarrow> string \<Rightarrow> RouteEntry option" where
  "cat_LookupRoute c publicName = LookupRoute (cat_snapshot c) publicName"

section \<open>Publishing the tools of a server\<close>

text \<open>One iteration of the loop over the name candidates: accept the tool or record the reason.\<close>

definition unpublished_tool ::
  "string \<Rightarrow> string \<Rightarrow> string \<Rightarrow> unpublished_reason \<Rightarrow> UnpublishedTool" where
  "unpublished_tool sid orig pn r =
     \<lparr>up_ServerID = sid, up_OriginalName = orig, up_PublicName = pn, up_Reason = r\<rparr>"

definition accept_candidate ::
  "catalog_env \<Rightarrow> string \<Rightarrow> nat \<Rightarrow> nat \<Rightarrow> ToolNameCandidate \<Rightarrow> tool \<Rightarrow>
   server_tools \<times> nat \<times> UnpublishedTool list \<Rightarrow> server_tools \<times> nat \<times> UnpublishedTool list" where
  "accept_candidate env serverID otherCount otherBytes cand raw st =
     (case st of (newServerTools, currentBytes, unpub) \<Rightarrow>
        let reject = (\<lambda>orig reason. (newServerTools, currentBytes,
                        unpub @ [unpublished_tool serverID orig (cand_PublicName cand) reason]))
        in case cand_Err cand of
             Some e \<Rightarrow> reject (cand_OriginalName cand) (ReasonError e)
           | None \<Rightarrow>
               (case CloneAndAssignPublicName env (Some raw) (cand_PublicName cand) of
                  Inl e \<Rightarrow> reject (tool_Name raw) (ReasonError e)
                | Inr (cloned, sz) \<Rightarrow>
                    if length newServerTools \<ge> MaxToolsPerServer
                    then reject (tool_Name raw) ReasonPerServerLimit
                    else if otherCount + length newServerTools \<ge> MaxTotalTools
                    then reject (tool_Name raw) ReasonTotalLimit
                    else if otherBytes + currentBytes + sz > MaxCatalogJSONBytes
                    then reject (tool_Name raw) ReasonTotalSizeLimit
                    else
                      (let rawBytes = (case env_marshal env cloned of Inl _ \<Rightarrow> [] | Inr b \<Rightarrow> b);
                           rt = \<lparr>rt_tool = cloned, rt_serverID = serverID,
                                 rt_originalName = tool_Name raw,
                                 rt_publicName = cand_PublicName cand,
                                 rt_jsonBytes = rawBytes, rt_size = sz\<rparr>
                       in (mput (cand_PublicName cand) rt newServerTools, currentBytes + sz, unpub))))"

fun accept_loop ::
  "catalog_env \<Rightarrow> string \<Rightarrow> nat \<Rightarrow> nat \<Rightarrow> (ToolNameCandidate \<times> tool) list \<Rightarrow>
   server_tools \<times> nat \<times> UnpublishedTool list \<Rightarrow> server_tools \<times> nat \<times> UnpublishedTool list" where
  "accept_loop env sid oc ob [] st = st"
| "accept_loop env sid oc ob ((cand, raw) # rest) st =
     accept_loop env sid oc ob rest (accept_candidate env sid oc ob cand raw st)"

definition other_tools :: "(string, server_tools) gomap \<Rightarrow> string \<Rightarrow> server_tools" where
  "other_tools servers serverID = published (filter (\<lambda>p. fst p \<noteq> serverID) servers)"

text \<open>Steps 1 to 4: the tables of the server, from what discovery returned.\<close>

definition compute_server_tools ::
  "catalog_env \<Rightarrow> (string, server_tools) gomap \<Rightarrow> string \<Rightarrow> tool list \<Rightarrow> tool list \<Rightarrow>
   server_tools \<times> UnpublishedTool list" where
  "compute_server_tools env servers serverID enabledTools disabledList =
     (let unpublishedList =
            map (\<lambda>d. unpublished_tool serverID (tool_Name d) [] ReasonDisabled) disabledList;
          others = other_tools servers serverID;
          claimedNames = fold (\<lambda>p m. mput (fst p) True m) others [];
          otherBytes = (\<Sum>p\<leftarrow>others. rt_size (snd p));
          otherCount = length others;
          nameCandidates = ResolveNamesWithPriority (env_sha256_hex env) serverID
                             (map tool_Name enabledTools) claimedNames;
          (newServerTools, bytes, unpub) =
            accept_loop env serverID otherCount otherBytes (zip nameCandidates enabledTools)
              ([], 0, unpublishedList)
      in (newServerTools, unpub))"

text \<open>Step 5: the difference to what the server published before.\<close>

definition tools_to_remove :: "server_tools \<Rightarrow> server_tools \<Rightarrow> string list" where
  "tools_to_remove old new = filter (\<lambda>n. \<not> mhas new n) (mkeys old)"

definition tools_to_add :: "server_tools \<Rightarrow> server_tools \<Rightarrow> tool list" where
  "tools_to_add old new =
     map (rt_tool \<circ> snd)
       (filter (\<lambda>(n, rt). case mget old n of
                           None \<Rightarrow> True
                         | Some ort \<Rightarrow> rt_jsonBytes ort \<noteq> rt_jsonBytes rt) new)"

text \<open>
  The result is \<^term>\<open>None\<close> when the code panics: a nil pointer among the enabled tools is
  dereferenced at \<^verbatim>\<open>origNames[i] = t.Name\<close>, before anything is stored.
\<close>

definition UpdateServerTools ::
  "catalog_env \<Rightarrow> Catalog \<Rightarrow> string \<Rightarrow> tool option list \<Rightarrow> string list \<Rightarrow>
   ((tool list \<times> string list \<times> Snapshot \<times> catalog_error option) \<times> Catalog) option" where
  "UpdateServerTools env c serverID rawTools disabled =
     (case ValidateServerID serverID of
        Some e \<Rightarrow> Some (([], [], cat_snapshot c, Some e), c)
      | None \<Rightarrow>
          (let (enabledTools, disabledList) = FilterDisabledTools rawTools disabled
           in if None \<in> set enabledTools then None
              else
                let (newServerTools, unpublishedList) =
                      compute_server_tools env (cat_servers c) serverID
                        (map the enabledTools) (map the disabledList);
                    oldServerTools = mget_or [] (cat_servers c) serverID;
                    toRemove = tools_to_remove oldServerTools newServerTools;
                    toAdd = tools_to_add oldServerTools newServerTools;
                    unpublishedChanged =
                      mget_or [] (cat_unpublished c) serverID \<noteq> unpublishedList;
                    hasChanges = toAdd \<noteq> [] \<or> toRemove \<noteq> [] \<or> unpublishedChanged \<or>
                      (newServerTools = [] \<and> oldServerTools \<noteq> []);
                    c' = (if hasChanges
                          then rebuildSnapshot
                                 (c\<lparr>cat_servers := mput serverID newServerTools (cat_servers c),
                                   cat_unpublished :=
                                     mput serverID unpublishedList (cat_unpublished c),
                                   cat_revision := cat_revision c + 1\<rparr>)
                          else c)
                in Some ((toAdd, toRemove, cat_snapshot c', None), c')))"

definition RemoveServer :: "Catalog \<Rightarrow> string \<Rightarrow> (string list \<times> Snapshot) \<times> Catalog" where
  "RemoveServer c serverID =
     (let oldTools = mget_or [] (cat_servers c) serverID;
          hasUnpublished = mhas (cat_unpublished c) serverID
      in if length oldTools = 0 \<and> \<not> hasUnpublished then (([], cat_snapshot c), c)
         else
           let toRemove = mkeys oldTools;
               c' = rebuildSnapshot
                      (c\<lparr>cat_servers := mdel serverID (cat_servers c),
                        cat_unpublished := mdel serverID (cat_unpublished c),
                        cat_revision := cat_revision c + 1\<rparr>)
           in ((toRemove, cat_snapshot c'), c'))"

end
