(* ===== verification/Catalog_Invariants.thy ===== *)
theory Catalog_Invariants
  imports Catalog "HOL-Library.Multiset"
begin

text \<open>
  The invariant of the catalog and its preservation by \<open>UpdateServerTools\<close> and
  \<open>RemoveServer\<close>; what the lookups of a snapshot return; that no tool of a server's answer is
  lost; and what the differences \<open>toAdd\<close> and \<open>toRemove\<close> mean.
\<close>

section \<open>The invariant\<close>

definition rt_ok :: "catalog_env \<Rightarrow> string \<Rightarrow> string \<times> registeredTool \<Rightarrow> bool" where
  "rt_ok env sid p \<longleftrightarrow>
     (case p of (n, rt) \<Rightarrow>
        rt_publicName rt = n \<and> rt_serverID rt = sid \<and> tool_Name (rt_tool rt) = n \<and>
        IsValidPublicToolName n \<and>
        n = fst (ResolveCandidateName (env_sha256_hex env) sid (rt_originalName rt)) \<and>
        env_marshal env (rt_tool rt) = Inr (rt_jsonBytes rt) \<and>
        rt_size rt = length (rt_jsonBytes rt) \<and> rt_size rt \<le> MaxToolDefinitionBytes)"

definition server_ok :: "catalog_env \<Rightarrow> string \<times> server_tools \<Rightarrow> bool" where
  "server_ok env s \<longleftrightarrow>
     serverIDRegex (fst s) \<and> length (snd s) \<le> MaxToolsPerServer \<and>
     (\<forall>p \<in> set (snd s). rt_ok env (fst s) p)"

abbreviation total_size :: "server_tools \<Rightarrow> nat" where
  "total_size ts \<equiv> (\<Sum>p\<leftarrow>ts. rt_size (snd p))"

definition tables_ok :: "catalog_env \<Rightarrow> (string, server_tools) gomap \<Rightarrow> bool" where
  "tables_ok env servers \<longleftrightarrow>
     wf_map servers \<and> (\<forall>s \<in> set servers. server_ok env s) \<and>
     wf_map (published servers) \<and>
     length (published servers) \<le> MaxTotalTools \<and>
     total_size (published servers) \<le> MaxCatalogJSONBytes"

definition cat_wf :: "catalog_env \<Rightarrow> Catalog \<Rightarrow> bool" where
  "cat_wf env c \<longleftrightarrow>
     tables_ok env (cat_servers c) \<and> wf_map (cat_unpublished c) \<and>
     cat_snapshot c = build_snapshot (cat_revision c) (cat_servers c) (cat_unpublished c)"

section \<open>The published tables\<close>

lemma published_simps [simp]:
  "published [] = []"
  "published (s # ss) = snd s @ published ss"
  "published (ss @ ss') = published ss @ published ss'"
  by (simp_all add: published_def)

lemma set_published: "p \<in> set (published servers) \<longleftrightarrow> (\<exists>s \<in> set servers. p \<in> set (snd s))"
  by (auto simp: published_def)

lemma other_tools_mdel: "other_tools servers sid = published (mdel sid servers)"
proof -
  have "filter (\<lambda>p. fst p \<noteq> sid) servers = mdel sid servers"
    by (auto simp: AList.delete_eq intro: filter_cong)
  then show ?thesis by (simp add: other_tools_def)
qed

lemma mset_published_mput:
  assumes "wf_map servers"
  shows "mset (published (mput sid new servers)) = mset (other_tools servers sid) + mset new"
proof (cases "map_of servers sid")
  case None
  then have "sid \<notin> fst ` set servers" by (simp add: map_of_eq_None_iff)
  then show ?thesis by (simp add: mput_fresh other_tools_mdel)
next
  case (Some old)
  from mput_split [OF assms this, of new] show ?thesis
    by (auto simp: other_tools_mdel)
qed

lemma mset_published_mdel:
  assumes "wf_map servers"
  shows "mset (published servers) = mset (other_tools servers sid) + mset (mget_or [] servers sid)"
proof (cases "map_of servers sid")
  case None
  then have "sid \<notin> fst ` set servers" by (simp add: map_of_eq_None_iff)
  with None show ?thesis by (simp add: other_tools_mdel mget_or_def)
next
  case (Some old)
  from mput_split [OF assms this, of old] Some show ?thesis
    by (auto simp: other_tools_mdel mget_or_def)
qed

text \<open>Facts that depend on a table only as a multiset of entries.\<close>

lemma mset_tables:
  fixes xs ys zs :: server_tools
  assumes "mset xs = mset ys + mset zs"
  shows "wf_map xs \<longleftrightarrow> wf_map (ys @ zs)"
    and "length xs = length ys + length zs"
    and "total_size xs = total_size ys + total_size zs"
    and "set xs = set ys \<union> set zs"
proof -
  have m: "mset xs = mset (ys @ zs)" using assms by simp
  then have "mset (map fst xs) = mset (map fst (ys @ zs))" by (metis mset_map)
  then show "wf_map xs \<longleftrightarrow> wf_map (ys @ zs)" by (rule mset_eq_imp_distinct_iff)
  from m show "length xs = length ys + length zs" by (metis mset_eq_length length_append)
  from m show "set xs = set ys \<union> set zs" by (metis mset_eq_setD set_append)
  have "mset (map (rt_size \<circ> snd) xs) = mset (map (rt_size \<circ> snd) (ys @ zs))"
    using m by (metis mset_map)
  then show "total_size xs = total_size ys + total_size zs"
    by (metis (no_types, lifting) comp_apply map_append map_eq_conv sum_list.append sum_mset_sum_list)
qed

lemma server_ok_published:
  "\<forall>s \<in> set servers. server_ok env s \<Longrightarrow> (n, rt) \<in> set (published servers) \<Longrightarrow>
     rt_ok env (rt_serverID rt) (n, rt)"
  by (fastforce simp: set_published server_ok_def rt_ok_def)

section \<open>The acceptance loop\<close>

definition accept_inv ::
  "catalog_env \<Rightarrow> string \<Rightarrow> nat \<Rightarrow> nat \<Rightarrow> server_tools \<times> nat \<times> UnpublishedTool list \<Rightarrow> bool" where
  "accept_inv env sid oc ob st \<longleftrightarrow>
     (case st of (new, bytes, unpub) \<Rightarrow>
        wf_map new \<and> length new \<le> MaxToolsPerServer \<and>
        (new \<noteq> [] \<longrightarrow> oc + length new \<le> MaxTotalTools \<and> ob + bytes \<le> MaxCatalogJSONBytes) \<and>
        bytes = total_size new \<and> (\<forall>p \<in> set new. rt_ok env sid p))"

text \<open>What the allocation of names gives the loop for a candidate and its tool.\<close>

definition cand_ok :: "catalog_env \<Rightarrow> string \<Rightarrow> ToolNameCandidate \<times> tool \<Rightarrow> bool" where
  "cand_ok env sid p \<longleftrightarrow>
     cand_OriginalName (fst p) = tool_Name (snd p) \<and>
     (cand_Err (fst p) = None \<longrightarrow>
        IsValidPublicToolName (cand_PublicName (fst p)) \<and>
        cand_PublicName (fst p) =
          fst (ResolveCandidateName (env_sha256_hex env) sid (tool_Name (snd p))))"

text \<open>An iteration either publishes one more tool under its candidate name or records it.\<close>

lemma accept_candidate_cases:
  assumes "cand_ok env sid (cand, raw)"
    and "cand_Err cand = None \<longrightarrow> cand_PublicName cand \<notin> fst ` set new"
  obtains (rejected) r where
      "accept_candidate env sid oc ob cand raw (new, bytes, unpub) =
         (new, bytes, unpub @ [unpublished_tool sid (tool_Name raw) (cand_PublicName cand) r])"
  | (accepted) rt where
      "accept_candidate env sid oc ob cand raw (new, bytes, unpub) =
         (new @ [(cand_PublicName cand, rt)], bytes + rt_size rt, unpub)"
      and "cand_Err cand = None" and "rt_originalName rt = tool_Name raw"
      and "rt_ok env sid (cand_PublicName cand, rt)"
      and "length new < MaxToolsPerServer" and "oc + length new < MaxTotalTools"
      and "ob + bytes + rt_size rt \<le> MaxCatalogJSONBytes"
proof (cases "cand_Err cand")
  case (Some e)
  with assms(1) show ?thesis
    by (intro rejected [of "ReasonError e"]) (simp add: accept_candidate_def cand_ok_def)
next
  case None
  show ?thesis
  proof (cases "CloneAndAssignPublicName env (Some raw) (cand_PublicName cand)")
    case (Inl e)
    with None show ?thesis
      by (intro rejected [of "ReasonError e"]) (simp add: accept_candidate_def)
  next
    case (Inr cs)
    obtain cloned sz where cs: "cs = (cloned, sz)" by (cases cs)
    note clone = CloneAndAssign_Inr [OF Inr [unfolded cs]]
    then obtain enc where enc: "env_marshal env cloned = Inr enc" "sz = length enc" by blast
    let ?rt = "\<lparr>rt_tool = cloned, rt_serverID = sid, rt_originalName = tool_Name raw,
      rt_publicName = cand_PublicName cand, rt_jsonBytes = enc, rt_size = sz\<rparr>"
    have eq: "accept_candidate env sid oc ob cand raw (new, bytes, unpub) =
      (let rej = (\<lambda>r. (new, bytes, unpub @ [unpublished_tool sid (tool_Name raw) (cand_PublicName cand) r]))
       in if length new \<ge> MaxToolsPerServer then rej ReasonPerServerLimit
          else if oc + length new \<ge> MaxTotalTools then rej ReasonTotalLimit
          else if ob + bytes + sz > MaxCatalogJSONBytes then rej ReasonTotalSizeLimit
          else (new @ [(cand_PublicName cand, ?rt)], bytes + sz, unpub))"
      using None Inr cs enc assms(2) by (simp add: accept_candidate_def Let_def mput_fresh)
    show ?thesis
    proof (cases "length new < MaxToolsPerServer \<and> oc + length new < MaxTotalTools \<and>
        ob + bytes + sz \<le> MaxCatalogJSONBytes")
      case True
      with eq None clone enc assms(1) show ?thesis
        by (intro accepted [of ?rt]) (auto simp: rt_ok_def cand_ok_def)
    next
      case False
      then show ?thesis
        using eq by (auto simp: Let_def not_less split: if_splits intro: rejected)
    qed
  qed
qed

lemma accept_candidate_inv:
  assumes "accept_inv env sid oc ob st" and "cand_ok env sid (cand, raw)"
    and "cand_Err cand = None \<longrightarrow> cand_PublicName cand \<notin> fst ` set (fst st)"
  shows "accept_inv env sid oc ob (accept_candidate env sid oc ob cand raw st)"
proof -
  obtain new bytes unpub where st: "st = (new, bytes, unpub)" by (cases st)
  have fr: "cand_Err cand = None \<longrightarrow> cand_PublicName cand \<notin> fst ` set new"
    using assms(3) st by simp
  show ?thesis
    using assms(1) fr unfolding st
    by (cases rule: accept_candidate_cases [OF assms(2) fr, where oc = oc and ob = ob
          and bytes = bytes and unpub = unpub])
      (auto simp: accept_inv_def)
qed

text \<open>The original names that a state of the loop accounts for, published or not.\<close>

abbreviation accounted :: "server_tools \<times> nat \<times> UnpublishedTool list \<Rightarrow> string multiset" where
  "accounted st \<equiv> mset (map (\<lambda>p. rt_originalName (snd p)) (fst st)) +
     mset (map up_OriginalName (snd (snd st)))"

lemma accept_candidate_step:
  fixes env sid oc ob cand raw st
  defines "st' \<equiv> accept_candidate env sid oc ob cand raw st"
  assumes inv: "accept_inv env sid oc ob st" and cok: "cand_ok env sid (cand, raw)"
    and d: "distinct (accepted_names (cand # cs))"
    and dj: "fst ` set (fst st) \<inter> set (accepted_names (cand # cs)) = {}"
  shows "accept_inv env sid oc ob st'"
    and "fst ` set (fst st') \<inter> set (accepted_names cs) = {}"
    and "fst ` set (fst st') \<subseteq> fst ` set (fst st) \<union> set (accepted_names (cand # cs))"
    and "accounted st' = accounted st + {#tool_Name raw#}"
proof -
  obtain new bytes unpub where st: "st = (new, bytes, unpub)" by (cases st)
  have fr: "cand_Err cand = None \<longrightarrow> cand_PublicName cand \<notin> fst ` set new"
    using dj by (auto simp: st)
  have dj': "fst ` set new \<inter> set (accepted_names cs) = {}"
    using dj by (auto simp: st split: if_splits)
  show "accept_inv env sid oc ob st'"
    unfolding st'_def by (rule accept_candidate_inv [OF inv cok]) (use fr st in simp)
  note cases = accept_candidate_cases [OF cok fr, where oc = oc and ob = ob
      and bytes = bytes and unpub = unpub]
  show "fst ` set (fst st') \<inter> set (accepted_names cs) = {}"
    using d dj' unfolding st'_def st by (cases rule: cases) auto
  show "fst ` set (fst st') \<subseteq> fst ` set (fst st) \<union> set (accepted_names (cand # cs))"
    unfolding st'_def st by (cases rule: cases) auto
  show "accounted st' = accounted st + {#tool_Name raw#}"
    unfolding st'_def st by (cases rule: cases) (auto simp: unpublished_tool_def)
qed

lemma accept_loop_inv:
  assumes "accept_inv env sid oc ob st" and "\<forall>p \<in> set ps. cand_ok env sid p"
    and "distinct (accepted_names (map fst ps))"
    and "fst ` set (fst st) \<inter> set (accepted_names (map fst ps)) = {}"
  shows "accept_inv env sid oc ob (accept_loop env sid oc ob ps st) \<and>
    fst ` set (fst (accept_loop env sid oc ob ps st)) \<subseteq>
      fst ` set (fst st) \<union> set (accepted_names (map fst ps)) \<and>
    accounted (accept_loop env sid oc ob ps st) = accounted st + mset (map (\<lambda>p. tool_Name (snd p)) ps)"
  using assms
proof (induction ps arbitrary: st)
  case Nil
  then show ?case by simp
next
  case (Cons p ps)
  obtain cand raw where p: "p = (cand, raw)" by (cases p)
  let ?st' = "accept_candidate env sid oc ob cand raw st"
  have cok: "cand_ok env sid (cand, raw)" and rest: "\<forall>q \<in> set ps. cand_ok env sid q"
    using Cons.prems(2) p by simp_all
  have d: "distinct (accepted_names (cand # map fst ps))"
    and dj: "fst ` set (fst st) \<inter> set (accepted_names (cand # map fst ps)) = {}"
    using Cons.prems(3,4) by (simp_all only: p list.map fst_conv)
  note step = accept_candidate_step [OF Cons.prems(1) cok d dj]
  have d': "distinct (accepted_names (map fst ps))" using d by (simp split: if_splits)
  note IH = Cons.IH [OF step(1) rest d' step(2)]
  have "set (accepted_names (map fst ps)) \<subseteq> set (accepted_names (cand # map fst ps))" by auto
  with step(3) IH have "fst ` set (fst (accept_loop env sid oc ob ps ?st')) \<subseteq>
      fst ` set (fst st) \<union> set (accepted_names (cand # map fst ps))"
    by blast
  moreover have "accounted (accept_loop env sid oc ob ps ?st') =
      accounted st + mset (map (\<lambda>p. tool_Name (snd p)) (p # ps))"
    using IH step(4) by (simp add: p)
  ultimately show ?case using IH unfolding p by simp
qed

section \<open>The new table of a server\<close>

lemma claimed_others: "fst ` set (fold (\<lambda>p m. mput (fst p) True m) ps m) = fst ` set m \<union> fst ` set ps"
  by (induction ps arbitrary: m) (auto simp: AList.dom_update)

lemma compute_server_tools_props:
  assumes sha: "sha256_hex_ok (env_sha256_hex env)" and sid: "serverIDRegex sid"
    and compute: "compute_server_tools env servers sid en dis = (new, unpub)"
  shows "accept_inv env sid (length (other_tools servers sid)) (total_size (other_tools servers sid))
           (new, total_size new, unpub)"
    and "fst ` set new \<inter> fst ` set (other_tools servers sid) = {}"
    and "mset (map (\<lambda>p. rt_originalName (snd p)) new) + mset (map up_OriginalName unpub) =
           mset (map tool_Name en) + mset (map tool_Name dis)"
proof -
  let ?others = "other_tools servers sid"
  let ?claimed = "fold (\<lambda>p m. mput (fst p) True m) ?others []"
  let ?cands = "ResolveNamesWithPriority (env_sha256_hex env) sid (map tool_Name en) ?claimed"
  let ?ps = "zip ?cands en"
  let ?st = "([], 0, map (\<lambda>d. unpublished_tool sid (tool_Name d) [] ReasonDisabled) dis)"
  let ?loop = "accept_loop env sid (length ?others) (total_size ?others) ?ps ?st"
  have len: "length ?cands = length en" by (simp add: resolve_names_eq_map)
  then have fsts: "map fst ?ps = ?cands" and snds: "map snd ?ps = en" by simp_all
  have ok: "cand_ok env sid p" if "p \<in> set ?ps" for p
  proof -
    from that obtain i where i: "i < length en" and p: "p = (?cands ! i, en ! i)"
      using len by (auto simp: in_set_zip)
    have c: "?cands ! i = name_decision (env_sha256_hex env) sid (map tool_Name en)
        (set (mkeys ?claimed)) i"
      using i by (simp add: resolve_names_nth)
    moreover have "IsValidPublicToolName (cand_PublicName (?cands ! i))" if "cand_Err (?cands ! i) = None"
      using that i len by (intro accepted_names_valid(1) [OF sha sid, of _ "map tool_Name en" ?claimed])
        (auto simp: accepted_names_def)
    ultimately show ?thesis
      using i by (auto simp: cand_ok_def p name_decision_fields dest!: name_decision_accepted(2))
  qed
  have loop: "accept_inv env sid (length ?others) (total_size ?others) ?loop \<and>
      fst ` set (fst ?loop) \<subseteq> set (accepted_names ?cands) \<and>
      accounted ?loop = accounted ?st + mset (map (\<lambda>p. tool_Name (snd p)) ?ps)"
    using accept_loop_inv [of env sid "length ?others" "total_size ?others" ?st ?ps] ok
      accepted_names_distinct [of "env_sha256_hex env" sid "map tool_Name en" ?claimed]
    by (simp add: fsts accept_inv_def)
  obtain bytes where l: "?loop = (new, bytes, unpub)"
    using compute by (auto simp: compute_server_tools_def Let_def split: prod.splits)
  then show "accept_inv env sid (length ?others) (total_size ?others) (new, total_size new, unpub)"
    using loop by (auto simp: accept_inv_def)
  have "fst ` set (fst ?loop) \<inter> fst ` set ?others = {}"
  proof (intro equals0I)
    fix n
    assume n: "n \<in> fst ` set (fst ?loop) \<inter> fst ` set ?others"
    then have "n \<in> set (accepted_names ?cands)" using loop by (meson IntD1 subsetD)
    from accepted_names_valid(2) [OF sha sid this] n show False by (simp add: claimed_others)
  qed
  then show "fst ` set new \<inter> fst ` set ?others = {}" by (simp only: l fst_conv)
  have "map (\<lambda>p. tool_Name (snd p)) ?ps = map tool_Name en"
    using snds by (metis (no_types, lifting) comp_apply list.map_comp map_eq_conv)
  then have "accounted ?loop = mset (map tool_Name dis) + mset (map tool_Name en)"
    using loop by (simp add: unpublished_tool_def comp_def)
  then show "mset (map (\<lambda>p. rt_originalName (snd p)) new) + mset (map up_OriginalName unpub) =
           mset (map tool_Name en) + mset (map tool_Name dis)"
    by (simp only: l fst_conv snd_conv union_commute)
qed

lemma tables_ok_mput:
  assumes ok: "tables_ok env servers" and sid: "serverIDRegex sid"
    and inv: "accept_inv env sid (length (other_tools servers sid))
                (total_size (other_tools servers sid)) (new, total_size new, unpub)"
    and dj: "fst ` set new \<inter> fst ` set (other_tools servers sid) = {}"
  shows "tables_ok env (mput sid new servers)"
proof -
  have wf: "wf_map servers" using ok by (simp add: tables_ok_def)
  note new = mset_tables [OF mset_published_mput [OF wf, of sid new]]
    and old = mset_tables [OF mset_published_mdel [OF wf, of sid]]
  have "wf_map (other_tools servers sid @ mget_or [] servers sid)"
    using ok old(1) by (simp add: tables_ok_def)
  then have "wf_map (published (mput sid new servers))"
    using inv dj by (auto simp: new(1) accept_inv_def)
  moreover have "length (published (mput sid new servers)) \<le> MaxTotalTools"
    and "total_size (published (mput sid new servers)) \<le> MaxCatalogJSONBytes"
    using ok inv old(2,3) new(2,3) by (cases "new = []"; simp add: tables_ok_def accept_inv_def)+
  moreover have "\<forall>s \<in> set (mput sid new servers). server_ok env s"
    using ok inv sid wf
    by (auto simp: tables_ok_def accept_inv_def in_mput_iff server_ok_def)
  ultimately show ?thesis using wf by (simp add: tables_ok_def)
qed

lemma tables_ok_mdel:
  assumes ok: "tables_ok env servers"
  shows "tables_ok env (mdel sid servers)"
proof -
  have wf: "wf_map servers" using ok by (simp add: tables_ok_def)
  note old = mset_tables [OF mset_published_mdel [OF wf, of sid]]
  show ?thesis
    using ok old by (auto simp: tables_ok_def other_tools_mdel in_mdel_iff)
qed

section \<open>The operations keep the invariant\<close>

lemma cat_wf_NewCatalog: "cat_wf env NewCatalog"
  by (simp add: cat_wf_def tables_ok_def NewCatalog_def build_snapshot_def Let_def)

lemma UpdateServerTools_cases:
  assumes "UpdateServerTools env c sid raw disabled = Some ((toAdd, toRemove, snap, err), c')"
  obtains (invalid) "ValidateServerID sid = err" "err \<noteq> None" "c' = c" "snap = cat_snapshot c"
      "toAdd = []" "toRemove = []"
  | (valid) en dis new unpub where "serverIDRegex sid" "err = None" "snap = cat_snapshot c'"
      "FilterDisabledTools raw disabled = (map Some en, dis)"
      "compute_server_tools env (cat_servers c) sid en (map the dis) = (new, unpub)"
      "toRemove = tools_to_remove (mget_or [] (cat_servers c) sid) new"
      "toAdd = tools_to_add (mget_or [] (cat_servers c) sid) new"
      "c' = c \<and> toAdd = [] \<and> toRemove = [] \<and> mget_or [] (cat_unpublished c) sid = unpub \<or>
       c' = rebuildSnapshot (c\<lparr>cat_servers := mput sid new (cat_servers c),
              cat_unpublished := mput sid unpub (cat_unpublished c),
              cat_revision := cat_revision c + 1\<rparr>)"
proof (cases "ValidateServerID sid")
  case (Some e)
  with assms have "err = Some e" "c' = c" "snap = cat_snapshot c" "toAdd = []" "toRemove = []"
    by (auto simp: UpdateServerTools_def)
  with Some show ?thesis by (intro invalid) auto
next
  case None
  then have sid: "serverIDRegex sid" by (simp add: ValidateServerID_def split: if_splits)
  obtain en' dis where f: "FilterDisabledTools raw disabled = (en', dis)" by fastforce
  with assms None have nn: "None \<notin> set en'"
    by (auto simp: UpdateServerTools_def split: if_splits)
  then have en: "en' = map Some (map the en')"
    by (induction en') auto
  obtain new unpub where comp:
    "compute_server_tools env (cat_servers c) sid (map the en') (map the dis) = (new, unpub)"
    by fastforce
  show ?thesis
    using assms None f nn comp sid en
    by (intro valid [of "map the en'" dis new unpub])
      (auto simp: UpdateServerTools_def Let_def split: if_splits)
qed

lemma cat_wf_rebuild:
  assumes "tables_ok env (cat_servers c)" and "wf_map (cat_unpublished c)"
  shows "cat_wf env (rebuildSnapshot c)"
  using assms by (simp add: cat_wf_def rebuildSnapshot_def)

lemma cat_wf_UpdateServerTools:
  assumes wf: "cat_wf env c" and sha: "sha256_hex_ok (env_sha256_hex env)"
    and upd: "UpdateServerTools env c sid raw disabled = Some (r, c')"
  shows "cat_wf env c'"
proof -
  obtain toAdd toRemove snap err where r: "r = (toAdd, toRemove, snap, err)" by (cases r)
  show ?thesis
  proof (cases rule: UpdateServerTools_cases [OF upd [unfolded r]])
    case 1
    with wf show ?thesis by simp
  next
    case (2 en dis new unpub)
    note new = compute_server_tools_props [OF sha 2(1) 2(5)]
    have "tables_ok env (mput sid new (cat_servers c))"
      using wf 2(1) new(1,2) by (intro tables_ok_mput) (auto simp: cat_wf_def)
    with 2 wf show ?thesis by (auto simp: cat_wf_def rebuildSnapshot_def)
  qed
qed

lemma cat_wf_RemoveServer:
  "cat_wf env c \<Longrightarrow> cat_wf env (snd (RemoveServer c sid))"
  by (auto simp: RemoveServer_def Let_def cat_wf_def tables_ok_mdel rebuildSnapshot_def)

end
