(* ===== verification/Catalog_Lookup.thy ===== *)
theory Catalog_Lookup
  imports Catalog_Invariants
begin

text \<open>
  What a snapshot answers: the binary search of \<open>GetTool\<close> finds exactly the published tools,
  \<open>LookupRoute\<close> gives the server and the original name of a published name, and neither depends on
  the order in which the Go maps were visited. On top of that, the contract of the differences
  \<open>UpdateServerTools\<close> and \<open>RemoveServer\<close> return.
\<close>

section \<open>Binary search\<close>

lemma sort_search_bounds: "lo \<le> hi \<Longrightarrow> lo \<le> sort_search lo hi f \<and> sort_search lo hi f \<le> hi"
proof (induction lo hi f rule: sort_search.induct)
  case (1 lo hi f)
  show ?case
  proof (cases "lo < hi")
    case True
    let ?h = "(lo + hi) div 2"
    have h: "lo \<le> ?h" "?h < hi" using True by auto
    have "sort_search lo hi f = (if f ?h then sort_search lo ?h f else sort_search (?h + 1) hi f)"
      using True by (subst sort_search.simps) (simp add: Let_def)
    with 1(1) [OF True refl] 1(2) [OF True refl] h show ?thesis by auto
  next
    case False
    then have "sort_search lo hi f = lo" by (subst sort_search.simps) simp
    with 1(3) show ?thesis by simp
  qed
qed

lemma sort_search_correct:
  assumes "\<And>i j. lo \<le> i \<Longrightarrow> i \<le> j \<Longrightarrow> j < hi \<Longrightarrow> f i \<Longrightarrow> f j" and "lo \<le> hi"
  shows "\<forall>i. lo \<le> i \<and> i < hi \<longrightarrow> (f i \<longleftrightarrow> sort_search lo hi f \<le> i)"
  using assms
proof (induction lo hi f rule: sort_search.induct)
  case (1 lo hi f)
  show ?case
  proof (cases "lo < hi")
    case False
    then show ?thesis by auto
  next
    case True
    let ?h = "(lo + hi) div 2"
    have h: "lo \<le> ?h" "?h < hi" using True by auto
    show ?thesis
    proof (cases "f ?h")
      case fh: True
      have "sort_search lo hi f = sort_search lo ?h f"
        using True fh by (subst sort_search.simps) (simp add: Let_def)
      moreover have "\<forall>i. lo \<le> i \<and> i < ?h \<longrightarrow> (f i \<longleftrightarrow> sort_search lo ?h f \<le> i)"
      proof (rule 1(2) [OF True refl])
        show "f j" if "lo \<le> i" "i \<le> j" "j < ?h" "f i" for i j
          using 1(3) [of i j] that h by simp
      qed (use fh h in simp_all)
      moreover have "f i \<and> sort_search lo ?h f \<le> i" if "?h \<le> i" "i < hi" for i
        using 1(3) [of ?h i] that fh h sort_search_bounds [of lo ?h f] by auto
      ultimately show ?thesis by (metis not_le_imp_less)
    next
      case fh: False
      have "sort_search lo hi f = sort_search (?h + 1) hi f"
        using True fh by (subst sort_search.simps) (simp add: Let_def)
      moreover have "\<forall>i. ?h + 1 \<le> i \<and> i < hi \<longrightarrow> (f i \<longleftrightarrow> sort_search (?h + 1) hi f \<le> i)"
      proof (rule 1(1) [OF True refl])
        show "f j" if "?h + 1 \<le> i" "i \<le> j" "j < hi" "f i" for i j
          using 1(3) [of i j] that h by simp
      qed (use fh h in simp_all)
      moreover have "\<not> f i \<and> \<not> sort_search (?h + 1) hi f \<le> i" if "lo \<le> i" "i < ?h + 1" for i
        using 1(3) [of i ?h] that fh h sort_search_bounds [of "?h + 1" hi f] by auto
      ultimately show ?thesis by (metis not_le_imp_less)
    qed
  qed
qed

text \<open>On a list with strictly increasing names the search is a lookup.\<close>

lemma GetTool_sorted:
  assumes "sorted_wrt (<) (map tool_Name (snap_Tools s))"
  shows "GetTool s n = Some t \<longleftrightarrow> t \<in> set (snap_Tools s) \<and> tool_Name t = n"
proof -
  let ?ts = "snap_Tools s"
  let ?f = "\<lambda>i. tool_Name (?ts ! i) \<ge> n"
  let ?k = "sort_search 0 (length ?ts) ?f"
  have sorted: "tool_Name (?ts ! i) < tool_Name (?ts ! j)" if "i < j" "j < length ?ts" for i j
    using assms that by (auto simp: sorted_wrt_iff_nth_less)
  have mono: "?f j" if "i \<le> j" "j < length ?ts" "?f i" for i j
    using sorted [of i j] that by (cases "i = j") auto
  have k: "?f i \<longleftrightarrow> ?k \<le> i" if "i < length ?ts" for i
    using sort_search_correct [of 0 "length ?ts" ?f] mono that by auto
  have "?k = i" if i: "i < length ?ts" and "tool_Name (?ts ! i) = n" for i
  proof -
    have "?k \<le> i" using k [OF i] that by simp
    moreover have "\<not> ?k < i"
    proof
      assume "?k < i"
      then have "tool_Name (?ts ! ?k) < n" using sorted [of ?k i] that by simp
      moreover have "?f ?k" using k [of ?k] \<open>?k < i\<close> i by simp
      ultimately show False by simp
    qed
    ultimately show ?thesis by simp
  qed
  note found = this
  have "GetTool s n = Some t" if "t \<in> set ?ts" "tool_Name t = n"
  proof -
    from that obtain i where i: "i < length ?ts" "t = ?ts ! i" by (auto simp: in_set_conv_nth)
    with that found have "?k = i" by simp
    with i that show ?thesis by (simp add: GetTool_def Let_def)
  qed
  then show ?thesis
    by (auto simp: GetTool_def Let_def split: if_splits)
qed

section \<open>The snapshot of well-formed tables\<close>

lemma snap_fields [simp]:
  "snap_Revision (build_snapshot r sv up) = r"
  "snap_Tools (build_snapshot r sv up) = sort_key tool_Name (map (rt_tool \<circ> snd) (published sv))"
  "snap_Routes (build_snapshot r sv up) = collect_routes sv []"
  "snap_TotalCatalogBytes (build_snapshot r sv up) = total_size (published sv)"
  by (simp_all add: build_snapshot_def Let_def)

lemma published_names:
  assumes "tables_ok env sv"
  shows "map tool_Name (map (rt_tool \<circ> snd) (published sv)) = mkeys (published sv)"
proof -
  have "rt_ok env (rt_serverID (snd p)) p" if "p \<in> set (published sv)" for p
    using assms that server_ok_published [of sv env "fst p" "snd p"] by (simp add: tables_ok_def)
  then show ?thesis by (auto simp: rt_ok_def split_def)
qed

lemma snap_Tools_sorted:
  assumes "tables_ok env sv"
  shows "sorted_wrt (<) (map tool_Name (snap_Tools (build_snapshot r sv up)))"
proof -
  let ?ts = "map (rt_tool \<circ> snd) (published sv)"
  have "distinct (map tool_Name ?ts)"
    using assms by (simp only: published_names [OF assms]) (simp add: tables_ok_def)
  then have "distinct (map tool_Name (sort_key tool_Name ?ts))" by (rule sort_key_distinct_sorted)
  then show ?thesis by (simp only: snap_fields) (simp add: strict_sorted_iff)
qed

lemma GetTool_build:
  assumes "tables_ok env sv"
  shows "GetTool (build_snapshot r sv up) n = map_option rt_tool (map_of (published sv) n)"
proof -
  have wf: "wf_map (published sv)" using assms by (simp add: tables_ok_def)
  have "GetTool (build_snapshot r sv up) n = Some t \<longleftrightarrow>
      map_option rt_tool (map_of (published sv) n) = Some t" for t
  proof -
    have nm: "tool_Name (rt_tool (snd p)) = fst p" if "p \<in> set (published sv)" for p
      using published_names [OF assms] that by (auto simp: map_eq_conv)
    have "GetTool (build_snapshot r sv up) n = Some t \<longleftrightarrow>
        (\<exists>p \<in> set (published sv). t = rt_tool (snd p) \<and> fst p = n)"
      using nm by (subst GetTool_sorted [OF snap_Tools_sorted [OF assms]]) auto
    also have "\<dots> \<longleftrightarrow> map_option rt_tool (map_of (published sv) n) = Some t"
      using wf by (auto simp: wf_map_get intro: rev_bexI)
    finally show ?thesis .
  qed
  then show ?thesis by (metis not_Some_eq)
qed

definition route_entries :: "(string, server_tools) gomap \<Rightarrow> (string \<times> RouteEntry) list" where
  "route_entries sv = concat (map (\<lambda>(sid, m). map (\<lambda>(n, rt). (n, route_of sid n rt)) m) sv)"

lemma route_entries_simps [simp]:
  "route_entries [] = []"
  "route_entries ((sid, m) # sv) = map (\<lambda>(n, rt). (n, route_of sid n rt)) m @ route_entries sv"
  by (simp_all add: route_entries_def)

lemma route_entries_keys [simp]: "mkeys (route_entries sv) = mkeys (published sv)"
  by (induction sv) (auto simp: split_def)

lemma add_routes_append:
  "distinct (mkeys routes @ mkeys m) \<Longrightarrow>
   add_routes sid m routes = routes @ map (\<lambda>(n, rt). (n, route_of sid n rt)) m"
  by (induction sid m routes rule: add_routes.induct) (auto simp: mput_fresh image_iff)

lemma collect_routes_append:
  "distinct (mkeys routes @ mkeys (published sv)) \<Longrightarrow>
   collect_routes sv routes = routes @ route_entries sv"
proof (induction sv routes rule: collect_routes.induct)
  case (1 routes)
  then show ?case by simp
next
  case (2 sid m sv routes)
  let ?m = "map (\<lambda>(n, rt). (n, route_of sid n rt)) m"
  have ks: "mkeys ?m = mkeys m" by (simp add: split_def)
  have "add_routes sid m routes = routes @ ?m"
    using "2.prems" by (intro add_routes_append) auto
  moreover have "distinct (mkeys (routes @ ?m) @ mkeys (published sv))"
    using "2.prems" by (simp only: map_append ks published_simps snd_conv append_assoc)
  ultimately show ?case using "2.IH" by simp
qed

lemma LookupRoute_build:
  assumes "tables_ok env sv"
  shows "LookupRoute (build_snapshot r sv up) n =
    map_option (\<lambda>rt. route_of (rt_serverID rt) n rt) (map_of (published sv) n)"
proof -
  have "collect_routes sv [] = route_entries sv"
    using assms collect_routes_append [of "[]" sv] by (simp add: tables_ok_def)
  moreover have "route_entries sv =
      map (\<lambda>(n, rt). (n, route_of (rt_serverID rt) n rt)) (published sv)"
  proof -
    have "\<forall>s \<in> set sv. \<forall>p \<in> set (snd s). rt_serverID (snd p) = fst s"
      using assms by (fastforce simp: tables_ok_def server_ok_def rt_ok_def)
    then show ?thesis by (induction sv) (auto simp: split_def)
  qed
  ultimately show ?thesis by (simp add: LookupRoute_def mget_map_values)
qed

lemma PublishedCount_build:
  "PublishedCount (build_snapshot r sv up) sid = length (mget_or [] sv sid)"
  by (auto simp: PublishedCount_def build_snapshot_def Let_def mget_or_def mget_map_values
      split: option.splits)

lemma UnpublishedCount_build:
  "UnpublishedCount (build_snapshot r sv up) sid = length (mget_or [] up sid)"
  by (auto simp: UnpublishedCount_def build_snapshot_def Let_def mget_or_def mget_map_values
      split: option.splits)

lemma ServerToolNames_build:
  "ServerToolNames (build_snapshot r sv up) sid = sort (mkeys (mget_or [] sv sid))"
  by (auto simp: ServerToolNames_def build_snapshot_def Let_def mget_or_def mget_map_values
      split: option.splits)

lemma tables_ok_get:
  assumes "tables_ok env sv" and "map_of sv sid = Some m"
  shows "server_ok env (sid, m)"
  using assms by (auto simp: tables_ok_def)

lemma PublishedCount_bound:
  "tables_ok env sv \<Longrightarrow> PublishedCount (build_snapshot r sv up) sid \<le> MaxToolsPerServer"
  by (auto simp: PublishedCount_build mget_or_def server_ok_def split: option.splits
      dest: tables_ok_get)

lemma published_entry:
  assumes "tables_ok env sv" and "map_of (published sv) n = Some rt"
  shows "serverIDRegex (rt_serverID rt)" and "rt_ok env (rt_serverID rt) (n, rt)"
    and "n \<in> set (mkeys (mget_or [] sv (rt_serverID rt)))"
proof -
  from assms(2) have "(n, rt) \<in> set (published sv)" by (rule map_of_SomeD)
  then obtain sid m where s: "(sid, m) \<in> set sv" "(n, rt) \<in> set m"
    by (auto simp: set_published)
  with assms(1) have "server_ok env (sid, m)" and get: "map_of sv sid = Some m"
    by (auto simp: tables_ok_def)
  moreover from this s have sid: "rt_serverID rt = sid"
    by (force simp: server_ok_def rt_ok_def)
  ultimately show "serverIDRegex (rt_serverID rt)" and "rt_ok env (rt_serverID rt) (n, rt)"
    using s by (auto simp: server_ok_def)
  show "n \<in> set (mkeys (mget_or [] sv (rt_serverID rt)))"
    using s get sid by (force simp: mget_or_def)
qed

lemma total_size_cong:
  assumes "distinct xs" and "distinct ys" and "set xs = set ys"
  shows "total_size xs = total_size ys"
  using assms by (simp add: sum_list_distinct_conv_sum_set)

section \<open>Reachable catalogs\<close>

inductive cat_reachable :: "catalog_env \<Rightarrow> Catalog \<Rightarrow> bool" for env where
  new: "cat_reachable env NewCatalog"
| update: "cat_reachable env c \<Longrightarrow> UpdateServerTools env c sid raw disabled = Some (r, c') \<Longrightarrow>
    cat_reachable env c'"
| remove: "cat_reachable env c \<Longrightarrow> RemoveServer c sid = (r, c') \<Longrightarrow> cat_reachable env c'"

lemma cat_reachable_wf:
  assumes "cat_reachable env c" and "sha256_hex_ok (env_sha256_hex env)"
  shows "cat_wf env c"
  using assms
proof (induction rule: cat_reachable.induct)
  case new
  then show ?case by (simp add: cat_wf_NewCatalog)
next
  case (update c sid raw disabled r c')
  then show ?case by (blast intro: cat_wf_UpdateServerTools)
next
  case (remove c sid r c')
  then show ?case using cat_wf_RemoveServer [of env c sid] by simp
qed

section \<open>Differences\<close>

text \<open>What clients of the MCP server see: the definition published under a name, as encoded.\<close>

definition catalog_view :: "catalog_env \<Rightarrow> Catalog \<Rightarrow> string \<Rightarrow> (string + string) option" where
  "catalog_view env c n = map_option (env_marshal env) (GetTool (cat_snapshot c) n)"

text \<open>Removing and then adding tools, each addition replacing what its name had before.\<close>

definition apply_delta ::
  "catalog_env \<Rightarrow> tool list \<Rightarrow> string list \<Rightarrow> (string \<rightharpoonup> string + string) \<Rightarrow>
   (string \<rightharpoonup> string + string)" where
  "apply_delta env toAdd toRemove m =
     fold (\<lambda>t m. m(tool_Name t \<mapsto> env_marshal env t)) toAdd (m |` (- set toRemove))"

lemma fold_add_other:
  "n \<notin> tool_Name ` set ts \<Longrightarrow> fold (\<lambda>t m. m(tool_Name t \<mapsto> g t)) ts m n = m n"
  by (induction ts arbitrary: m) auto

lemma fold_add_member:
  "distinct (map tool_Name ts) \<Longrightarrow> t \<in> set ts \<Longrightarrow>
   fold (\<lambda>t m. m(tool_Name t \<mapsto> g t)) ts m (tool_Name t) = Some (g t)"
  by (induction ts arbitrary: m) (auto simp: fold_add_other)

lemma apply_delta_nth:
  assumes "distinct (map tool_Name toAdd)"
  shows "apply_delta env toAdd toRemove m n =
    (if \<exists>t \<in> set toAdd. tool_Name t = n
     then Some (env_marshal env (THE t. t \<in> set toAdd \<and> tool_Name t = n))
     else if n \<in> set toRemove then None else m n)"
proof (cases "\<exists>t \<in> set toAdd. tool_Name t = n")
  case True
  then obtain t where t: "t \<in> set toAdd" "tool_Name t = n" by blast
  with assms have "(THE t. t \<in> set toAdd \<and> tool_Name t = n) = t"
    by (intro the_equality) (auto simp: distinct_map dest: inj_onD)
  with t fold_add_member [OF assms t(1), of "env_marshal env"] show ?thesis
    by (auto simp: apply_delta_def)
next
  case False
  then have "n \<notin> tool_Name ` set toAdd" by auto
  then show ?thesis using False by (simp add: apply_delta_def fold_add_other restrict_map_def)
qed

lemma published_mput_get:
  assumes wf: "wf_map sv" "wf_map (published sv)" "wf_map (published (mput sid new sv))"
  shows "map_of (published (mput sid new sv)) n =
    (case map_of new n of Some rt \<Rightarrow> Some rt
     | None \<Rightarrow> if n \<in> fst ` set (mget_or [] sv sid) then None else map_of (published sv) n)"
proof -
  note new = mset_tables [OF mset_published_mput [OF wf(1), of sid new]]
    and old = mset_tables [OF mset_published_mdel [OF wf(1), of sid]]
  let ?o = "other_tools sv sid"
  have wfo: "wf_map (?o @ mget_or [] sv sid)" and wfn: "wf_map (?o @ new)"
    using wf new(1) old(1) by simp_all
  have n: "map_of (published (mput sid new sv)) n = map_of (?o @ new) n"
    using map_of_inject_set [OF wf(3) wfn] new(4) by simp
  have o: "map_of (published sv) n = map_of (?o @ mget_or [] sv sid) n"
    using map_of_inject_set [OF wf(2) wfo] old(4) by simp
  have disj: "map_of ?o n = None" if "map_of m n = Some rt" "wf_map (?o @ m)" for m rt
    using that by (force simp: map_of_eq_None_iff dest: map_of_SomeD)
  show ?thesis
  proof (cases "map_of new n")
    case None
    show ?thesis
    proof (cases "map_of (mget_or [] sv sid) n")
      case old: None
      then have "n \<notin> fst ` set (mget_or [] sv sid)" by (simp add: map_of_eq_None_iff)
      with None old show ?thesis by (simp add: n o map_add_def split: option.split)
    next
      case old: (Some rt)
      then have "n \<in> fst ` set (mget_or [] sv sid)" by (force dest: map_of_SomeD)
      with None disj [OF old wfo] show ?thesis by (simp add: n map_add_def)
    qed
  next
    case (Some rt)
    with disj [OF Some wfn] show ?thesis by (simp add: n map_add_def)
  qed
qed

lemma wf_map_server:
  assumes "wf_map (published sv)"
  shows "wf_map (mget_or [] sv sid)"
proof (cases "map_of sv sid")
  case None
  then show ?thesis by (simp add: mget_or_def)
next
  case (Some m)
  then have "m \<in> set (map snd sv)" by (force dest: map_of_SomeD)
  then have "distinct (map fst (concat (map snd sv))) \<longrightarrow> distinct (map fst m)"
    by (auto simp: in_set_conv_decomp)
  with assms Some show ?thesis by (simp add: published_def mget_or_def)
qed

lemma old_table_get:
  assumes ok: "tables_ok env sv" and "map_of (mget_or [] sv sid) n = Some rt"
  shows "map_of (published sv) n = Some rt"
proof -
  have wf: "wf_map sv" "wf_map (published sv)" using ok by (simp_all add: tables_ok_def)
  have "(n, rt) \<in> set (mget_or [] sv sid)" using assms(2) by (rule map_of_SomeD)
  then have "(n, rt) \<in> set (published sv)"
    using mset_tables(4) [OF mset_published_mdel [OF wf(1), of sid]] by simp
  with wf(2) show ?thesis by simp
qed

lemma tools_to_add_names:
  assumes "wf_map new" and "\<forall>p \<in> set new. rt_ok env sid p"
  shows "distinct (map tool_Name (tools_to_add old new))"
    and "t \<in> set (tools_to_add old new) \<longleftrightarrow>
      (\<exists>rt. map_of new (tool_Name t) = Some rt \<and> t = rt_tool rt \<and>
         (case map_of old (tool_Name t) of None \<Rightarrow> True
          | Some ort \<Rightarrow> rt_jsonBytes ort \<noteq> rt_jsonBytes rt))"
proof -
  let ?P = "\<lambda>(n, rt). case map_of old n of None \<Rightarrow> True | Some ort \<Rightarrow> rt_jsonBytes ort \<noteq> rt_jsonBytes rt"
  have nm: "tool_Name (rt_tool (snd p)) = fst p" if "p \<in> set new" for p
    using assms(2) that by (auto simp: rt_ok_def)
  then have "map tool_Name (tools_to_add old new) = map fst (filter ?P new)"
    by (auto simp: tools_to_add_def)
  then show "distinct (map tool_Name (tools_to_add old new))"
    using assms(1) by (simp add: distinct_map_filter)
  have "t \<in> set (tools_to_add old new) \<longleftrightarrow> (\<exists>p \<in> set new. ?P p \<and> t = rt_tool (snd p))"
    by (auto simp: tools_to_add_def)
  also have "\<dots> \<longleftrightarrow> (\<exists>rt. (tool_Name t, rt) \<in> set new \<and> t = rt_tool rt \<and> ?P (tool_Name t, rt))"
  proof (intro iffI; elim bexE exE conjE)
    fix p
    assume "p \<in> set new" "?P p" "t = rt_tool (snd p)"
    with nm [of p] show "\<exists>rt. (tool_Name t, rt) \<in> set new \<and> t = rt_tool rt \<and> ?P (tool_Name t, rt)"
      by (cases p) auto
  next
    fix rt
    assume "(tool_Name t, rt) \<in> set new" "t = rt_tool rt" "?P (tool_Name t, rt)"
    then show "\<exists>p \<in> set new. ?P p \<and> t = rt_tool (snd p)" by (metis snd_conv)
  qed
  finally show "t \<in> set (tools_to_add old new) \<longleftrightarrow>
      (\<exists>rt. map_of new (tool_Name t) = Some rt \<and> t = rt_tool rt \<and>
         (case map_of old (tool_Name t) of None \<Rightarrow> True
          | Some ort \<Rightarrow> rt_jsonBytes ort \<noteq> rt_jsonBytes rt))"
    using assms(1) by simp
qed

lemma view_delta:
  assumes ok: "tables_ok env sv" and new: "tables_ok env (mput sid new sv)"
  shows "map_option (\<lambda>rt. env_marshal env (rt_tool rt)) \<circ> map_of (published (mput sid new sv)) =
    apply_delta env (tools_to_add (mget_or [] sv sid) new) (tools_to_remove (mget_or [] sv sid) new)
      (map_option (\<lambda>rt. env_marshal env (rt_tool rt)) \<circ> map_of (published sv))"
    (is "?lhs = apply_delta env ?add ?rem ?old")
proof
  fix n
  have sok: "server_ok env (sid, new)" using tables_ok_get [OF new] by simp
  have wfn: "wf_map new"
    using wf_map_server [of "mput sid new sv" sid] new by (simp add: tables_ok_def)
  have get: "map_of (published (mput sid new sv)) n =
    (case map_of new n of Some rt \<Rightarrow> Some rt
     | None \<Rightarrow> if n \<in> fst ` set (mget_or [] sv sid) then None else map_of (published sv) n)"
    using ok new by (intro published_mput_get) (simp_all add: tables_ok_def)
  have rts: "\<forall>p \<in> set new. rt_ok env sid p" using sok by (simp add: server_ok_def)
  note add = tools_to_add_names [OF wfn rts, where old = "mget_or [] sv sid"]
  show "?lhs n = apply_delta env ?add ?rem ?old n"
  proof (cases "map_of new n")
    case None
    then have "\<not> (\<exists>t \<in> set ?add. tool_Name t = n)" using add(2) by auto
    moreover have "n \<notin> fst ` set new" using None by (simp add: map_of_eq_None_iff)
    moreover have "map_of (published (mput sid new sv)) n =
        (if n \<in> fst ` set (mget_or [] sv sid) then None else map_of (published sv) n)"
      using get None by simp
    ultimately show ?thesis
      by (simp add: apply_delta_nth [OF add(1)] tools_to_remove_def)
  next
    case (Some rt)
    then have "(n, rt) \<in> set new" by (rule map_of_SomeD)
    with rts have nm: "tool_Name (rt_tool rt) = n"
      and js: "env_marshal env (rt_tool rt) = Inr (rt_jsonBytes rt)"
      and mem: "n \<in> fst ` set new"
      by (auto simp: rt_ok_def intro: rev_image_eqI)
    show ?thesis
    proof (cases "rt_tool rt \<in> set ?add")
      case True
      with fold_add_member [OF add(1) True, of "env_marshal env"] nm Some get show ?thesis
        by (simp add: apply_delta_def)
    next
      case False
      with add(2) [of "rt_tool rt"] Some nm obtain ort
        where ort: "map_of (mget_or [] sv sid) n = Some ort" "rt_jsonBytes ort = rt_jsonBytes rt"
        by (auto split: option.splits)
      note pub = old_table_get [OF ok ort(1)]
      have "\<not> (\<exists>t \<in> set ?add. tool_Name t = n)" using add(2) ort Some by auto
      moreover have "env_marshal env (rt_tool ort) = Inr (rt_jsonBytes ort)"
        using published_entry(2) [OF ok pub] by (simp add: rt_ok_def)
      ultimately show ?thesis
        using Some get pub ort js mem
        by (simp add: apply_delta_nth [OF add(1)] tools_to_remove_def)
    qed
  qed
qed

lemma catalog_view_wf:
  assumes "cat_wf env c"
  shows "catalog_view env c =
    map_option (\<lambda>rt. env_marshal env (rt_tool rt)) \<circ> map_of (published (cat_servers c))"
  using assms by (auto simp: catalog_view_def cat_wf_def GetTool_build option.map_comp comp_def)

lemma cat_wf_route_iff:
  assumes "cat_wf env c"
  shows "GetTool (cat_snapshot c) n \<noteq> None \<longleftrightarrow> cat_LookupRoute c n \<noteq> None"
proof -
  have ok: "tables_ok env (cat_servers c)"
    and s: "cat_snapshot c = build_snapshot (cat_revision c) (cat_servers c) (cat_unpublished c)"
    using assms by (simp_all add: cat_wf_def)
  show ?thesis by (simp add: s GetTool_build [OF ok] LookupRoute_build [OF ok] cat_LookupRoute_def)
qed

lemma apply_delta_Nil [simp]: "apply_delta env [] [] m = m"
  by (simp add: apply_delta_def restrict_map_def)

lemma cat_wf_delta:
  assumes wf: "cat_wf env c" and sha: "sha256_hex_ok (env_sha256_hex env)"
    and upd: "UpdateServerTools env c sid raw disabled = Some ((toAdd, toRemove, snap, err), c')"
  shows "catalog_view env c' = apply_delta env toAdd toRemove (catalog_view env c)"
proof (cases rule: UpdateServerTools_cases [OF upd])
  case 1
  then show ?thesis by simp
next
  case (2 en dis new unpub)
  show ?thesis
  proof (cases "c' = c \<and> toAdd = [] \<and> toRemove = []")
    case True
    then show ?thesis by simp
  next
    case False
    with 2(8) have "cat_servers c' = mput sid new (cat_servers c)"
      by (auto simp: rebuildSnapshot_def)
    moreover have "cat_wf env c'" using cat_wf_UpdateServerTools [OF wf sha upd] .
    ultimately show ?thesis
      using 2 wf view_delta [of env "cat_servers c" sid new]
      by (simp add: catalog_view_wf cat_wf_def)
  qed
qed

section \<open>Accounting and removal\<close>

lemma FilterDisabled_length:
  assumes "FilterDisabledTools raw disabled = (map Some en, dis)"
  shows "length en + length dis = length (filter (\<lambda>t. t \<noteq> None) raw)"
proof (cases "disabled = []")
  case True
  with assms have "raw = map Some en" "dis = []" by (simp_all add: FilterDisabledTools_def)
  then show ?thesis by (simp add: filter_map comp_def)
next
  case False
  let ?in = "\<lambda>p. case p of None \<Rightarrow> False | Some t \<Rightarrow> tool_Name t \<in> set disabled"
  let ?out = "\<lambda>p. case p of None \<Rightarrow> False | Some t \<Rightarrow> tool_Name t \<notin> set disabled"
  have "length (filter ?out raw) + length (filter ?in raw) = length (filter (\<lambda>t. t \<noteq> None) raw)"
    by (induction raw) (auto split: option.splits)
  moreover have "map Some en = filter ?out raw" "dis = filter ?in raw"
    using assms False by (simp_all add: FilterDisabledTools_eq)
  ultimately show ?thesis by (metis length_map)
qed

lemma no_delta_length:
  assumes "wf_map old" and "wf_map new" and "tools_to_add old new = []" and "tools_to_remove old new = []"
  shows "length old = length new"
proof -
  have "set (mkeys old) = set (mkeys new)"
  proof (intro equalityI subsetI)
    show "n \<in> set (mkeys new)" if "n \<in> set (mkeys old)" for n
      using assms(4) that by (fastforce simp: tools_to_remove_def filter_empty_conv)
    show "n \<in> set (mkeys old)" if "n \<in> set (mkeys new)" for n
    proof (rule ccontr)
      assume "n \<notin> set (mkeys old)"
      then have "map_of old n = None" by (simp add: map_of_eq_None_iff)
      with that assms(3) show False by (fastforce simp: tools_to_add_def filter_empty_conv)
    qed
  qed
  then have "card (set (mkeys old)) = card (set (mkeys new))" by simp
  with assms(1,2) show ?thesis by (simp only: distinct_card length_map)
qed

lemma cat_wf_accounts:
  assumes wf: "cat_wf env c" and sha: "sha256_hex_ok (env_sha256_hex env)"
    and upd: "UpdateServerTools env c sid raw disabled = Some ((toAdd, toRemove, snap, None), c')"
  shows "PublishedCount snap sid + UnpublishedCount snap sid = length (filter (\<lambda>t. t \<noteq> None) raw)"
proof (cases rule: UpdateServerTools_cases [OF upd])
  case 1
  then show ?thesis by simp
next
  case (2 en dis new unpub)
  note new = compute_server_tools_props [OF sha 2(1) 2(5)]
  have "size (mset (map (\<lambda>p. rt_originalName (snd p)) new) + mset (map up_OriginalName unpub)) =
      size (mset (map tool_Name en) + mset (map tool_Name (map the dis)))"
    by (simp only: new(3))
  then have total: "length new + length unpub = length (filter (\<lambda>t. t \<noteq> None) raw)"
    using FilterDisabled_length [OF 2(4)] by simp
  have wfn: "wf_map new" using new(1) by (simp add: accept_inv_def)
  have wfo: "wf_map (mget_or [] (cat_servers c) sid)"
    using wf by (intro wf_map_server) (simp add: cat_wf_def tables_ok_def)
  have snap: "snap = build_snapshot (cat_revision c') (cat_servers c') (cat_unpublished c')"
    using cat_wf_UpdateServerTools [OF wf sha upd] 2(3) by (simp add: cat_wf_def)
  show ?thesis
  proof (cases "c' = c \<and> toAdd = [] \<and> toRemove = [] \<and> mget_or [] (cat_unpublished c) sid = unpub")
    case True
    moreover from this have "length (mget_or [] (cat_servers c) sid) = length new"
      using no_delta_length [OF wfo wfn] 2(6,7) by simp
    ultimately show ?thesis
      using total by (simp add: snap PublishedCount_build UnpublishedCount_build)
  next
    case False
    with 2(8) total show ?thesis
      by (auto simp: snap PublishedCount_build UnpublishedCount_build rebuildSnapshot_def)
  qed
qed

lemma cat_wf_remove:
  assumes wf: "cat_wf env c" and rem: "RemoveServer c sid = ((toRemove, snap), c')"
  shows "snap = cat_snapshot c' \<and>
    set toRemove = set (ServerToolNames (cat_snapshot c) sid) \<and>
    (\<forall>n. cat_LookupRoute c' n = (if n \<in> set toRemove then None else cat_LookupRoute c n)) \<and>
    (\<forall>n. GetTool snap n = (if n \<in> set toRemove then None else GetTool (cat_snapshot c) n))"
proof -
  let ?old = "mget_or [] (cat_servers c) sid"
  have ok: "tables_ok env (cat_servers c)"
    and s: "cat_snapshot c = build_snapshot (cat_revision c) (cat_servers c) (cat_unpublished c)"
    using wf by (simp_all add: cat_wf_def)
  have wf': "cat_wf env c'" using cat_wf_RemoveServer [OF wf, of sid] rem by simp
  then have ok': "tables_ok env (cat_servers c')"
    and s': "cat_snapshot c' = build_snapshot (cat_revision c') (cat_servers c') (cat_unpublished c')"
    by (simp_all add: cat_wf_def)
  have snap: "snap = cat_snapshot c'" and keys: "toRemove = mkeys ?old"
    using rem by (auto simp: RemoveServer_def Let_def split: if_splits)
  have "map_of (published (cat_servers c')) n =
      (if n \<in> fst ` set ?old then None else map_of (published (cat_servers c)) n)" for n
  proof (cases "c' = c")
    case True
    then have "?old = []" using rem
      by (auto simp: RemoveServer_def Let_def rebuildSnapshot_def split: if_splits
          dest!: arg_cong [of _ _ cat_revision])
    with True show ?thesis by simp
  next
    case False
    then have c': "cat_servers c' = mdel sid (cat_servers c)"
      using rem by (auto simp: RemoveServer_def Let_def rebuildSnapshot_def split: if_splits)
    have wfs: "wf_map (cat_servers c)" "wf_map (published (cat_servers c))"
      using ok by (simp_all add: tables_ok_def)
    note old = mset_tables [OF mset_published_mdel [OF wfs(1), of sid]]
    have wfo: "wf_map (other_tools (cat_servers c) sid @ ?old)" using wfs old(1) by simp
    have eq: "map_of (published (cat_servers c)) = map_of (other_tools (cat_servers c) sid @ ?old)"
      using map_of_inject_set [OF wfs(2) wfo] old(4) by simp
    show ?thesis
      using map_of_append_left [OF wfo, of n] by (simp only: c' eq other_tools_mdel)
  qed
  then show ?thesis
    by (simp add: snap s s' keys cat_LookupRoute_def LookupRoute_build [OF ok]
        LookupRoute_build [OF ok'] GetTool_build [OF ok] GetTool_build [OF ok'] ServerToolNames_build)
qed

end
