(* ===== verification/Catalog_Properties.thy ===== *)
theory Catalog_Properties
  imports Catalog_Lookup
begin

text \<open>
  The correctness of the tool catalog: name allocation, the invariant of every reachable catalog,
  what a snapshot answers, the meaning of the returned differences, and the accounting of the
  tools of a server. The instances used by the witnesses come first.
\<close>

section \<open>A concrete environment\<close>

definition demo_tool :: "string \<Rightarrow> string \<Rightarrow> tool" where
  "demo_tool n rest =
     \<lparr>tool_Name = n, tool_InputSchema = Marshals (JObj [(''type'', JStr ''object'')]),
      tool_OutputSchema = AnyNil, tool_Rest = rest\<rparr>"

definition demo_env :: catalog_env where
  "demo_env =
     \<lparr>env_sha256_hex = demo_sha256_hex,
      env_marshal = (\<lambda>t. Inr (tool_Name t @ ''|'' @ tool_Rest t)),
      env_unmarshal = (\<lambda>s. Inr (demo_tool (takeWhile (\<lambda>c. c \<noteq> CHR ''|'') s)
                                   (tl (dropWhile (\<lambda>c. c \<noteq> CHR ''|'') s)))),
      env_AddTool_ok = (\<lambda>_. True)\<rparr>"

lemma demo_env_sha: "sha256_hex_ok (env_sha256_hex demo_env)"
  by (simp add: demo_env_def demo_sha256_hex_ok)

definition demo_update ::
  "(tool list \<times> string list \<times> Snapshot \<times> catalog_error option) \<times> Catalog" where
  "demo_update = the (UpdateServerTools demo_env NewCatalog ''fs''
     [Some (demo_tool ''read'' ''x''), Some (demo_tool ''a b'' ''y''), Some (demo_tool ''rm'' ''z'')]
     [''rm''])"

lemma demo_update_eq:
  "UpdateServerTools demo_env NewCatalog ''fs''
     [Some (demo_tool ''read'' ''x''), Some (demo_tool ''a b'' ''y''), Some (demo_tool ''rm'' ''z'')]
     [''rm''] = Some (fst demo_update, snd demo_update)"
proof -
  have "UpdateServerTools demo_env NewCatalog ''fs''
     [Some (demo_tool ''read'' ''x''), Some (demo_tool ''a b'' ''y''), Some (demo_tool ''rm'' ''z'')]
     [''rm''] \<noteq> None"
    by code_simp
  then show ?thesis by (simp add: demo_update_def)
qed

lemma demo_reachable: "cat_reachable demo_env (snd demo_update)"
  by (rule cat_reachable.update [OF cat_reachable.new demo_update_eq])

section \<open>Names\<close>

text \<open>
  C4. The two allocation passes compute the priority rule: a tool without a name is refused; a tool
  whose direct name is valid gets it unless another server holds the name or an earlier tool of the
  list has the same one; any other tool gets its hashed alias unless another server holds that
  name, it is the direct name of some tool of the list, or an earlier tool has the same alias.
\<close>

theorem ResolveNamesWithPriority_spec:
  "ResolveNamesWithPriority sha sid origs existing =
     map (name_decision sha sid origs (set (mkeys existing))) [0..<length origs]"
  by (rule resolve_names_eq_map)

text \<open>
  The names that allocation hands out are pairwise different, valid public names
  (at most 64 characters of the allowed alphabet), and none of them is held by another server,
  whatever the server lists, given that SHA-256 sums are 64 hexadecimal digits.
\<close>

theorem ResolveNamesWithPriority_safe:
  assumes "sha256_hex_ok sha" and "ValidateServerID sid = None"
  shows "distinct (accepted_names (ResolveNamesWithPriority sha sid origs existing)) \<and>
    (\<forall>n \<in> set (accepted_names (ResolveNamesWithPriority sha sid origs existing)).
       IsValidPublicToolName n \<and> \<not> mhas existing n)"
proof -
  have "serverIDRegex sid" using assms(2) by (simp add: ValidateServerID_def split: if_splits)
  with accepted_names_valid [OF assms(1)] show ?thesis by (auto simp: accepted_names_distinct)
qed

theorem ResolveNamesWithPriority_safe_witness:
  "distinct (accepted_names (ResolveNamesWithPriority demo_sha256_hex ''fs''
       [''read'', ''a b'', ''read''] [(''fs__x'', True)])) \<and>
   accepted_names (ResolveNamesWithPriority demo_sha256_hex ''fs''
       [''read'', ''a b'', ''read''] [(''fs__x'', True)]) =
     [''fs__read'', ''fs__h000000000000000226afed77'']"
proof -
  have "ValidateServerID ''fs'' = None" by code_simp
  note safe = ResolveNamesWithPriority_safe [OF demo_sha256_hex_ok this,
      of "[''read'', ''a b'', ''read'']" "[(''fs__x'', True)]"]
  have "accepted_names (ResolveNamesWithPriority demo_sha256_hex ''fs''
       [''read'', ''a b'', ''read''] [(''fs__x'', True)]) =
     [''fs__read'', ''fs__h000000000000000226afed77'']"
    by code_simp
  with safe show ?thesis by blast
qed

section \<open>The invariant\<close>

text \<open>
  C1. In every catalog reachable from the empty one by updates and removals of servers, the
  published names are strictly sorted (so unique across servers) and valid, every published
  definition encodes to at most 256 KiB, and the limits hold: 2048 tools in total, 512 per server,
  8 MiB of encoded definitions.
\<close>

theorem catalog_invariant:
  assumes "cat_reachable env c" and "sha256_hex_ok (env_sha256_hex env)"
  shows "sorted_wrt (<) (map tool_Name (ToolsList (cat_snapshot c))) \<and>
    (\<forall>t \<in> set (ToolsList (cat_snapshot c)). IsValidPublicToolName (tool_Name t) \<and>
       (\<exists>b. env_marshal env t = Inr b \<and> length b \<le> MaxToolDefinitionBytes)) \<and>
    TotalPublished (cat_snapshot c) \<le> MaxTotalTools \<and>
    PublishedCount (cat_snapshot c) sid \<le> MaxToolsPerServer \<and>
    snap_TotalCatalogBytes (cat_snapshot c) \<le> MaxCatalogJSONBytes"
proof -
  note wf = cat_reachable_wf [OF assms]
  then have ok: "tables_ok env (cat_servers c)"
    and snap: "cat_snapshot c = build_snapshot (cat_revision c) (cat_servers c) (cat_unpublished c)"
    by (simp_all add: cat_wf_def)
  have "rt_ok env (rt_serverID (snd p)) p" if "p \<in> set (published (cat_servers c))" for p
    using ok that server_ok_published [of "cat_servers c" env "fst p" "snd p"]
    by (simp add: tables_ok_def)
  then have "\<forall>t \<in> set (ToolsList (cat_snapshot c)). IsValidPublicToolName (tool_Name t) \<and>
       (\<exists>b. env_marshal env t = Inr b \<and> length b \<le> MaxToolDefinitionBytes)"
    by (fastforce simp: ToolsList_def snap rt_ok_def split_def)
  moreover have "PublishedCount (cat_snapshot c) sid \<le> MaxToolsPerServer"
    using PublishedCount_bound [OF ok] by (simp add: snap)
  ultimately show ?thesis
    using ok snap_Tools_sorted [OF ok]
    by (simp add: ToolsList_def TotalPublished_def snap tables_ok_def)
qed

theorem catalog_invariant_witness:
  "TotalPublished (cat_snapshot (snd demo_update)) = 2 \<and>
   sorted_wrt (<) (map tool_Name (ToolsList (cat_snapshot (snd demo_update))))"
proof -
  have "TotalPublished (cat_snapshot (snd demo_update)) = 2" by code_simp
  with catalog_invariant [OF demo_reachable demo_env_sha, of "''fs''"] show ?thesis by blast
qed

section \<open>Lookups\<close>

text \<open>
  C2. In every reachable catalog, a public name resolves to a route exactly when a tool is published
  under it; the route leads to the server that lists the name, and the name is the one that the
  naming rule derives from the route's server and original name.
\<close>

theorem LookupRoute_sound:
  assumes "cat_reachable env c" and "sha256_hex_ok (env_sha256_hex env)"
  shows "(cat_LookupRoute c n \<noteq> None \<longleftrightarrow> GetTool (cat_snapshot c) n \<noteq> None) \<and>
    (\<forall>r. cat_LookupRoute c n = Some r \<longrightarrow>
       route_PublicName r = n \<and> ValidateServerID (route_ServerID r) = None \<and>
       n \<in> set (ServerToolNames (cat_snapshot c) (route_ServerID r)) \<and>
       n = fst (ResolveCandidateName (env_sha256_hex env) (route_ServerID r) (route_OriginalName r)))"
proof -
  note wf = cat_reachable_wf [OF assms]
  then have ok: "tables_ok env (cat_servers c)"
    and snap: "cat_snapshot c = build_snapshot (cat_revision c) (cat_servers c) (cat_unpublished c)"
    by (simp_all add: cat_wf_def)
  show ?thesis
  proof (cases "map_of (published (cat_servers c)) n")
    case None
    then show ?thesis
      by (simp add: cat_LookupRoute_def snap LookupRoute_build [OF ok] GetTool_build [OF ok])
  next
    case (Some rt)
    have "fst (ResolveCandidateName (env_sha256_hex env) (rt_serverID rt) (rt_originalName rt)) = n"
      using published_entry(2) [OF ok Some] by (simp add: rt_ok_def)
    with Some published_entry(1,3) [OF ok Some] show ?thesis
      by (simp add: cat_LookupRoute_def snap LookupRoute_build [OF ok] GetTool_build [OF ok]
          ServerToolNames_build route_of_def ValidateServerID_def)
  qed
qed

theorem LookupRoute_sound_witness:
  "cat_LookupRoute (snd demo_update) ''fs__h000000000000000226afed77'' =
     Some \<lparr>route_PublicName = ''fs__h000000000000000226afed77'', route_ServerID = ''fs'',
           route_OriginalName = ''a b''\<rparr> \<and>
   GetTool (cat_snapshot (snd demo_update)) ''fs__h000000000000000226afed77'' \<noteq> None"
proof -
  have "cat_LookupRoute (snd demo_update) ''fs__h000000000000000226afed77'' =
     Some \<lparr>route_PublicName = ''fs__h000000000000000226afed77'', route_ServerID = ''fs'',
           route_OriginalName = ''a b''\<rparr>"
    by code_simp
  with LookupRoute_sound [OF demo_reachable demo_env_sha] show ?thesis by fastforce
qed

text \<open>
  The snapshot does not depend on the order in which the Go maps are visited: two well-formed
  tables with the same entries give the same sorted tool list, the same routes and the same lists of
  names per server.
\<close>

theorem rebuildSnapshot_order_independent:
  assumes "tables_ok env sv" and "tables_ok env sv'"
    and "map_of sv = map_of sv'"
  shows "ToolsList (build_snapshot r sv up) = ToolsList (build_snapshot r sv' up) \<and>
    LookupRoute (build_snapshot r sv up) = LookupRoute (build_snapshot r sv' up) \<and>
    ServerToolNames (build_snapshot r sv up) = ServerToolNames (build_snapshot r sv' up) \<and>
    snap_TotalCatalogBytes (build_snapshot r sv up) = snap_TotalCatalogBytes (build_snapshot r sv' up)"
proof -
  have sets: "set sv = set sv'"
    using assms by (simp add: tables_ok_def map_of_inject_set)
  then have pub: "set (published sv) = set (published sv')"
    by (auto simp: set_published)
  let ?t = "\<lambda>sv. map (rt_tool \<circ> snd) (published sv)"
  have "sort_key tool_Name (?t sv) = sort_key tool_Name (?t sv')"
  proof (rule sort_key_unique)
    show "set (?t sv) = set (?t sv')" using pub by auto
    show "distinct (map tool_Name (?t sv))" "distinct (map tool_Name (?t sv'))"
      using assms(1,2) by (simp_all only: published_names) (simp_all add: tables_ok_def)
  qed
  moreover have wfp: "wf_map (published sv)" "wf_map (published sv')"
    using assms by (simp_all add: tables_ok_def)
  then have "map_of (published sv) = map_of (published sv')"
    using pub by (simp add: map_of_inject_set)
  moreover have "total_size (published sv) = total_size (published sv')"
    using wfp pub by (intro total_size_cong) (auto simp: distinct_map)
  ultimately show ?thesis
    using assms by (auto simp: ToolsList_def LookupRoute_build [OF assms(1)]
        LookupRoute_build [OF assms(2)] ServerToolNames_build mget_or_def fun_eq_iff)
qed

theorem rebuildSnapshot_order_independent_witness:
  "ToolsList (build_snapshot 1 (cat_servers (snd demo_update) @ [(''a'', [])]) []) =
   ToolsList (build_snapshot 1 ((''a'', []) # cat_servers (snd demo_update)) [])"
proof -
  have ok: "tables_ok demo_env (cat_servers (snd demo_update))"
    using cat_reachable_wf [OF demo_reachable demo_env_sha] by (simp add: cat_wf_def)
  have a: "''a'' \<notin> fst ` set (cat_servers (snd demo_update))" and "serverIDRegex ''a''"
    by code_simp+
  then have "tables_ok demo_env (cat_servers (snd demo_update) @ [(''a'', [])])"
    and "tables_ok demo_env ((''a'', []) # cat_servers (snd demo_update))"
    using ok by (auto simp: tables_ok_def server_ok_def)
  moreover have "map_of (cat_servers (snd demo_update) @ [(''a'', [])]) =
      map_of ((''a'', []) # cat_servers (snd demo_update))"
    using a ok by (subst map_of_inject_set) (auto simp: tables_ok_def)
  ultimately show ?thesis by (intro rebuildSnapshot_order_independent [THEN conjunct1, of demo_env])
qed

section \<open>Differences\<close>

text \<open>
  C3. The differences that \<^verbatim>\<open>UpdateServerTools\<close> returns are exact: removing \<^verbatim>\<open>toRemove\<close> from what was
  published before and then adding \<^verbatim>\<open>toAdd\<close> gives, name by name, the encoded definitions of the new
  snapshot; the tools of other servers are untouched.
\<close>

theorem UpdateServerTools_delta:
  assumes "cat_reachable env c" and "sha256_hex_ok (env_sha256_hex env)"
    and "UpdateServerTools env c sid raw disabled = Some ((toAdd, toRemove, snap, err), c')"
  shows "catalog_view env c' = apply_delta env toAdd toRemove (catalog_view env c)"
  using cat_wf_delta [OF cat_reachable_wf [OF assms(1,2)] assms(2,3)] .

theorem UpdateServerTools_delta_witness:
  "catalog_view demo_env (snd demo_update) ''fs__read'' = Some (Inr ''fs__read|x'') \<and>
   catalog_view demo_env (snd demo_update) =
     apply_delta demo_env (fst (fst demo_update)) (fst (snd (fst demo_update)))
       (catalog_view demo_env NewCatalog)"
proof -
  have "catalog_view demo_env (snd demo_update) ''fs__read'' = Some (Inr ''fs__read|x'')" by code_simp
  moreover note UpdateServerTools_delta [OF cat_reachable.new demo_env_sha, of "''fs''" _ _
      "fst (fst demo_update)" "fst (snd (fst demo_update))" "fst (snd (snd (fst demo_update)))"
      "snd (snd (snd (fst demo_update)))" "snd demo_update"]
  ultimately show ?thesis using demo_update_eq by simp
qed

text \<open>
  No tool of a server's answer is lost or counted twice: after an update without an error, the
  server's published and unpublished tools together are as many as the tools it listed.
\<close>

theorem UpdateServerTools_accounts:
  assumes "cat_reachable env c" and "sha256_hex_ok (env_sha256_hex env)"
    and "UpdateServerTools env c sid raw disabled = Some ((toAdd, toRemove, snap, None), c')"
  shows "PublishedCount snap sid + UnpublishedCount snap sid = length (filter (\<lambda>t. t \<noteq> None) raw)"
  using cat_wf_accounts [OF cat_reachable_wf [OF assms(1,2)] assms(2,3)] .

theorem UpdateServerTools_accounts_witness:
  "PublishedCount (fst (snd (snd (fst demo_update)))) ''fs'' = 2 \<and>
   UnpublishedCount (fst (snd (snd (fst demo_update)))) ''fs'' = 1 \<and>
   PublishedCount (fst (snd (snd (fst demo_update)))) ''fs'' +
     UnpublishedCount (fst (snd (snd (fst demo_update)))) ''fs'' = 3"
proof -
  have e: "snd (snd (snd (fst demo_update))) = None"
    and n: "PublishedCount (fst (snd (snd (fst demo_update)))) ''fs'' = 2"
    "UnpublishedCount (fst (snd (snd (fst demo_update)))) ''fs'' = 1"
    by code_simp+
  then have "UpdateServerTools demo_env NewCatalog ''fs''
     [Some (demo_tool ''read'' ''x''), Some (demo_tool ''a b'' ''y''), Some (demo_tool ''rm'' ''z'')]
     [''rm''] = Some ((fst (fst demo_update), fst (snd (fst demo_update)),
       fst (snd (snd (fst demo_update))), None), snd demo_update)"
    using demo_update_eq by (metis prod.collapse)
  from UpdateServerTools_accounts [OF cat_reachable.new demo_env_sha this] n show ?thesis by simp
qed

text \<open>
  \<^verbatim>\<open>RemoveServer\<close> returns exactly the names of the removed server, which are no longer published
  or routed afterwards; every other published definition stays as it was.
\<close>

theorem RemoveServer_exact:
  assumes "cat_reachable env c" and "sha256_hex_ok (env_sha256_hex env)"
    and "RemoveServer c sid = ((toRemove, snap), c')"
  shows "snap = cat_snapshot c' \<and>
    set toRemove = set (ServerToolNames (cat_snapshot c) sid) \<and>
    (\<forall>n. cat_LookupRoute c' n = (if n \<in> set toRemove then None else cat_LookupRoute c n)) \<and>
    (\<forall>n. GetTool snap n = (if n \<in> set toRemove then None else GetTool (cat_snapshot c) n))"
  using cat_wf_remove [OF cat_reachable_wf [OF assms(1,2)] assms(3)] .

theorem RemoveServer_exact_witness:
  "set (fst (fst (RemoveServer (snd demo_update) ''fs''))) =
     {''fs__read'', ''fs__h000000000000000226afed77''} \<and>
   cat_LookupRoute (snd (RemoveServer (snd demo_update) ''fs'')) ''fs__read'' = None"
proof -
  obtain toRemove snap c' where r: "RemoveServer (snd demo_update) ''fs'' = ((toRemove, snap), c')"
    by (metis prod.collapse)
  have "fst (fst (RemoveServer (snd demo_update) ''fs'')) =
      [''fs__read'', ''fs__h000000000000000226afed77'']"
    by code_simp
  with r have "toRemove = [''fs__read'', ''fs__h000000000000000226afed77'']" by simp
  with RemoveServer_exact [OF demo_reachable demo_env_sha r] r show ?thesis by simp
qed

text \<open>
  Updates are atomic: the revision grows by one exactly when something is stored, a refused
  server identifier changes nothing, and what \<^verbatim>\<open>UpdateServerTools\<close> returns is the catalog's current
  snapshot.
\<close>

theorem UpdateServerTools_atomic:
  assumes "UpdateServerTools env c sid raw disabled = Some ((toAdd, toRemove, snap, err), c')"
  shows "snap = cat_snapshot c' \<and> (err \<noteq> None \<longleftrightarrow> \<not> serverIDRegex sid) \<and>
    (c' = c \<and> toAdd = [] \<and> toRemove = [] \<or>
     err = None \<and> cat_revision c' = cat_revision c + 1 \<and> cat_Revision c' = cat_revision c + 1)"
proof (cases rule: UpdateServerTools_cases [OF assms])
  case 1
  then show ?thesis by (auto simp: ValidateServerID_def split: if_splits)
next
  case 2
  then show ?thesis by (auto simp: rebuildSnapshot_def cat_Revision_def)
qed

theorem UpdateServerTools_atomic_witness:
  "cat_revision (snd demo_update) = 1 \<and>
   fst (snd (snd (fst demo_update))) = cat_snapshot (snd demo_update)"
proof -
  have "cat_revision (snd demo_update) = 1" by code_simp
  with UpdateServerTools_atomic [of demo_env NewCatalog "''fs''" _ _
      "fst (fst demo_update)" "fst (snd (fst demo_update))" "fst (snd (snd (fst demo_update)))"
      "snd (snd (snd (fst demo_update)))" "snd demo_update"] demo_update_eq
  show ?thesis by simp
qed

section \<open>A stale route\<close>

text \<open>
  C7. Change detection compares only encoded definitions, which do not contain the original name.
  A server that first lists a tool published under its alias and then a different tool whose direct
  name is that alias, with the same definition, keeps the old route: calls are still sent to the
  original name that the server no longer lists.
\<close>

definition stale_before :: "tool option list" where
  "stale_before = [Some (demo_tool ''a b'' ''y'')]"

definition stale_after :: "tool option list" where
  "stale_after = [Some (demo_tool ''h000000000000000226afed77'' ''y'')]"

theorem UpdateServerTools_stale_route:
  "\<exists>r1 c1 r2 c2.
     UpdateServerTools demo_env NewCatalog ''fs'' stale_before [] = Some (r1, c1) \<and>
     UpdateServerTools demo_env c1 ''fs'' stale_after [] = Some (r2, c2) \<and>
     map_option route_OriginalName (cat_LookupRoute c2 ''fs__h000000000000000226afed77'') =
       Some ''a b'' \<and>
     ''a b'' \<notin> (tool_Name \<circ> the) ` set stale_after"
proof -
  let ?u1 = "UpdateServerTools demo_env NewCatalog ''fs'' stale_before []"
  let ?u2 = "UpdateServerTools demo_env (snd (the ?u1)) ''fs'' stale_after []"
  have "?u1 \<noteq> None" "?u2 \<noteq> None" by code_simp+
  then have "?u1 = Some (fst (the ?u1), snd (the ?u1))" "?u2 = Some (fst (the ?u2), snd (the ?u2))"
    by auto
  moreover have "map_option route_OriginalName
      (cat_LookupRoute (snd (the ?u2)) ''fs__h000000000000000226afed77'') = Some ''a b'' \<and>
     ''a b'' \<notin> (tool_Name \<circ> the) ` set stale_after"
    by code_simp
  ultimately show ?thesis by blast
qed

end
