(* ===== verification/Publisher.thy ===== *)
theory Publisher
  imports Catalog_Properties
begin

text \<open>
  Publication of the catalog on the MCP server (\<^verbatim>\<open>internal/inbound/publisher.go\<close>) and the
  publisher without an SDK server that the manager uses by default
  (\<^verbatim>\<open>CatalogPublisherAdapter\<close> of \<^verbatim>\<open>internal/manager/manager.go\<close>). Both implement the interface
  \<^verbatim>\<open>catalog.Publisher\<close>, stated here as the locale \<open>catalog_publisher\<close> and interpreted on both.

  The SDK's \<^verbatim>\<open>mcp.Server\<close> is third-party code: its tool registry is a parameter, a record of the three
  operations that the code relies on, with the laws \<open>sdk_laws\<close> (adding a tool replaces the tool of that
  name, removing takes away exactly the named ones).
\<close>

section \<open>The SDK server\<close>

record 'srv sdk_ops =
  sdk_AddTool :: "tool \<Rightarrow> 'srv \<Rightarrow> 'srv"
  sdk_RemoveTools :: "string list \<Rightarrow> 'srv \<Rightarrow> 'srv"
  sdk_tools :: "'srv \<Rightarrow> string \<Rightarrow> tool option"

definition sdk_laws :: "'srv sdk_ops \<Rightarrow> bool" where
  "sdk_laws ops \<longleftrightarrow>
     (\<forall>t srv. sdk_tools ops (sdk_AddTool ops t srv) = (sdk_tools ops srv)(tool_Name t \<mapsto> t)) \<and>
     (\<forall>ns srv. sdk_tools ops (sdk_RemoveTools ops ns srv) = sdk_tools ops srv |` (- set ns))"

text \<open>The results of a tool call, as far as the code builds or reads them.\<close>

record CallToolResult =
  res_IsError :: bool
  res_Text :: string

datatype rpc_error = RpcInvalidParams string | RpcInternalError string | RpcContextError string

type_synonym call_outcome = "rpc_error + CallToolResult"

section \<open>The publisher\<close>

record ('srv, 'req) Publisher =
  pub_server :: 'srv
  pub_cat :: Catalog
  pub_routerCallback :: "('req \<Rightarrow> call_outcome) option"

datatype publisher_error = ErrNilServer

definition NewPublisher ::
  "'srv option \<Rightarrow> Catalog option \<Rightarrow> ('req \<Rightarrow> call_outcome) option \<Rightarrow>
   publisher_error + ('srv, 'req) Publisher" where
  "NewPublisher server cat router =
     (case server of
        None \<Rightarrow> Inl ErrNilServer
      | Some srv \<Rightarrow>
          Inr \<lparr>pub_server = srv, pub_cat = (case cat of None \<Rightarrow> NewCatalog | Some c \<Rightarrow> c),
               pub_routerCallback = router\<rparr>)"

text \<open>
  The calls on the SDK server that a publication makes after the catalog update, in their order.
\<close>

datatype registry_call = CallRemoveTools "string list" | CallAddTool tool

definition publish_calls :: "tool list \<Rightarrow> string list \<Rightarrow> registry_call list" where
  "publish_calls toAdd toRemove =
     (if length toRemove > 0 then [CallRemoveTools toRemove] else []) @ map CallAddTool toAdd"

fun run_call :: "'srv sdk_ops \<Rightarrow> registry_call \<Rightarrow> 'srv \<Rightarrow> 'srv" where
  "run_call ops (CallRemoveTools ns) srv = sdk_RemoveTools ops ns srv"
| "run_call ops (CallAddTool t) srv = sdk_AddTool ops t srv"

definition pub_PublishServer ::
  "catalog_env \<Rightarrow> 'srv sdk_ops \<Rightarrow> ('srv, 'req) Publisher \<Rightarrow> string \<Rightarrow> tool option list \<Rightarrow> string list \<Rightarrow>
   ((Snapshot \<times> catalog_error option) \<times> ('srv, 'req) Publisher) option" where
  "pub_PublishServer env ops p serverID rawTools disabled =
     (case UpdateServerTools env (pub_cat p) serverID rawTools disabled of
        None \<Rightarrow> None
      | Some ((toAdd, toRemove, snap, err), cat') \<Rightarrow>
          let p' = p\<lparr>pub_cat := cat'\<rparr>
          in if err \<noteq> None then Some ((snap, err), p')
             else Some ((snap, None),
                    p'\<lparr>pub_server := fold (run_call ops) (publish_calls toAdd toRemove) (pub_server p)\<rparr>))"

definition pub_RemoveServer ::
  "'srv sdk_ops \<Rightarrow> ('srv, 'req) Publisher \<Rightarrow> string \<Rightarrow> Snapshot \<times> ('srv, 'req) Publisher" where
  "pub_RemoveServer ops p serverID =
     (let ((toRemove, snap), cat') = RemoveServer (pub_cat p) serverID
      in (snap, p\<lparr>pub_cat := cat',
                  pub_server := fold (run_call ops) (publish_calls [] toRemove) (pub_server p)\<rparr>))"

definition pub_LookupRoute :: "('srv, 'req) Publisher \<Rightarrow> string \<Rightarrow> RouteEntry option" where
  "pub_LookupRoute p publicName = cat_LookupRoute (pub_cat p) publicName"

definition pub_Snapshot :: "('srv, 'req) Publisher \<Rightarrow> Snapshot" where
  "pub_Snapshot p = cat_snapshot (pub_cat p)"

definition dispatchTool :: "('srv, 'req) Publisher \<Rightarrow> 'req \<Rightarrow> call_outcome" where
  "dispatchTool p req =
     (case pub_routerCallback p of
        None \<Rightarrow> Inr \<lparr>res_IsError = True, res_Text = ''tool router callback not configured''\<rparr>
      | Some callback \<Rightarrow> callback req)"

definition SetRouterCallback ::
  "('srv, 'req) Publisher \<Rightarrow> ('req \<Rightarrow> call_outcome) option \<Rightarrow> ('srv, 'req) Publisher" where
  "SetRouterCallback p cb = p\<lparr>pub_routerCallback := cb\<rparr>"

section \<open>The publisher without a server\<close>

record CatalogPublisherAdapter =
  ada_cat :: Catalog

definition NewCatalogPublisher :: "Catalog option \<Rightarrow> CatalogPublisherAdapter" where
  "NewCatalogPublisher cat = \<lparr>ada_cat = (case cat of None \<Rightarrow> NewCatalog | Some c \<Rightarrow> c)\<rparr>"

definition ada_PublishServer ::
  "catalog_env \<Rightarrow> CatalogPublisherAdapter \<Rightarrow> string \<Rightarrow> tool option list \<Rightarrow> string list \<Rightarrow>
   ((Snapshot \<times> catalog_error option) \<times> CatalogPublisherAdapter) option" where
  "ada_PublishServer env a serverID rawTools disabled =
     (case UpdateServerTools env (ada_cat a) serverID rawTools disabled of
        None \<Rightarrow> None
      | Some ((_, _, snap, err), cat') \<Rightarrow> Some ((snap, err), a\<lparr>ada_cat := cat'\<rparr>))"

definition ada_RemoveServer ::
  "CatalogPublisherAdapter \<Rightarrow> string \<Rightarrow> Snapshot \<times> CatalogPublisherAdapter" where
  "ada_RemoveServer a serverID =
     (let ((_, snap), cat') = RemoveServer (ada_cat a) serverID in (snap, a\<lparr>ada_cat := cat'\<rparr>))"

definition ada_LookupRoute :: "CatalogPublisherAdapter \<Rightarrow> string \<Rightarrow> RouteEntry option" where
  "ada_LookupRoute a publicName = cat_LookupRoute (ada_cat a) publicName"

definition ada_Snapshot :: "CatalogPublisherAdapter \<Rightarrow> Snapshot" where
  "ada_Snapshot a = cat_snapshot (ada_cat a)"

section \<open>The interface catalog.Publisher\<close>

text \<open>
  What the manager relies on: a publication returns the current snapshot, fails exactly for an
  invalid server identifier and then changes no route, and touches the routes of the named server
  only; a removal takes away exactly the routes of the named server.
\<close>

datatype pub_op = OpPublish string "tool option list" "string list" | OpRemove string

fun live_servers :: "string set \<Rightarrow> pub_op list \<Rightarrow> string set" where
  "live_servers live [] = live"
| "live_servers live (OpPublish sid _ _ # ops) = live_servers (insert sid live) ops"
| "live_servers live (OpRemove sid # ops) = live_servers (live - {sid}) ops"

locale catalog_publisher =
  fixes valid :: "'p \<Rightarrow> bool"
    and publish :: "'p \<Rightarrow> string \<Rightarrow> tool option list \<Rightarrow> string list \<Rightarrow>
      ((Snapshot \<times> catalog_error option) \<times> 'p) option"
    and remove :: "'p \<Rightarrow> string \<Rightarrow> Snapshot \<times> 'p"
    and lookup :: "'p \<Rightarrow> string \<Rightarrow> RouteEntry option"
    and snapshot :: "'p \<Rightarrow> Snapshot"
  assumes publish_valid: "valid p \<Longrightarrow> publish p sid raw dis = Some (r, p') \<Longrightarrow> valid p'"
    and publish_snapshot: "valid p \<Longrightarrow> publish p sid raw dis = Some ((s, e), p') \<Longrightarrow> s = snapshot p'"
    and publish_error: "valid p \<Longrightarrow> publish p sid raw dis = Some ((s, e), p') \<Longrightarrow>
      (e \<noteq> None \<longleftrightarrow> \<not> serverIDRegex sid) \<and> (e \<noteq> None \<longrightarrow> snapshot p' = snapshot p)"
    and publish_frame: "valid p \<Longrightarrow> publish p sid raw dis = Some (r, p') \<Longrightarrow> route_ServerID en \<noteq> sid \<Longrightarrow>
      lookup p' n = Some en \<longleftrightarrow> lookup p n = Some en"
    and remove_valid: "valid p \<Longrightarrow> remove p sid = (s, p') \<Longrightarrow> valid p'"
    and remove_snapshot: "valid p \<Longrightarrow> remove p sid = (s, p') \<Longrightarrow> s = snapshot p'"
    and remove_lookup: "valid p \<Longrightarrow> remove p sid = (s, p') \<Longrightarrow>
      lookup p' n = Some en \<longleftrightarrow> lookup p n = Some en \<and> route_ServerID en \<noteq> sid"
begin

text \<open>The runs of a client that publishes and removes; a panicking publication ends the run.\<close>

fun run :: "pub_op list \<Rightarrow> 'p \<Rightarrow> 'p option" where
  "run [] p = Some p"
| "run (OpPublish sid raw dis # ops) p =
     (case publish p sid raw dis of None \<Rightarrow> None | Some (_, p') \<Rightarrow> run ops p')"
| "run (OpRemove sid # ops) p = run ops (snd (remove p sid))"

lemma run_valid: "valid p \<Longrightarrow> run ops p = Some p' \<Longrightarrow> valid p'"
proof (induction ops p rule: run.induct)
  case (1 p)
  then show ?case by simp
next
  case (2 sid raw dis ops p)
  then obtain r q where q: "publish p sid raw dis = Some (r, q)" "run ops q = Some p'"
    by (auto split: option.splits)
  from "2.IH" [OF q(1) refl publish_valid [OF "2.prems"(1) q(1)] q(2)] show ?case .
next
  case (3 sid ops p)
  then show ?case using remove_valid [of p sid] by (cases "remove p sid") auto
qed

lemma run_live:
  assumes "valid p" and "run ops p = Some p'"
    and "\<forall>n e. lookup p n = Some e \<longrightarrow> route_ServerID e \<in> live"
    and "lookup p' n = Some e"
  shows "route_ServerID e \<in> live_servers live ops"
  using assms
proof (induction live ops arbitrary: p rule: live_servers.induct)
  case (1 live)
  then show ?case by auto
next
  case (2 live sid raw dis ops)
  then obtain r q where q: "publish p sid raw dis = Some (r, q)" "run ops q = Some p'"
    by (auto split: option.splits)
  have "\<forall>n e. lookup q n = Some e \<longrightarrow> route_ServerID e \<in> insert sid live"
    using publish_frame [OF "2.prems"(1) q(1)] "2.prems"(3) by blast
  with "2.IH" [OF publish_valid [OF "2.prems"(1) q(1)] q(2)] "2.prems"(4) show ?case by simp
next
  case (3 live sid ops)
  obtain s q where q: "remove p sid = (s, q)" by fastforce
  have "\<forall>n e. lookup q n = Some e \<longrightarrow> route_ServerID e \<in> live - {sid}"
    using remove_lookup [OF "3.prems"(1) q] "3.prems"(3) by blast
  with "3.IH" [OF remove_valid [OF "3.prems"(1) q]] "3.prems"(2,4) q show ?case by simp
qed

end

section \<open>Both publishers implement it\<close>

lemma route_server_view:
  assumes "cat_wf env c"
  shows "cat_LookupRoute c n = Some e \<longleftrightarrow>
    (\<exists>rt. map_of (published (cat_servers c)) n = Some rt \<and> e = route_of (rt_serverID rt) n rt)"
  using assms by (auto simp: cat_LookupRoute_def cat_wf_def LookupRoute_build)

lemma update_routes_frame:
  assumes wf: "cat_wf env c" and sha: "sha256_hex_ok (env_sha256_hex env)"
    and upd: "UpdateServerTools env c sid raw dis = Some (r, c')" and "route_ServerID e \<noteq> sid"
  shows "cat_LookupRoute c' n = Some e \<longleftrightarrow> cat_LookupRoute c n = Some e"
proof -
  obtain toAdd toRemove snap err where r: "r = (toAdd, toRemove, snap, err)" by (cases r)
  note wf' = cat_wf_UpdateServerTools [OF wf sha upd]
  show ?thesis
  proof (cases "cat_servers c' = cat_servers c")
    case True
    then show ?thesis by (simp add: route_server_view [OF wf] route_server_view [OF wf'])
  next
    case False
    then obtain new where c': "cat_servers c' = mput sid new (cat_servers c)"
      by (cases rule: UpdateServerTools_cases [OF upd [unfolded r]]) (auto simp: rebuildSnapshot_def)
    have ok: "tables_ok env (cat_servers c)" and ok': "tables_ok env (mput sid new (cat_servers c))"
      using wf wf' c' by (simp_all add: cat_wf_def)
    have mem: "map_of (published sv) n = Some rt \<longleftrightarrow> (n, rt) \<in> set (published sv)"
      if "tables_ok env sv" for sv rt
      using that by (simp add: tables_ok_def)
    have sid: "rt_serverID rt = sid" if "(n, rt) \<in> set m" "server_ok env (sid, m)" for m rt
      using that by (force simp: server_ok_def rt_ok_def)
    have wfs: "wf_map (cat_servers c)" using ok by (simp add: tables_ok_def)
    have new: "server_ok env (sid, new)" using tables_ok_get [OF ok'] by simp
    have old: "server_ok env (sid, mget_or [] (cat_servers c) sid)" if "mget_or [] (cat_servers c) sid \<noteq> []"
      using that tables_ok_get [OF ok, of sid] by (auto simp: mget_or_def split: option.splits)
    have "map_of (published (cat_servers c')) n = Some rt \<longleftrightarrow>
        map_of (published (cat_servers c)) n = Some rt" if rt: "rt_serverID rt \<noteq> sid" for rt
    proof -
      have "(n, rt) \<notin> set new" using sid [OF _ new] rt by blast
      moreover have "(n, rt) \<notin> set (mget_or [] (cat_servers c) sid)"
        using sid [OF _ old] rt by (metis empty_iff list.set(1))
      ultimately show ?thesis
        using mset_tables(4) [OF mset_published_mput [OF wfs, of sid new]]
          mset_tables(4) [OF mset_published_mdel [OF wfs, of sid]]
        by (simp add: c' mem [OF ok] mem [OF ok'])
    qed
    moreover have "rt_serverID rt \<noteq> sid" if "e = route_of (rt_serverID rt) n rt" for rt
      using assms(4) that by (auto simp: route_of_def)
    ultimately show ?thesis
      unfolding route_server_view [OF wf] route_server_view [OF wf'] by blast
  qed
qed

lemma remove_routes:
  assumes wf: "cat_wf env c" and rem: "RemoveServer c sid = ((toRemove, snap), c')"
  shows "cat_LookupRoute c' n = Some e \<longleftrightarrow> cat_LookupRoute c n = Some e \<and> route_ServerID e \<noteq> sid"
proof -
  have ok: "tables_ok env (cat_servers c)"
    and s: "cat_snapshot c = build_snapshot (cat_revision c) (cat_servers c) (cat_unpublished c)"
    using wf by (simp_all add: cat_wf_def)
  have r: "cat_LookupRoute c' n = (if n \<in> set toRemove then None else cat_LookupRoute c n)"
    and k: "set toRemove = set (mkeys (mget_or [] (cat_servers c) sid))"
    using cat_wf_remove [OF wf rem] by (simp_all add: s ServerToolNames_build)
  have "route_ServerID e = sid \<longleftrightarrow> n \<in> set toRemove" if l: "cat_LookupRoute c n = Some e"
  proof -
    from l obtain rt where rt: "map_of (published (cat_servers c)) n = Some rt"
      and e: "route_ServerID e = rt_serverID rt"
      by (auto simp: route_server_view [OF wf] route_of_def)
    have "rt_serverID rt = sid" if "n \<in> fst ` set (mget_or [] (cat_servers c) sid)"
    proof -
      from that obtain rt' where rt': "map_of (mget_or [] (cat_servers c) sid) n = Some rt'"
        by (cases "map_of (mget_or [] (cat_servers c) sid) n") (auto simp: map_of_eq_None_iff)
      with old_table_get [OF ok rt'] rt have eq: "rt' = rt" by simp
      have "mget_or [] (cat_servers c) sid \<noteq> []" using rt' by auto
      then have "server_ok env (sid, mget_or [] (cat_servers c) sid)"
        using tables_ok_get [OF ok, of sid] by (auto simp: mget_or_def split: option.splits)
      with map_of_SomeD [OF rt'] eq show ?thesis by (force simp: server_ok_def rt_ok_def)
    qed
    with published_entry(3) [OF ok rt] e show ?thesis by (auto simp: k)
  qed
  with r show ?thesis by auto
qed

definition ada_valid :: "catalog_env \<Rightarrow> CatalogPublisherAdapter \<Rightarrow> bool" where
  "ada_valid env a \<longleftrightarrow> sha256_hex_ok (env_sha256_hex env) \<and> cat_wf env (ada_cat a)"

definition pub_valid :: "catalog_env \<Rightarrow> ('srv, 'req) Publisher \<Rightarrow> bool" where
  "pub_valid env p \<longleftrightarrow> sha256_hex_ok (env_sha256_hex env) \<and> cat_wf env (pub_cat p)"

lemma update_error:
  assumes "UpdateServerTools env c sid raw dis = Some ((a, r, s, e), c')"
  shows "s = cat_snapshot c'" and "(e \<noteq> None) = (\<not> serverIDRegex sid)"
    and "e \<noteq> None \<Longrightarrow> c' = c"
  by (cases rule: UpdateServerTools_cases [OF assms];
      auto simp: ValidateServerID_def split: if_splits)+

lemma ada_PublishServer_Some:
  "ada_PublishServer env a sid raw dis = Some ((s, e), a') \<longleftrightarrow>
    (\<exists>x y c'. UpdateServerTools env (ada_cat a) sid raw dis = Some ((x, y, s, e), c') \<and>
       a' = a\<lparr>ada_cat := c'\<rparr>)"
  by (auto simp: ada_PublishServer_def split: option.splits prod.splits)

lemma pub_PublishServer_Some:
  "pub_PublishServer env ops p sid raw dis = Some ((s, e), p') \<longleftrightarrow>
    (\<exists>x y c'. UpdateServerTools env (pub_cat p) sid raw dis = Some ((x, y, s, e), c') \<and>
       p' = (if e \<noteq> None then p\<lparr>pub_cat := c'\<rparr>
             else p\<lparr>pub_cat := c', pub_server := fold (run_call ops) (publish_calls x y) (pub_server p)\<rparr>))"
  by (auto simp: pub_PublishServer_def Let_def split: option.splits prod.splits if_splits)

interpretation adapter: catalog_publisher "ada_valid env" "ada_PublishServer env" ada_RemoveServer
  ada_LookupRoute ada_Snapshot for env
proof
  fix p p' :: CatalogPublisherAdapter and sid raw dis and r :: "Snapshot \<times> catalog_error option" and s e
    and en :: RouteEntry and n
  assume v: "ada_valid env p"
  then have sha: "sha256_hex_ok (env_sha256_hex env)" and wf: "cat_wf env (ada_cat p)"
    by (simp_all add: ada_valid_def)
  {
    assume pb: "ada_PublishServer env p sid raw dis = Some (r, p')"
    obtain s e where "r = (s, e)" by (cases r)
    with pb obtain x y c' where u: "UpdateServerTools env (ada_cat p) sid raw dis = Some ((x, y, s, e), c')"
      and p': "p' = p\<lparr>ada_cat := c'\<rparr>"
      by (auto simp: ada_PublishServer_Some)
    show "ada_valid env p'" using cat_wf_UpdateServerTools [OF wf sha u] sha
      by (simp add: ada_valid_def p')
    show "ada_LookupRoute p' n = Some en \<longleftrightarrow> ada_LookupRoute p n = Some en"
      if "route_ServerID en \<noteq> sid"
      using update_routes_frame [OF wf sha u that] by (simp add: ada_LookupRoute_def p')
  }
  {
    assume pb: "ada_PublishServer env p sid raw dis = Some ((s, e), p')"
    then obtain x y c' where u: "UpdateServerTools env (ada_cat p) sid raw dis = Some ((x, y, s, e), c')"
      and p': "p' = p\<lparr>ada_cat := c'\<rparr>"
      by (auto simp: ada_PublishServer_Some)
    show "s = ada_Snapshot p'" using update_error(1) [OF u] by (simp add: ada_Snapshot_def p')
    show "(e \<noteq> None \<longleftrightarrow> \<not> serverIDRegex sid) \<and> (e \<noteq> None \<longrightarrow> ada_Snapshot p' = ada_Snapshot p)"
      using update_error(2,3) [OF u] by (simp add: ada_Snapshot_def p')
  }
  {
    assume rm: "ada_RemoveServer p sid = (s, p')"
    then obtain t c' where u: "RemoveServer (ada_cat p) sid = ((t, s), c')" and p': "p' = p\<lparr>ada_cat := c'\<rparr>"
      by (auto simp: ada_RemoveServer_def split: prod.splits)
    show "ada_valid env p'" using cat_wf_RemoveServer [OF wf, of sid] sha u by (simp add: ada_valid_def p')
    show "s = ada_Snapshot p'" using cat_wf_remove [OF wf u] by (simp add: ada_Snapshot_def p')
    show "ada_LookupRoute p' n = Some en \<longleftrightarrow> ada_LookupRoute p n = Some en \<and> route_ServerID en \<noteq> sid"
      using remove_routes [OF wf u] by (simp add: ada_LookupRoute_def p')
  }
qed

interpretation sdk_publisher: catalog_publisher "pub_valid env" "pub_PublishServer env ops"
  "pub_RemoveServer ops" pub_LookupRoute pub_Snapshot for env ops
proof
  fix p p' :: "('a, 'b) Publisher" and sid raw dis and r :: "Snapshot \<times> catalog_error option" and s e
    and en :: RouteEntry and n
  assume v: "pub_valid env p"
  then have sha: "sha256_hex_ok (env_sha256_hex env)" and wf: "cat_wf env (pub_cat p)"
    by (simp_all add: pub_valid_def)
  {
    assume pb: "pub_PublishServer env ops p sid raw dis = Some (r, p')"
    obtain s e where "r = (s, e)" by (cases r)
    with pb obtain x y c' where u: "UpdateServerTools env (pub_cat p) sid raw dis = Some ((x, y, s, e), c')"
      and p': "pub_cat p' = c'"
      by (auto simp: pub_PublishServer_Some)
    show "pub_valid env p'" using cat_wf_UpdateServerTools [OF wf sha u] sha
      by (simp add: pub_valid_def p')
    show "pub_LookupRoute p' n = Some en \<longleftrightarrow> pub_LookupRoute p n = Some en"
      if "route_ServerID en \<noteq> sid"
      using update_routes_frame [OF wf sha u that] by (simp add: pub_LookupRoute_def p')
  }
  {
    assume pb: "pub_PublishServer env ops p sid raw dis = Some ((s, e), p')"
    then obtain x y c' where u: "UpdateServerTools env (pub_cat p) sid raw dis = Some ((x, y, s, e), c')"
      and p': "pub_cat p' = c'"
      by (auto simp: pub_PublishServer_Some)
    show "s = pub_Snapshot p'" using update_error(1) [OF u] by (simp add: pub_Snapshot_def p')
    show "(e \<noteq> None \<longleftrightarrow> \<not> serverIDRegex sid) \<and> (e \<noteq> None \<longrightarrow> pub_Snapshot p' = pub_Snapshot p)"
      using update_error(2,3) [OF u] by (simp add: pub_Snapshot_def p')
  }
  {
    assume rm: "pub_RemoveServer ops p sid = (s, p')"
    then obtain t c' where u: "RemoveServer (pub_cat p) sid = ((t, s), c')" and p': "pub_cat p' = c'"
      by (auto simp: pub_RemoveServer_def split: prod.splits)
    show "pub_valid env p'" using cat_wf_RemoveServer [OF wf, of sid] sha u by (simp add: pub_valid_def p')
    show "s = pub_Snapshot p'" using cat_wf_remove [OF wf u] by (simp add: pub_Snapshot_def p')
    show "pub_LookupRoute p' n = Some en \<longleftrightarrow> pub_LookupRoute p n = Some en \<and> route_ServerID en \<noteq> sid"
      using remove_routes [OF wf u] by (simp add: pub_LookupRoute_def p')
  }
qed

section \<open>The registry follows the catalog\<close>

definition registry_view :: "catalog_env \<Rightarrow> 'srv sdk_ops \<Rightarrow> 'srv \<Rightarrow> string \<Rightarrow> (string + string) option" where
  "registry_view env ops srv n = map_option (env_marshal env) (sdk_tools ops srv n)"

lemma fold_add_view:
  assumes "sdk_laws ops"
  shows "registry_view env ops (fold (run_call ops) (map CallAddTool ts) srv) =
    fold (\<lambda>t m. m(tool_Name t \<mapsto> env_marshal env t)) ts (registry_view env ops srv)"
proof (induction ts arbitrary: srv)
  case Nil
  then show ?case by simp
next
  case (Cons t ts)
  have "registry_view env ops (sdk_AddTool ops t srv) =
      (registry_view env ops srv)(tool_Name t \<mapsto> env_marshal env t)"
    using assms by (auto simp: sdk_laws_def registry_view_def)
  with Cons show ?case by simp
qed

lemma publish_calls_view:
  assumes "sdk_laws ops"
  shows "registry_view env ops (fold (run_call ops) (publish_calls toAdd toRemove) srv) =
    apply_delta env toAdd toRemove (registry_view env ops srv)"
proof -
  have "registry_view env ops (sdk_RemoveTools ops ns srv) = registry_view env ops srv |` (- set ns)" for ns
    using assms by (auto simp: sdk_laws_def registry_view_def restrict_map_def)
  moreover have "m |` (- set []) = m" for m :: "string \<rightharpoonup> string + string"
    by (simp add: restrict_map_def)
  ultimately show ?thesis
    by (cases toRemove) (simp_all add: publish_calls_def fold_add_view [OF assms] apply_delta_def)
qed

text \<open>
  Publication in small steps, under \<^verbatim>\<open>publishMu\<close>: the writer updates the catalog and then issues
  its calls on the SDK server one by one; \<open>todo\<close> is \<^term>\<open>Some\<close> while the write lock is held. The
  middleware lets a \<^verbatim>\<open>tools/list\<close> request run only under the read lock, so when no writer is inside; what it
  sees is recorded with the catalog of that moment.
\<close>

record ('srv, 'req) pub_sys =
  sys_pub :: "('srv, 'req) Publisher"
  sys_todo :: "registry_call list option"
  sys_listed :: "((string \<Rightarrow> (string + string) option) \<times> Catalog) list"

inductive pub_step ::
  "catalog_env \<Rightarrow> 'srv sdk_ops \<Rightarrow> ('srv, 'req) pub_sys \<Rightarrow> ('srv, 'req) pub_sys \<Rightarrow> bool" for env ops where
  publish: "sys_todo s = None \<Longrightarrow>
    UpdateServerTools env (pub_cat (sys_pub s)) sid raw dis = Some ((toAdd, toRemove, snap, None), c') \<Longrightarrow>
    pub_step env ops s (s\<lparr>sys_pub := (sys_pub s)\<lparr>pub_cat := c'\<rparr>,
                          sys_todo := Some (publish_calls toAdd toRemove)\<rparr>)"
| remove: "sys_todo s = None \<Longrightarrow> RemoveServer (pub_cat (sys_pub s)) sid = ((toRemove, snap), c') \<Longrightarrow>
    pub_step env ops s (s\<lparr>sys_pub := (sys_pub s)\<lparr>pub_cat := c'\<rparr>,
                          sys_todo := Some (publish_calls [] toRemove)\<rparr>)"
| call: "sys_todo s = Some (c # cs) \<Longrightarrow>
    pub_step env ops s (s\<lparr>sys_pub := (sys_pub s)\<lparr>pub_server := run_call ops c (pub_server (sys_pub s))\<rparr>,
                          sys_todo := Some cs\<rparr>)"
| unlock: "sys_todo s = Some [] \<Longrightarrow> pub_step env ops s (s\<lparr>sys_todo := None\<rparr>)"
| list_tools: "sys_todo s = None \<Longrightarrow>
    pub_step env ops s (s\<lparr>sys_listed :=
      sys_listed s @ [(registry_view env ops (pub_server (sys_pub s)), pub_cat (sys_pub s))]\<rparr>)"

inductive pub_reachable ::
  "catalog_env \<Rightarrow> 'srv sdk_ops \<Rightarrow> ('srv, 'req) pub_sys \<Rightarrow> bool" for env ops where
  init: "sdk_tools ops srv = Map.empty \<Longrightarrow>
    pub_reachable env ops \<lparr>sys_pub = \<lparr>pub_server = srv, pub_cat = NewCatalog, pub_routerCallback = cb\<rparr>,
      sys_todo = None, sys_listed = []\<rparr>"
| step: "pub_reachable env ops s \<Longrightarrow> pub_step env ops s s' \<Longrightarrow> pub_reachable env ops s'"

inductive_cases pub_stepE: "pub_step env ops s s'"

text \<open>Once the outstanding calls are made, the registry shows the catalog.\<close>

definition pub_inv :: "catalog_env \<Rightarrow> 'srv sdk_ops \<Rightarrow> ('srv, 'req) pub_sys \<Rightarrow> bool" where
  "pub_inv env ops s \<longleftrightarrow>
     cat_wf env (pub_cat (sys_pub s)) \<and>
     registry_view env ops (fold (run_call ops) (case sys_todo s of None \<Rightarrow> [] | Some cs \<Rightarrow> cs)
       (pub_server (sys_pub s))) = catalog_view env (pub_cat (sys_pub s)) \<and>
     (\<forall>(v, c) \<in> set (sys_listed s). v = catalog_view env c \<and> cat_wf env c)"

lemma catalog_view_New: "catalog_view env NewCatalog = Map.empty"
  by (rule ext) (simp add: catalog_view_def GetTool_def NewCatalog_def Let_def)

lemma catalog_view_remove:
  assumes "cat_wf env c" and "RemoveServer c sid = ((toRemove, snap), c')"
  shows "catalog_view env c' = apply_delta env [] toRemove (catalog_view env c)"
  using cat_wf_remove [OF assms] by (auto simp: catalog_view_def apply_delta_def restrict_map_def)

lemma pub_inv_step:
  assumes "pub_step env ops s s'" and "pub_inv env ops s"
    and sha: "sha256_hex_ok (env_sha256_hex env)" and laws: "sdk_laws ops"
  shows "pub_inv env ops s'"
  using assms(1)
proof cases
  case (publish sid raw dis toAdd toRemove snap c')
  have wf: "cat_wf env (pub_cat (sys_pub s))" using assms(2) by (simp add: pub_inv_def)
  with publish cat_wf_delta [OF wf sha publish(3)] cat_wf_UpdateServerTools [OF wf sha publish(3)]
  show ?thesis using assms(2) by (simp add: pub_inv_def publish_calls_view [OF laws])
next
  case (remove sid toRemove snap c')
  have wf: "cat_wf env (pub_cat (sys_pub s))" using assms(2) by (simp add: pub_inv_def)
  with remove catalog_view_remove [OF wf remove(3)] cat_wf_RemoveServer [OF wf, of sid]
  show ?thesis using assms(2) by (simp add: pub_inv_def publish_calls_view [OF laws])
qed (use assms(2) in \<open>auto simp: pub_inv_def\<close>)

lemma pub_reachable_inv:
  assumes "pub_reachable env ops s"
    and "sha256_hex_ok (env_sha256_hex env)" and "sdk_laws ops"
  shows "pub_inv env ops s"
  using assms
proof (induction rule: pub_reachable.induct)
  case (init srv cb)
  then show ?case
    by (auto simp: pub_inv_def cat_wf_NewCatalog catalog_view_New registry_view_def)
next
  case (step s s')
  then show ?case by (blast intro: pub_inv_step)
qed

text \<open>A publication that has updated the catalog can always finish and give the lock back.\<close>

lemma pub_finish:
  "pub_reachable env ops s \<Longrightarrow> sys_todo s = Some cs \<Longrightarrow>
   pub_reachable env ops (s\<lparr>sys_pub := (sys_pub s)\<lparr>pub_server := fold (run_call ops) cs (pub_server (sys_pub s))\<rparr>,
     sys_todo := None\<rparr>)"
proof (induction cs arbitrary: s)
  case Nil
  then show ?case using pub_reachable.step [OF Nil(1) pub_step.unlock [OF Nil(2)]] by simp
next
  case (Cons c cs)
  from Cons.IH [OF pub_reachable.step [OF Cons.prems(1) pub_step.call [OF Cons.prems(2)]]]
  show ?case by simp
qed

text \<open>
  C5. A \<^verbatim>\<open>tools/list\<close> request never sees a partial publication: whatever updates and removals run, every
  listing shows exactly the encoded definitions of one well-formed catalog, the current one at that
  moment.
\<close>

theorem tools_list_atomic:
  assumes "pub_reachable env ops s" and "sha256_hex_ok (env_sha256_hex env)" and "sdk_laws ops"
    and "(v, c) \<in> set (sys_listed s)"
  shows "v = catalog_view env c \<and> cat_wf env c"
  using pub_reachable_inv [OF assms(1-3)] assms(4) by (auto simp: pub_inv_def)

text \<open>
  Whenever no publication is under way, a name is registered on the MCP server exactly when the
  catalog routes it, so every listed tool can be routed and every routable tool is listed.
\<close>

theorem registered_iff_routed:
  assumes "pub_reachable env ops s" and "sha256_hex_ok (env_sha256_hex env)" and "sdk_laws ops"
    and "sys_todo s = None"
  shows "sdk_tools ops (pub_server (sys_pub s)) n \<noteq> None \<longleftrightarrow> pub_LookupRoute (sys_pub s) n \<noteq> None"
proof -
  note inv = pub_reachable_inv [OF assms(1-3)]
  then have "registry_view env ops (pub_server (sys_pub s)) n = catalog_view env (pub_cat (sys_pub s)) n"
    using assms(4) by (simp add: pub_inv_def)
  then have "sdk_tools ops (pub_server (sys_pub s)) n \<noteq> None \<longleftrightarrow>
      GetTool (cat_snapshot (pub_cat (sys_pub s))) n \<noteq> None"
    by (cases "sdk_tools ops (pub_server (sys_pub s)) n";
        cases "GetTool (cat_snapshot (pub_cat (sys_pub s))) n")
      (simp_all add: registry_view_def catalog_view_def)
  also have "\<dots> \<longleftrightarrow> cat_LookupRoute (pub_cat (sys_pub s)) n \<noteq> None"
    using inv by (intro cat_wf_route_iff [of env]) (simp add: pub_inv_def)
  finally show ?thesis by (simp add: pub_LookupRoute_def)
qed

text \<open>
  Routes only ever lead to servers that were published and not removed since: after any sequence of
  publications and removals on the default publisher, starting from an empty catalog.
\<close>

theorem routes_only_live_servers:
  assumes "sha256_hex_ok (env_sha256_hex env)"
    and "adapter.run env ops (NewCatalogPublisher None) = Some a"
    and "ada_LookupRoute a n = Some e"
  shows "route_ServerID e \<in> live_servers {} ops"
proof (rule adapter.run_live [OF _ assms(2) _ assms(3)])
  show "ada_valid env (NewCatalogPublisher None)"
    using assms(1) by (simp add: ada_valid_def NewCatalogPublisher_def cat_wf_NewCatalog)
  show "\<forall>n e. ada_LookupRoute (NewCatalogPublisher None) n = Some e \<longrightarrow> route_ServerID e \<in> {}"
    by (simp add: ada_LookupRoute_def cat_LookupRoute_def NewCatalogPublisher_def NewCatalog_def LookupRoute_def)
qed

section \<open>Witnesses\<close>

definition map_sdk :: "(string, tool) gomap sdk_ops" where
  "map_sdk = \<lparr>sdk_AddTool = (\<lambda>t m. mput (tool_Name t) t m),
     sdk_RemoveTools = (\<lambda>ns m. filter (\<lambda>p. fst p \<notin> set ns) m), sdk_tools = map_of\<rparr>"

lemma map_sdk_laws: "sdk_laws map_sdk"
proof -
  have "map_of (filter (\<lambda>p. fst p \<notin> set ns) m) = map_of m |` (- set ns)" for ns and m :: "(string, tool) gomap"
    by (induction m) (auto simp: restrict_map_def fun_eq_iff)
  then show ?thesis by (simp add: sdk_laws_def map_sdk_def)
qed

definition demo_sys0 :: "((string, tool) gomap, unit) pub_sys" where
  "demo_sys0 = \<lparr>sys_pub = \<lparr>pub_server = [], pub_cat = NewCatalog, pub_routerCallback = None\<rparr>,
     sys_todo = None, sys_listed = []\<rparr>"

definition demo_sys1 :: "((string, tool) gomap, unit) pub_sys" where
  "demo_sys1 = demo_sys0\<lparr>sys_listed := [(registry_view demo_env map_sdk [], NewCatalog)]\<rparr>"

lemma demo_sys0_reachable: "pub_reachable demo_env map_sdk demo_sys0"
  unfolding demo_sys0_def by (rule pub_reachable.init) (simp add: map_sdk_def)

lemma demo_sys1_reachable: "pub_reachable demo_env map_sdk demo_sys1"
proof -
  have "pub_step demo_env map_sdk demo_sys0 demo_sys1"
    using pub_step.list_tools [of demo_sys0 demo_env map_sdk] by (simp add: demo_sys1_def demo_sys0_def)
  with demo_sys0_reachable show ?thesis by (rule pub_reachable.step)
qed

theorem tools_list_atomic_witness:
  "registry_view demo_env map_sdk [] = catalog_view demo_env NewCatalog \<and> cat_wf demo_env NewCatalog"
  by (rule tools_list_atomic [OF demo_sys1_reachable demo_env_sha map_sdk_laws])
    (simp add: demo_sys1_def)

definition demo_sys2 :: "((string, tool) gomap, unit) pub_sys" where
  "demo_sys2 = demo_sys0\<lparr>sys_pub := \<lparr>pub_server = fold (run_call map_sdk)
       (publish_calls (fst (fst demo_update)) (fst (snd (fst demo_update)))) [],
     pub_cat = snd demo_update, pub_routerCallback = None\<rparr>\<rparr>"

lemma demo_sys2_reachable: "pub_reachable demo_env map_sdk demo_sys2"
proof -
  have "snd (snd (snd (fst demo_update))) = None" by code_simp
  then have u: "UpdateServerTools demo_env (pub_cat (sys_pub demo_sys0)) ''fs''
     [Some (demo_tool ''read'' ''x''), Some (demo_tool ''a b'' ''y''), Some (demo_tool ''rm'' ''z'')]
     [''rm''] = Some ((fst (fst demo_update), fst (snd (fst demo_update)),
       fst (snd (snd (fst demo_update))), None), snd demo_update)"
    using demo_update_eq by (simp add: demo_sys0_def) (metis prod.collapse)
  have "sys_todo demo_sys0 = None" by (simp add: demo_sys0_def)
  from pub_finish [OF pub_reachable.step [OF demo_sys0_reachable pub_step.publish [OF this u]]]
  show ?thesis by (simp add: demo_sys2_def demo_sys0_def)
qed

theorem registered_iff_routed_witness:
  "sdk_tools map_sdk (pub_server (sys_pub demo_sys2)) ''fs__read'' \<noteq> None \<and>
   pub_LookupRoute (sys_pub demo_sys2) ''fs__read'' \<noteq> None"
proof -
  have "sdk_tools map_sdk (pub_server (sys_pub demo_sys2)) ''fs__read'' \<noteq> None"
    by code_simp
  with registered_iff_routed [OF demo_sys2_reachable demo_env_sha map_sdk_laws, of "''fs__read''"]
  show ?thesis by (simp add: demo_sys2_def demo_sys0_def)
qed

theorem routes_only_live_servers_witness:
  "\<exists>a. adapter.run demo_env [OpPublish ''fs'' [Some (demo_tool ''read'' ''x'')] []] (NewCatalogPublisher None) = Some a \<and>
     ada_LookupRoute a ''fs__read'' \<noteq> None \<and>
     (\<forall>e. ada_LookupRoute a ''fs__read'' = Some e \<longrightarrow> route_ServerID e \<in> {''fs''})"
proof -
  let ?ops = "[OpPublish ''fs'' [Some (demo_tool ''read'' ''x'')] []]"
  have "map_option (\<lambda>r. ada_LookupRoute (snd r) ''fs__read'')
      (ada_PublishServer demo_env (NewCatalogPublisher None) ''fs'' [Some (demo_tool ''read'' ''x'')] []) =
    Some (Some \<lparr>route_PublicName = ''fs__read'', route_ServerID = ''fs'', route_OriginalName = ''read''\<rparr>)"
    by code_simp
  then obtain r a where "ada_PublishServer demo_env (NewCatalogPublisher None) ''fs''
      [Some (demo_tool ''read'' ''x'')] [] = Some (r, a)"
    and l: "ada_LookupRoute a ''fs__read'' =
      Some \<lparr>route_PublicName = ''fs__read'', route_ServerID = ''fs'', route_OriginalName = ''read''\<rparr>"
    by auto
  then have "adapter.run demo_env ?ops (NewCatalogPublisher None) = Some a" by simp
  with l routes_only_live_servers [OF demo_env_sha this] show ?thesis by fastforce
qed

end
