(* ===== verification/Discovery.thy ===== *)
theory Discovery
  imports Validation
begin

text \<open>
  Tool discovery: the paging loop of a downstream session (\<^verbatim>\<open>internal/downstream/session.go\<close>:
  \<^verbatim>\<open>fetchPages\<close>, \<^verbatim>\<open>ListAllTools\<close>, \<^verbatim>\<open>handleToolListChanged\<close>, \<^verbatim>\<open>Close\<close>) and the catalog's own
  collector (\<^verbatim>\<open>internal/catalog/pagination.go\<close>: \<^verbatim>\<open>CollectDownstreamTools\<close>).

  The SDK client is a parameter: \<open>list page cursor\<close> is the answer to the request for
  page number \<open>page\<close>, so the server may answer differently each time. What the loop reads of
  concurrently changing state (\<^verbatim>\<open>IsClosed\<close>, \<^verbatim>\<open>ctx.Done\<close>) is likewise a function of the page
  number.
\<close>

section \<open>Errors\<close>

datatype discovery_error =
    DErrNilFetcher
  | DErrContext string
  | DErrSessionClosed
  | DErrTooManyPages
  | DErrFetch string
  | DErrEmptyToolName
  | DErrDuplicateToolName string
  | DErrEncoding
  | DErrTooLarge
  | DErrDuplicateCursor string

section \<open>The session's paging loop\<close>

type_synonym page_answer = "tool option list \<times> string"

definition MaxDiscoveredTools :: nat where "MaxDiscoveredTools = 4096"

text \<open>The loop over the tools of one page; its state is \<^verbatim>\<open>allTools, discoveryBytes, seenNames\<close>.\<close>

fun fetch_tools ::
  "(tool \<Rightarrow> string + string) \<Rightarrow> tool option list \<Rightarrow> tool list \<times> nat \<times> (string, unit) gomap \<Rightarrow>
   discovery_error + tool list \<times> nat \<times> (string, unit) gomap" where
  "fetch_tools marshal [] st = Inr st"
| "fetch_tools marshal (None # ts) st = fetch_tools marshal ts st"
| "fetch_tools marshal (Some t # ts) (allTools, bytes, seenNames) =
     (if mhas seenNames (tool_Name t) then Inl (DErrDuplicateToolName (tool_Name t))
      else case marshal t of
             Inl e \<Rightarrow> Inl DErrEncoding
           | Inr encoded \<Rightarrow>
               (if length allTools \<ge> MaxDiscoveredTools \<or>
                   bytes + length encoded > MaxCatalogJSONBytes
                then Inl DErrTooLarge
                else fetch_tools marshal ts
                       (allTools @ [t], bytes + length encoded, mput (tool_Name t) () seenNames)))"

function fetch_loop ::
  "(tool \<Rightarrow> string + string) \<Rightarrow> (nat \<Rightarrow> bool) \<Rightarrow> (nat \<Rightarrow> string \<Rightarrow> string + page_answer option) \<Rightarrow>
   nat \<Rightarrow> string \<Rightarrow> (string, unit) gomap \<Rightarrow> tool list \<times> nat \<times> (string, unit) gomap \<Rightarrow>
   discovery_error + tool list" where
  "fetch_loop marshal isClosed list page cursor seenCursors st =
     (if page \<ge> MaxPaginationPages then Inl DErrTooManyPages
      else if isClosed page then Inl DErrSessionClosed
      else case list page cursor of
        Inl e \<Rightarrow> Inl (DErrFetch e)
      | Inr None \<Rightarrow> Inr (fst st)
      | Inr (Some (tools, nextCursor)) \<Rightarrow>
          (case fetch_tools marshal tools st of
             Inl e \<Rightarrow> Inl e
           | Inr st' \<Rightarrow>
               (if nextCursor = [] then Inr (fst st')
                else if mhas seenCursors nextCursor then Inl (DErrDuplicateCursor nextCursor)
                else if nextCursor = cursor then Inl (DErrDuplicateCursor nextCursor)
                else fetch_loop marshal isClosed list (page + 1) nextCursor
                       (mput nextCursor () seenCursors) st')))"
  by pat_completeness auto
termination
  by (relation "measure (\<lambda>(_, _, _, page, _). MaxPaginationPages - page)") auto

declare fetch_loop.simps [simp del]

definition fetchPages ::
  "(tool \<Rightarrow> string + string) \<Rightarrow> (nat \<Rightarrow> bool) \<Rightarrow> (nat \<Rightarrow> string \<Rightarrow> string + page_answer option) \<Rightarrow>
   discovery_error + tool list" where
  "fetchPages marshal isClosed list = fetch_loop marshal isClosed list 0 [] [] ([], 0, [])"

section \<open>Notifications\<close>

text \<open>
  The part of the session's state that notifications and closing change: the flags, the 64-bit
  counter and the fill of the two buffered channels (capacity 16, sends never block).
\<close>

record Session_state =
  ses_closed :: bool
  ses_dirty :: bool
  ses_dirtyCount :: "64 word"
  ses_callbackCh :: nat
  ses_changeCh :: nat
  ses_rawCloses :: nat

definition new_session :: Session_state where
  "new_session = \<lparr>ses_closed = False, ses_dirty = False, ses_dirtyCount = 0, ses_callbackCh = 0,
     ses_changeCh = 0, ses_rawCloses = 0\<rparr>"

definition try_send :: "nat \<Rightarrow> nat" where
  "try_send n = (if n < 16 then n + 1 else n)"

definition handleToolListChanged :: "Session_state \<Rightarrow> Session_state" where
  "handleToolListChanged s =
     s\<lparr>ses_dirty := True, ses_dirtyCount := ses_dirtyCount s + 1,
       ses_callbackCh := try_send (ses_callbackCh s), ses_changeCh := try_send (ses_changeCh s)\<rparr>"

definition ClearDirty :: "Session_state \<Rightarrow> bool \<times> Session_state" where
  "ClearDirty s = (ses_dirty s, s\<lparr>ses_dirty := False\<rparr>)"

text \<open>\<^verbatim>\<open>closeOnce\<close> runs the body once; it closes the SDK session.\<close>

definition ses_Close :: "Session_state \<Rightarrow> Session_state" where
  "ses_Close s =
     (if ses_closed s then s else s\<lparr>ses_closed := True, ses_rawCloses := ses_rawCloses s + 1\<rparr>)"

text \<open>
  \<^verbatim>\<open>ListAllTools\<close>: \<open>n1\<close> and \<open>n2\<close> notifications arrive while the first and the second pass
  run; each pass has its own answers.
\<close>

record pass =
  pass_isClosed :: "nat \<Rightarrow> bool"
  pass_list :: "nat \<Rightarrow> string \<Rightarrow> string + page_answer option"
  pass_notifications :: nat

definition ListAllTools ::
  "(tool \<Rightarrow> string + string) \<Rightarrow> pass \<Rightarrow> pass \<Rightarrow> Session_state \<Rightarrow>
   (discovery_error + tool list) \<times> Session_state" where
  "ListAllTools marshal p1 p2 s =
     (if ses_closed s then (Inl DErrSessionClosed, s)
      else
        let s1 = (handleToolListChanged ^^ pass_notifications p1) (snd (ClearDirty s))
        in case fetchPages marshal (pass_isClosed p1) (pass_list p1) of
             Inl e \<Rightarrow> (Inl e, s1)
           | Inr tools \<Rightarrow>
               (if \<not> ses_dirty s1 then (Inr tools, s1)
                else
                  let s2 = (handleToolListChanged ^^ pass_notifications p2) (snd (ClearDirty s1))
                  in (fetchPages marshal (pass_isClosed p2) (pass_list p2), s2)))"

section \<open>The catalog's collector\<close>

fun collect_tools ::
  "tool option list \<Rightarrow> tool list \<times> (string, bool) gomap \<Rightarrow>
   discovery_error + tool list \<times> (string, bool) gomap" where
  "collect_tools [] st = Inr st"
| "collect_tools (None # ts) st = collect_tools ts st"
| "collect_tools (Some t # ts) (allTools, seen) =
     (if tool_Name t = [] then Inl DErrEmptyToolName
      else if mget_or False seen (tool_Name t) then Inl (DErrDuplicateToolName (tool_Name t))
      else collect_tools ts (allTools @ [t], mput (tool_Name t) True seen))"

text \<open>\<open>n\<close> iterations of \<^verbatim>\<open>for page := 1; page <= MaxPaginationPages; page++\<close> are left.\<close>

fun collect_loop ::
  "nat \<Rightarrow> (nat \<Rightarrow> string option) \<Rightarrow> (nat \<Rightarrow> string \<Rightarrow> string + page_answer) \<Rightarrow> nat \<Rightarrow> string \<Rightarrow>
   (string, bool) gomap \<Rightarrow> tool list \<times> (string, bool) gomap \<Rightarrow> discovery_error + tool list" where
  "collect_loop 0 ctxErr fetch page cursor seenCursors st = Inl DErrTooManyPages"
| "collect_loop (Suc n) ctxErr fetch page cursor seenCursors st =
     (case ctxErr page of
        Some e \<Rightarrow> Inl (DErrContext e)
      | None \<Rightarrow>
          (case fetch page cursor of
             Inl e \<Rightarrow> Inl (DErrFetch e)
           | Inr (tools, nextCursor) \<Rightarrow>
               (case collect_tools tools st of
                  Inl e \<Rightarrow> Inl e
                | Inr st' \<Rightarrow>
                    (if nextCursor = [] then Inr (fst st')
                     else if mget_or False seenCursors nextCursor
                     then Inl (DErrDuplicateCursor nextCursor)
                     else collect_loop n ctxErr fetch (page + 1) nextCursor
                            (mput nextCursor True seenCursors) st'))))"

definition CollectDownstreamTools ::
  "(nat \<Rightarrow> string option) \<Rightarrow> (nat \<Rightarrow> string \<Rightarrow> string + page_answer) option \<Rightarrow>
   discovery_error + tool list" where
  "CollectDownstreamTools ctxErr fetcher =
     (case fetcher of
        None \<Rightarrow> Inl DErrNilFetcher
      | Some fetch \<Rightarrow> collect_loop MaxPaginationPages ctxErr fetch 1 [] [] ([], []))"

section \<open>Specification of a complete discovery\<close>

abbreviation somes :: "'a option list \<Rightarrow> 'a list" where
  "somes xs \<equiv> concat (map (\<lambda>x. case x of None \<Rightarrow> [] | Some v \<Rightarrow> [v]) xs)"

text \<open>
  The pages that a server serves from page number \<open>p\<close> and a cursor on, each following the cursor of
  the one before, up to the one without a next cursor (or a nil result).
\<close>

inductive served ::
  "(nat \<Rightarrow> bool) \<Rightarrow> (nat \<Rightarrow> string \<Rightarrow> string + page_answer option) \<Rightarrow> nat \<Rightarrow> string \<Rightarrow>
   page_answer list \<Rightarrow> bool" for isClosed list where
  nil: "p < MaxPaginationPages \<Longrightarrow> \<not> isClosed p \<Longrightarrow> list p cur = Inr None \<Longrightarrow>
    served isClosed list p cur []"
| final: "p < MaxPaginationPages \<Longrightarrow> \<not> isClosed p \<Longrightarrow> list p cur = Inr (Some (ts, [])) \<Longrightarrow>
    served isClosed list p cur [(ts, [])]"
| more: "p < MaxPaginationPages \<Longrightarrow> \<not> isClosed p \<Longrightarrow> list p cur = Inr (Some (ts, nxt)) \<Longrightarrow>
    nxt \<noteq> [] \<Longrightarrow> served isClosed list (p + 1) nxt ps \<Longrightarrow> served isClosed list p cur ((ts, nxt) # ps)"

inductive_cases servedE: "served isClosed list p cur ps"

abbreviation next_cursors :: "page_answer list \<Rightarrow> string list" where
  "next_cursors ps \<equiv> filter (\<lambda>c. c \<noteq> []) (map snd ps)"

definition encoded_size :: "(tool \<Rightarrow> string + string) \<Rightarrow> tool \<Rightarrow> nat" where
  "encoded_size marshal t = (case marshal t of Inl _ \<Rightarrow> 0 | Inr b \<Rightarrow> length b)"

definition acceptable :: "(tool \<Rightarrow> string + string) \<Rightarrow> tool list \<Rightarrow> bool" where
  "acceptable marshal ts \<longleftrightarrow>
     distinct (map tool_Name ts) \<and> (\<forall>t \<in> set ts. \<exists>b. marshal t = Inr b) \<and>
     length ts \<le> MaxDiscoveredTools \<and> (\<Sum>t\<leftarrow>ts. encoded_size marshal t) \<le> MaxCatalogJSONBytes"

section \<open>Facts\<close>

text \<open>The state of the inner loop is determined by the tools taken so far.\<close>

definition taken :: "(tool \<Rightarrow> string + string) \<Rightarrow> tool list \<Rightarrow> tool list \<times> nat \<times> (string, unit) gomap" where
  "taken marshal ts = (ts, \<Sum>t\<leftarrow>ts. encoded_size marshal t, map (\<lambda>t. (tool_Name t, ())) ts)"

lemma fst_taken [simp]: "fst (taken marshal ts) = ts"
  by (simp add: taken_def)

lemma acceptable_prefix: "acceptable marshal (xs @ ys) \<Longrightarrow> acceptable marshal xs"
  by (auto simp: acceptable_def)

lemma fetch_tools_taken:
  assumes "acceptable marshal acc"
  shows "fetch_tools marshal ts (taken marshal acc) = Inr st \<longleftrightarrow>
    acceptable marshal (acc @ somes ts) \<and> st = taken marshal (acc @ somes ts)"
  using assms
proof (induction ts arbitrary: acc)
  case Nil
  then show ?case by auto
next
  case (Cons x ts)
  show ?case
  proof (cases x)
    case None
    with Cons show ?thesis by (simp add: taken_def)
  next
    case (Some t)
    show ?thesis
    proof (cases "acceptable marshal (acc @ [t])")
      case True
      then obtain b where "marshal t = Inr b" by (auto simp: acceptable_def)
      with True have "fetch_tools marshal (x # ts) (taken marshal acc) =
          fetch_tools marshal ts (taken marshal (acc @ [t]))"
        by (auto simp: Some taken_def acceptable_def encoded_size_def mput_fresh image_iff)
      with Cons.IH [OF True] show ?thesis by (simp add: Some)
    next
      case False
      then have "\<not> acceptable marshal (acc @ somes (x # ts))"
        using acceptable_prefix [of marshal "acc @ [t]" "somes ts"] by (auto simp: Some)
      moreover have "fetch_tools marshal (x # ts) (taken marshal acc) \<noteq> Inr st"
        using False Cons.prems
        by (auto simp: Some taken_def acceptable_def encoded_size_def image_image split: sum.splits)
      ultimately show ?thesis by blast
    qed
  qed
qed

lemma fetch_loop_served:
  assumes "acceptable marshal acc" and "cur = [] \<or> mhas seenC cur"
  shows "fetch_loop marshal isClosed list p cur seenC (taken marshal acc) = Inr tools \<longleftrightarrow>
    (\<exists>ps. served isClosed list p cur ps \<and> distinct (next_cursors ps) \<and>
       set (next_cursors ps) \<inter> fst ` set seenC = {} \<and>
       tools = acc @ somes (concat (map fst ps)) \<and> acceptable marshal tools)"
    (is "?lhs p cur seenC acc \<longleftrightarrow> (\<exists>ps. ?ok p cur seenC acc ps)")
  using assms
proof (induction "MaxPaginationPages - p" arbitrary: p cur seenC acc rule: less_induct)
  case less
  note unfold = fetch_loop.simps [of marshal isClosed list p cur seenC "taken marshal acc"]
  consider (stop) "p \<ge> MaxPaginationPages \<or> isClosed p \<or> (\<exists>e. list p cur = Inl e)"
    | (nil) "p < MaxPaginationPages" "\<not> isClosed p" "list p cur = Inr None"
    | (page) ts nxt where "p < MaxPaginationPages" "\<not> isClosed p" "list p cur = Inr (Some (ts, nxt))"
    by (metis leI old.sum.exhaust option.exhaust surj_pair)
  then show ?case
  proof cases
    case stop
    moreover from this have "\<not> served isClosed list p cur ps" for ps
      by (auto elim: servedE)
    ultimately show ?thesis by (auto simp: unfold)
  next
    case nil
    moreover from this have "served isClosed list p cur ps \<longleftrightarrow> ps = []" for ps
      by (auto elim: servedE intro: served.intros)
    ultimately show ?thesis using less.prems(1) by (auto simp: unfold)
  next
    case (page ts nxt)
    have srv: "served isClosed list p cur ps \<longleftrightarrow>
        (if nxt = [] then ps = [(ts, [])]
         else \<exists>qs. ps = (ts, nxt) # qs \<and> served isClosed list (p + 1) nxt qs)" for ps
      using page by (auto elim: servedE intro: served.intros)
    show ?thesis
    proof (cases "acceptable marshal (acc @ somes ts)")
      case False
      then have "\<not> (fetch_tools marshal ts (taken marshal acc) = Inr st)" for st
        using fetch_tools_taken [OF less.prems(1)] by auto
      then have "\<not> ?lhs p cur seenC acc"
        using page by (auto simp: unfold split: sum.splits)
      moreover have "\<not> ?ok p cur seenC acc ps" for ps
        using False acceptable_prefix [of marshal "acc @ somes ts"]
        by (auto simp: srv split: if_splits)
      ultimately show ?thesis by blast
    next
      case True
      then have ft: "fetch_tools marshal ts (taken marshal acc) = Inr (taken marshal (acc @ somes ts))"
        using fetch_tools_taken [OF less.prems(1)] by auto
      show ?thesis
      proof (cases "nxt = [] \<or> mhas seenC nxt")
        case stop: True
        with page ft True less.prems(2) show ?thesis
          by (cases "nxt = []") (auto simp: unfold srv)
      next
        case False
        then have "nxt \<noteq> cur" using less.prems(2) by auto
        then have "?lhs p cur seenC acc \<longleftrightarrow> ?lhs (p + 1) nxt (mput nxt () seenC) (acc @ somes ts)"
          using page ft False by (simp add: unfold)
        also have "\<dots> \<longleftrightarrow> (\<exists>ps. ?ok (p + 1) nxt (mput nxt () seenC) (acc @ somes ts) ps)"
          using page True by (intro less.hyps) (auto simp: AList.dom_update)
        also have "\<dots> \<longleftrightarrow> (\<exists>qs. ?ok p cur seenC acc ((ts, nxt) # qs))"
        proof -
          have "?ok (p + 1) nxt (mput nxt () seenC) (acc @ somes ts) qs \<longleftrightarrow>
              ?ok p cur seenC acc ((ts, nxt) # qs)" for qs
            using False by (auto simp: srv AList.dom_update)
          then show ?thesis by blast
        qed
        also have "\<dots> \<longleftrightarrow> (\<exists>ps. ?ok p cur seenC acc ps)"
        proof -
          have "\<exists>qs. ps = (ts, nxt) # qs" if "served isClosed list p cur ps" for ps
            using that False by (simp add: srv) blast
          then show ?thesis by blast
        qed
        finally show ?thesis .
      qed
    qed
  qed
qed

section \<open>Discovery is exact\<close>

lemma fetchPages_served:
  "fetchPages marshal isClosed list = Inr tools \<longleftrightarrow>
    (\<exists>ps. served isClosed list 0 [] ps \<and> distinct (next_cursors ps) \<and>
       tools = somes (concat (map fst ps)) \<and> acceptable marshal tools)"
proof -
  have "acceptable marshal []" by (simp add: acceptable_def)
  from fetch_loop_served [OF this, of "[]" "[]" isClosed list 0 tools] show ?thesis
    by (simp add: fetchPages_def taken_def)
qed

text \<open>
  C6. A session's discovery returns a list of tools exactly when the server serves a chain of at most
  64 pages with pairwise different cursors; the list is then the concatenation of the pages
  without nil entries, and its names are pairwise different, every definition can be
  encoded, there are at most 4096 of them and their encodings have at most 8 MiB. In every other case
  the result is an error.
\<close>

theorem fetchPages_exact:
  "fetchPages marshal isClosed list = Inr tools \<longleftrightarrow>
    (\<exists>ps. served isClosed list 0 [] ps \<and> distinct (next_cursors ps) \<and>
       tools = somes (concat (map fst ps)) \<and> acceptable marshal tools)"
  by (rule fetchPages_served)

lemma fetch_loop_bounded:
  assumes "\<forall>p c. p < MaxPaginationPages \<longrightarrow> list p c = list' p c"
  shows "fetch_loop marshal isClosed list page cursor seenC st = fetch_loop marshal isClosed list' page cursor seenC st"
  using assms
proof (induction marshal isClosed list page cursor seenC st rule: fetch_loop.induct)
  case (1 marshal isClosed list page cursor seenC st)
  show ?case
  proof (cases "page \<ge> MaxPaginationPages \<or> isClosed page")
    case True
    then show ?thesis by (auto simp: fetch_loop.simps [of _ _ _ page])
  next
    case False
    with 1 show ?thesis
      by (auto simp: fetch_loop.simps [of _ _ _ page] split: sum.splits option.splits prod.splits)
  qed
qed

text \<open>
  Discovery ends, whatever the server answers: only the first 64 pages are ever asked for. A server that keeps
  handing out fresh cursors, and so has no last page, gets the same treatment as one that stops answering there.
\<close>

theorem fetchPages_terminates:
  assumes "\<forall>p c. p < MaxPaginationPages \<longrightarrow> list p c = list' p c"
  shows "fetchPages marshal isClosed list = fetchPages marshal isClosed list'"
  unfolding fetchPages_def by (rule fetch_loop_bounded [OF assms])

definition endless :: "nat \<Rightarrow> string \<Rightarrow> string + page_answer option" where
  "endless p c = Inr (Some ([], CHR ''x'' # c))"

theorem fetchPages_terminates_witness:
  "fetchPages (\<lambda>_. Inr []) (\<lambda>_. False) endless =
   fetchPages (\<lambda>_. Inr []) (\<lambda>_. False) (\<lambda>p c. if p < MaxPaginationPages then endless p c else Inl ''gone'')"
  by (rule fetchPages_terminates) simp

lemma notifications_dirty: "ses_dirty ((handleToolListChanged ^^ n) s) \<longleftrightarrow> ses_dirty s \<or> n > 0"
  by (induction n) (auto simp: handleToolListChanged_def)

lemma notifications_closed [simp]: "ses_closed ((handleToolListChanged ^^ n) s) = ses_closed s"
  by (induction n) (auto simp: handleToolListChanged_def)

text \<open>
  No change notification is lost: when \<^verbatim>\<open>ListAllTools\<close> returns a list, either the dirty flag is
  set afterwards, so the change is pending for the next round, or the list was fetched by a pass
  during which no notification arrived.
\<close>

theorem ListAllTools_no_lost_change:
  assumes "ListAllTools marshal p1 p2 s = (Inr tools, s')"
  shows "ses_dirty s' \<or>
    (pass_notifications p1 = 0 \<and> fetchPages marshal (pass_isClosed p1) (pass_list p1) = Inr tools) \<or>
    (pass_notifications p2 = 0 \<and> fetchPages marshal (pass_isClosed p2) (pass_list p2) = Inr tools)"
  using assms
  by (auto simp: ListAllTools_def ClearDirty_def Let_def notifications_dirty
      split: if_splits sum.splits)

section \<open>The collector\<close>

definition marked :: "string list \<Rightarrow> (string, bool) gomap" where
  "marked ns = map (\<lambda>n. (n, True)) ns"

lemma marked_Nil [simp]: "marked [] = []"
  by (simp add: marked_def)

lemma marked_get [simp]: "mget_or False (marked ns) n \<longleftrightarrow> n \<in> set ns"
  by (induction ns) (auto simp: marked_def mget_or_def split: option.splits)

lemma marked_put [simp]: "n \<notin> set ns \<Longrightarrow> mput n True (marked ns) = marked (ns @ [n])"
  by (subst mput_fresh) (auto simp: marked_def)

definition well_named :: "tool list \<Rightarrow> bool" where
  "well_named ts \<longleftrightarrow> distinct (map tool_Name ts) \<and> [] \<notin> tool_Name ` set ts"

lemma well_named_prefix: "well_named (xs @ ys) \<Longrightarrow> well_named xs"
  by (auto simp: well_named_def)

lemma collect_tools_eq:
  assumes "well_named acc"
  shows "collect_tools ts (acc, marked (map tool_Name acc)) = Inr st \<longleftrightarrow>
    well_named (acc @ somes ts) \<and> st = (acc @ somes ts, marked (map tool_Name (acc @ somes ts)))"
  using assms
proof (induction ts arbitrary: acc)
  case Nil
  then show ?case by auto
next
  case (Cons x ts)
  show ?case
  proof (cases x)
    case None
    with Cons show ?thesis by simp
  next
    case (Some t)
    show ?thesis
    proof (cases "well_named (acc @ [t])")
      case True
      then have "tool_Name t \<noteq> []" "tool_Name t \<notin> set (map tool_Name acc)"
        by (auto simp: well_named_def)
      with Cons.IH [OF True] show ?thesis by (simp add: Some del: set_map)
    next
      case False
      then have "tool_Name t = [] \<or> tool_Name t \<in> set (map tool_Name acc)"
        using Cons.prems by (auto simp: well_named_def)
      then show ?thesis using False by (auto simp: Some well_named_def simp del: set_map)
    qed
  qed
qed

definition fetch_pages :: "(nat \<Rightarrow> string \<Rightarrow> string + page_answer) \<Rightarrow> nat \<Rightarrow> string \<Rightarrow> string + page_answer option" where
  "fetch_pages fetch p c = (case fetch (p + 1) c of Inl e \<Rightarrow> Inl e | Inr a \<Rightarrow> Inr (Some a))"

definition ctx_done :: "(nat \<Rightarrow> string option) \<Rightarrow> nat \<Rightarrow> bool" where
  "ctx_done ctxErr p \<longleftrightarrow> ctxErr (p + 1) \<noteq> None"

lemma collect_loop_served:
  assumes "well_named acc" and "p + n = MaxPaginationPages"
  shows "collect_loop n ctxErr fetch (p + 1) cur (marked cs) (acc, marked (map tool_Name acc)) = Inr tools \<longleftrightarrow>
    (\<exists>ps. served (ctx_done ctxErr) (fetch_pages fetch) p cur ps \<and> distinct (next_cursors ps) \<and>
       set (next_cursors ps) \<inter> set cs = {} \<and> tools = acc @ somes (concat (map fst ps)) \<and>
       well_named tools)"
    (is "?lhs n p cur cs acc \<longleftrightarrow> (\<exists>ps. ?ok p cur cs acc ps)")
  using assms
proof (induction n arbitrary: p cur cs acc)
  case 0
  then show ?case by (auto elim: servedE)
next
  case (Suc n)
  show ?case
  proof (cases "\<exists>ts nxt. ctxErr (p + 1) = None \<and> fetch (p + 1) cur = Inr (ts, nxt)")
    case False
    then have "\<not> ?lhs (Suc n) p cur cs acc" by (auto split: option.splits sum.splits)
    moreover have "\<not> served (ctx_done ctxErr) (fetch_pages fetch) p cur ps" for ps
      using False by (cases "fetch (p + 1) cur") (auto simp: fetch_pages_def ctx_done_def elim: servedE)
    ultimately show ?thesis by blast
  next
    case True
    then obtain ts nxt where page: "ctxErr (p + 1) = None" "fetch (p + 1) cur = Inr (ts, nxt)" by blast
    have srv: "served (ctx_done ctxErr) (fetch_pages fetch) p cur ps \<longleftrightarrow>
        (if nxt = [] then ps = [(ts, [])]
         else \<exists>qs. ps = (ts, nxt) # qs \<and> served (ctx_done ctxErr) (fetch_pages fetch) (p + 1) nxt qs)" for ps
      using page Suc.prems(2)
      by (auto simp: fetch_pages_def ctx_done_def elim: servedE intro: served.intros)
    show ?thesis
    proof (cases "well_named (acc @ somes ts) \<and> (nxt = [] \<or> nxt \<notin> set cs)")
      case False
      then have "\<not> ?lhs (Suc n) p cur cs acc"
        using page collect_tools_eq [OF Suc.prems(1), of ts] by (auto split: sum.splits)
      moreover have "\<not> ?ok p cur cs acc ps" for ps
        using False well_named_prefix [of "acc @ somes ts"] by (auto simp: srv split: if_splits)
      ultimately show ?thesis by blast
    next
      case ok: True
      then have ct: "collect_tools ts (acc, marked (map tool_Name acc)) =
          Inr (acc @ somes ts, marked (map tool_Name (acc @ somes ts)))"
        using collect_tools_eq [OF Suc.prems(1)] by blast
      show ?thesis
      proof (cases "nxt = []")
        case True
        with page ct ok show ?thesis by (auto simp: srv)
      next
        case False
        then have "?lhs (Suc n) p cur cs acc \<longleftrightarrow> ?lhs n (p + 1) nxt (cs @ [nxt]) (acc @ somes ts)"
          using page ct ok by simp
        also have "\<dots> \<longleftrightarrow> (\<exists>qs. ?ok (p + 1) nxt (cs @ [nxt]) (acc @ somes ts) qs)"
          using ok Suc.prems(2) by (intro Suc.IH) auto
        also have "\<dots> \<longleftrightarrow> (\<exists>ps. ?ok p cur cs acc ps)"
        proof -
          have "?ok (p + 1) nxt (cs @ [nxt]) (acc @ somes ts) qs \<longleftrightarrow> ?ok p cur cs acc ((ts, nxt) # qs)" for qs
            using False ok by (auto simp: srv)
          moreover have "\<exists>qs. ps = (ts, nxt) # qs" if "served (ctx_done ctxErr) (fetch_pages fetch) p cur ps" for ps
            using that False by (simp add: srv) blast
          ultimately show ?thesis by blast
        qed
        finally show ?thesis .
      qed
    qed
  qed
qed

text \<open>
  The catalog's collector and the session's paging loop agree: the collector returns a list
  exactly when the session's loop would return it without its limits on the number and size of
  definitions, and every name is non-empty.
\<close>

theorem CollectDownstreamTools_agrees:
  assumes "acceptable marshal tools" and "[] \<notin> tool_Name ` set tools"
  shows "CollectDownstreamTools ctxErr (Some fetch) = Inr tools \<longleftrightarrow>
    fetchPages marshal (ctx_done ctxErr) (fetch_pages fetch) = Inr tools"
proof -
  have "well_named []" by (simp add: well_named_def)
  moreover have "well_named tools" using assms by (simp add: well_named_def acceptable_def)
  ultimately show ?thesis
    using assms collect_loop_served [of "[]" 0 MaxPaginationPages ctxErr fetch "[]" "[]" tools]
      fetchPages_served [of marshal "ctx_done ctxErr" "fetch_pages fetch" tools]
    by (auto simp: CollectDownstreamTools_def)
qed

section \<open>Witnesses\<close>

definition demo_page_tool :: "string \<Rightarrow> tool" where
  "demo_page_tool n =
     \<lparr>tool_Name = n, tool_InputSchema = AnyNil, tool_OutputSchema = AnyNil, tool_Rest = []\<rparr>"

definition demo_fetch :: "nat \<Rightarrow> string \<Rightarrow> string + page_answer" where
  "demo_fetch p c =
     (if c = [] then Inr ([Some (demo_page_tool ''a''), None], ''next'')
      else Inr ([Some (demo_page_tool ''b'')], []))"

definition demo_pass :: "nat \<Rightarrow> pass" where
  "demo_pass n = \<lparr>pass_isClosed = (\<lambda>_. False), pass_list = fetch_pages demo_fetch, pass_notifications = n\<rparr>"

theorem ListAllTools_no_lost_change_witness:
  "fst (ListAllTools (\<lambda>t. Inr (tool_Name t)) (demo_pass 1) (demo_pass 0) new_session) =
     Inr [demo_page_tool ''a'', demo_page_tool ''b''] \<and>
   \<not> ses_dirty (snd (ListAllTools (\<lambda>t. Inr (tool_Name t)) (demo_pass 1) (demo_pass 0) new_session)) \<and>
   (pass_notifications (demo_pass 1) = 0 \<or> pass_notifications (demo_pass 0) = 0)"
proof -
  let ?r = "ListAllTools (\<lambda>t. Inr (tool_Name t)) (demo_pass 1) (demo_pass 0) new_session"
  have r: "fst ?r = Inr [demo_page_tool ''a'', demo_page_tool ''b'']" and d: "\<not> ses_dirty (snd ?r)"
    by code_simp+
  then have "?r = (Inr [demo_page_tool ''a'', demo_page_tool ''b''], snd ?r)" by (metis prod.collapse)
  from ListAllTools_no_lost_change [OF this] d
  have "pass_notifications (demo_pass 1) = 0 \<or> pass_notifications (demo_pass 0) = 0" by metis
  with r d show ?thesis by metis
qed

theorem CollectDownstreamTools_agrees_witness:
  "CollectDownstreamTools (\<lambda>_. None) (Some demo_fetch) =
     Inr [demo_page_tool ''a'', demo_page_tool ''b''] \<and>
   fetchPages (\<lambda>t. Inr (tool_Name t)) (ctx_done (\<lambda>_. None)) (fetch_pages demo_fetch) =
     Inr [demo_page_tool ''a'', demo_page_tool ''b'']"
proof -
  have "acceptable (\<lambda>t. Inr (tool_Name t)) [demo_page_tool ''a'', demo_page_tool ''b'']"
    and "[] \<notin> tool_Name ` set [demo_page_tool ''a'', demo_page_tool ''b'']"
    by (simp_all add: acceptable_def demo_page_tool_def encoded_size_def MaxDiscoveredTools_def
        MaxCatalogJSONBytes_def)
  from CollectDownstreamTools_agrees [OF this, of "\<lambda>_. None" demo_fetch]
  have "CollectDownstreamTools (\<lambda>_. None) (Some demo_fetch) =
      Inr [demo_page_tool ''a'', demo_page_tool ''b''] \<longleftrightarrow>
    fetchPages (\<lambda>t. Inr (tool_Name t)) (ctx_done (\<lambda>_. None)) (fetch_pages demo_fetch) =
      Inr [demo_page_tool ''a'', demo_page_tool ''b'']"
    by simp
  moreover have "CollectDownstreamTools (\<lambda>_. None) (Some demo_fetch) =
      Inr [demo_page_tool ''a'', demo_page_tool ''b'']"
    by code_simp
  ultimately show ?thesis by blast
qed

end
