(* ===== verification/Wire_Limit.thy ===== *)
theory Wire_Limit
  imports Go_Prelude
begin

text \<open>
  The reader that bounds each protocol message (\<^verbatim>\<open>internal/wirelimit/reader.go\<close>). The wrapped reader
  is a parameter: each call of \<open>wl_Read\<close> gets the bytes and the error that the wrapped \<^verbatim>\<open>Read\<close>
  returned. The limit is a field, as in the code, where it is 8 MiB.
\<close>

definition MaxMessageBytes :: nat where "MaxMessageBytes = 8 * 1024 * 1024"

datatype Framing = WholeBody | JSONLines | SSEEvents

datatype read_error = ErrMessageTooLarge | ErrWrapped string

record reader =
  rd_framing :: Framing
  rd_limit :: nat
  rd_used :: nat
  rd_blankLine :: bool
  rd_exceeded :: bool

definition new_reader :: "nat \<Rightarrow> Framing \<Rightarrow> reader" where
  "new_reader limit framing =
     \<lparr>rd_framing = framing, rd_limit = limit, rd_used = 0, rd_blankLine = True, rd_exceeded = False\<rparr>"

definition wl_New :: "Framing \<Rightarrow> reader" where
  "wl_New framing = new_reader MaxMessageBytes framing"

abbreviation LF :: char where "LF \<equiv> CHR 0x0A"
abbreviation CR :: char where "CR \<equiv> CHR 0x0D"

text \<open>The \<^verbatim>\<open>switch r.framing\<close> of the loop body, after the limit check.\<close>

definition frame_byte :: "char \<Rightarrow> reader \<Rightarrow> reader" where
  "frame_byte b r =
     (case rd_framing r of
        WholeBody \<Rightarrow> r
      | JSONLines \<Rightarrow> if b = LF then r\<lparr>rd_used := 0\<rparr> else r
      | SSEEvents \<Rightarrow>
          if b = LF then (if rd_blankLine r then r\<lparr>rd_used := 0, rd_blankLine := True\<rparr>
                          else r\<lparr>rd_blankLine := True\<rparr>)
          else if b \<noteq> CR then r\<lparr>rd_blankLine := False\<rparr> else r)"

text \<open>The loop over the bytes read: the number of bytes that pass, and the reader after it.\<close>

fun scan_bytes :: "reader \<Rightarrow> string \<Rightarrow> nat \<times> reader" where
  "scan_bytes r [] = (0, r)"
| "scan_bytes r (b # bs) =
     (let r = r\<lparr>rd_used := rd_used r + 1\<rparr>
      in if rd_used r > rd_limit r then (0, r\<lparr>rd_exceeded := True\<rparr>)
         else let (n, r') = scan_bytes (frame_byte b r) bs in (n + 1, r'))"

definition wl_Read ::
  "reader \<Rightarrow> string \<times> string option \<Rightarrow> (nat \<times> read_error option) \<times> reader" where
  "wl_Read r inner =
     (if rd_exceeded r then ((0, Some ErrMessageTooLarge), r)
      else
        let (n, r') = scan_bytes r (fst inner)
        in if rd_exceeded r' then ((n, Some ErrMessageTooLarge), r')
           else ((length (fst inner), map_option ErrWrapped (snd inner)), r'))"

text \<open>A sequence of reads: the bytes that the client gets, and the final reader.\<close>

fun read_all :: "reader \<Rightarrow> string list \<Rightarrow> string \<times> reader" where
  "read_all r [] = ([], r)"
| "read_all r (chunk # chunks) =
     (let ((n, _), r') = wl_Read r (chunk, None); (out, r'') = read_all r' chunks
      in (take n chunk @ out, r''))"

section \<open>Facts\<close>

lemma frame_byte_fields [simp]:
  "rd_framing (frame_byte b r) = rd_framing r" "rd_limit (frame_byte b r) = rd_limit r"
  "rd_exceeded (frame_byte b r) = rd_exceeded r"
  by (auto simp: frame_byte_def split: Framing.split)

lemma scan_bytes_length: "\<not> rd_exceeded r \<Longrightarrow>
   fst (scan_bytes r bs) \<le> length bs \<and>
   (rd_exceeded (snd (scan_bytes r bs)) \<longleftrightarrow> fst (scan_bytes r bs) < length bs)"
  by (induction r bs rule: scan_bytes.induct) (auto simp: Let_def split_def)

lemma scan_bytes_append:
  assumes "\<not> rd_exceeded r"
  shows "scan_bytes r (xs @ ys) =
    (let (n, r') = scan_bytes r xs
     in if rd_exceeded r' then (n, r')
        else let (m, r'') = scan_bytes r' ys in (n + m, r''))"
  using assms
  by (induction r xs rule: scan_bytes.induct) (auto simp: Let_def split_def)

lemma read_all_exceeded: "rd_exceeded r \<Longrightarrow> read_all r chunks = ([], r)"
  by (induction chunks) (auto simp: wl_Read_def Let_def)

lemma read_all_scan:
  assumes "\<not> rd_exceeded r"
  shows "read_all r chunks =
    (let (n, r') = scan_bytes r (concat chunks) in (take n (concat chunks), r'))"
  using assms
proof (induction chunks arbitrary: r)
  case Nil
  then show ?case by simp
next
  case (Cons chunk chunks)
  obtain n r' where s: "scan_bytes r chunk = (n, r')" by fastforce
  have n: "n \<le> length chunk" "rd_exceeded r' \<longleftrightarrow> n < length chunk"
    using scan_bytes_length [OF Cons.prems, of chunk] by (simp_all add: s)
  show ?case
  proof (cases "rd_exceeded r'")
    case True
    with Cons.prems s n show ?thesis
      by (simp add: wl_Read_def scan_bytes_append read_all_exceeded)
  next
    case False
    with n have "n = length chunk" by simp
    with Cons s n False show ?thesis
      by (simp add: wl_Read_def scan_bytes_append Let_def split_def)
  qed
qed

text \<open>
  How the wrapped reader splits the stream into chunks is irrelevant: the client gets the
  same bytes, and the reader ends in the same state, as if the stream came in one chunk.
\<close>

theorem wl_Read_chunking:
  "read_all (wl_New framing) chunks = read_all (wl_New framing) [concat chunks]"
proof -
  have "\<not> rd_exceeded (wl_New framing)" by (simp add: wl_New_def new_reader_def)
  from read_all_scan [OF this, of chunks] read_all_scan [OF this, of "[concat chunks]"]
  show ?thesis by (simp del: read_all.simps)
qed

lemma scan_exceeded_lines:
  assumes "rd_framing r = JSONLines" and "\<not> rd_exceeded r"
  shows "rd_exceeded (snd (scan_bytes r s)) \<longleftrightarrow>
    (case split_byte LF s of
       [] \<Rightarrow> False
     | [l] \<Rightarrow> s \<noteq> [] \<and> rd_used r + length l > rd_limit r
     | l # ls \<Rightarrow> rd_used r + length l + 1 > rd_limit r \<or>
         (\<exists>m \<in> set (butlast ls). length m + 1 > rd_limit r) \<or> length (last ls) > rd_limit r)"
  using assms
proof (induction s arbitrary: r)
  case Nil
  then show ?case by simp
next
  case (Cons b s)
  obtain l ls where split: "split_byte LF s = l # ls"
    by (meson neq_Nil_conv split_byte_nonempty)
  let ?r = "frame_byte b (r\<lparr>rd_used := rd_used r + 1\<rparr>)"
  have IH: "rd_exceeded (snd (scan_bytes ?r s)) \<longleftrightarrow>
    (case l # ls of [] \<Rightarrow> False
     | [l] \<Rightarrow> s \<noteq> [] \<and> rd_used ?r + length l > rd_limit r
     | l # ls \<Rightarrow> rd_used ?r + length l + 1 > rd_limit r \<or>
         (\<exists>m \<in> set (butlast ls). length m + 1 > rd_limit r) \<or> length (last ls) > rd_limit r)"
    using Cons.IH [of ?r] Cons.prems by (simp add: split)
  have l0: "s = [] \<Longrightarrow> l = [] \<and> ls = []" using split by simp
  show ?case
  proof (cases "b = LF")
    case True
    with IH Cons.prems l0 show ?thesis
      by (cases ls) (auto simp: split Let_def split_def frame_byte_def)
  next
    case False
    with IH Cons.prems l0 show ?thesis
      by (cases ls) (auto simp: split Let_def split_def frame_byte_def)
  qed
qed

text \<open>
  With line framing a stream is refused exactly when one of its messages is too long: a
  line with its LF, or the unterminated rest, of more than 8 MiB. Otherwise every byte passes,
  however long the stream is.
\<close>

theorem wl_JSONLines_exact:
  "(fst (read_all (wl_New JSONLines) chunks) = concat chunks \<and>
      \<not> rd_exceeded (snd (read_all (wl_New JSONLines) chunks))) \<longleftrightarrow>
   (\<forall>l \<in> set (butlast (split_byte LF (concat chunks))). length l + 1 \<le> MaxMessageBytes) \<and>
   length (last (split_byte LF (concat chunks))) \<le> MaxMessageBytes"
proof -
  let ?r = "wl_New JSONLines" and ?s = "concat chunks"
  have r: "rd_framing ?r = JSONLines" "\<not> rd_exceeded ?r" "rd_used ?r = 0" "rd_limit ?r = MaxMessageBytes"
    by (simp_all add: wl_New_def new_reader_def)
  obtain l ls where split: "split_byte LF ?s = l # ls"
    by (meson neq_Nil_conv split_byte_nonempty)
  have l0: "?s = [] \<Longrightarrow> l = []" using split by (metis list.inject split_byte.simps(1))
  have "fst (read_all ?r chunks) = ?s \<and> \<not> rd_exceeded (snd (read_all ?r chunks)) \<longleftrightarrow>
      \<not> rd_exceeded (snd (scan_bytes ?r ?s))"
    using scan_bytes_length [OF r(2), of ?s] by (auto simp: read_all_scan r split_def Let_def)
  also have "\<dots> \<longleftrightarrow> (\<forall>l \<in> set (butlast (split_byte LF ?s)). length l + 1 \<le> MaxMessageBytes) \<and>
   length (last (split_byte LF ?s)) \<le> MaxMessageBytes"
    using split l0 by (cases ls) (auto simp: scan_exceeded_lines [OF r(1,2)] r not_less Suc_le_eq)
  finally show ?thesis .
qed

lemma scan_used_bounded:
  "rd_used r \<le> rd_limit r \<Longrightarrow> \<not> rd_exceeded (snd (scan_bytes r bs)) \<Longrightarrow>
   rd_used (snd (scan_bytes r bs)) \<le> rd_limit r"
  by (induction r bs rule: scan_bytes.induct)
    (auto simp: Let_def split_def frame_byte_def split: Framing.splits if_splits)

theorem wl_JSONLines_exact_witness:
  "fst (read_all (wl_New JSONLines) [''ab'', ''c'' @ [LF], ''d'']) = ''abc'' @ [LF] @ ''d''"
proof -
  have "split_byte LF (concat [''ab'', ''c'' @ [LF], ''d'']) = [''abc'', ''d'']" by code_simp
  then show ?thesis using wl_JSONLines_exact [of "[''ab'', ''c'' @ [LF], ''d'']"]
    by (simp add: MaxMessageBytes_def)
qed

end
