(* ===== verification/Config_Types.thy ===== *)
theory Config_Types
  imports Go_Prelude
begin

text \<open>
  The configuration as persisted and as resolved (\<^verbatim>\<open>internal/config/types.go\<close>). Durations are
  nanoseconds in \<^typ>\<open>int\<close>; Go's \<^verbatim>\<open>int64\<close> nanoseconds hold 24 hours, the largest duration
  the validator accepts, with room to spare. A Go set \<^verbatim>\<open>map[string]struct{}\<close> is a map to
  \<^typ>\<open>unit\<close>.
\<close>

definition second :: int where "second = 1000000000"

definition minute :: int where "minute = 60 * second"

definition CurrentVersion :: int where "CurrentVersion = 1"

definition MaxConfigFileSize :: nat where "MaxConfigFileSize = 1024 * 1024"

definition MaxServers :: nat where "MaxServers = 32"

definition DefaultListen :: string where "DefaultListen = ''127.0.0.1:8080''"

definition DefaultStartupTimeout :: int where "DefaultStartupTimeout = 20 * second"

definition DefaultCallTimeout :: int where "DefaultCallTimeout = 60 * second"

definition DefaultMaxConcurrency :: int where "DefaultMaxConcurrency = 8"

definition MaxDuration :: int where "MaxDuration = 24 * 60 * minute"

definition MaxRecentCalls :: int where "MaxRecentCalls = 200"

definition MinConcurrency :: int where "MinConcurrency = 1"

definition MaxConcurrency :: int where "MaxConcurrency = 64"

definition MinAuthTokenLength :: nat where "MinAuthTokenLength = 32"

text \<open>\<^verbatim>\<open>ServerType\<close> is a string type with two named values.\<close>

type_synonym ServerType = string

definition ServerTypeStdio :: ServerType where "ServerTypeStdio = ''stdio''"

definition ServerTypeStreamableHTTP :: ServerType where
  "ServerTypeStreamableHTTP = ''streamable_http''"

lemma ServerType_distinct [simp]:
  "ServerTypeStdio \<noteq> ServerTypeStreamableHTTP" "ServerTypeStreamableHTTP \<noteq> ServerTypeStdio"
  by (simp_all add: ServerTypeStdio_def ServerTypeStreamableHTTP_def)

record HubAuthConfig =
  auth_BearerToken :: string
  auth_BearerTokens :: "string list"

record AdminConfig =
  adm_Enabled :: bool
  adm_Token :: string
  adm_SessionTimeout :: string

record HubConfig =
  hub_Listen :: string
  hub_PublicMode :: bool
  hub_PublicURL :: string
  hub_AllowedHosts :: "string list"
  hub_TrustedProxies :: "string list"
  hub_Auth :: HubAuthConfig
  hub_Admin :: AdminConfig

record DefaultsConfig =
  def_StartupTimeout :: string
  def_CallTimeout :: string
  def_MaxConcurrency :: int

record ServerConfig =
  sc_Enabled :: "bool option"
  sc_Type :: ServerType
  sc_Command :: string
  sc_Args :: "string list"
  sc_Cwd :: string
  sc_Env :: "(string, string) gomap"
  sc_URL :: string
  sc_Headers :: "(string, string) gomap"
  sc_Disabled :: "string list"
  sc_StartupTimeout :: string
  sc_CallTimeout :: string
  sc_MaxConcurrency :: int

record Config =
  cfg_Version :: int
  cfg_Hub :: HubConfig
  cfg_Defaults :: DefaultsConfig
  cfg_MCPServers :: "(string, ServerConfig) gomap"

definition IsEnabled :: "ServerConfig \<Rightarrow> bool" where
  "IsEnabled s = (case sc_Enabled s of None \<Rightarrow> True | Some b \<Rightarrow> b)"

record ResolvedServer =
  rs_ID :: string
  rs_Enabled :: bool
  rs_Type :: ServerType
  rs_Command :: string
  rs_Args :: "string list"
  rs_Cwd :: string
  rs_Env :: "(string, string) gomap"
  rs_URL :: string
  rs_Headers :: "(string, string) gomap"
  rs_DisabledTools :: "(string, unit) gomap"
  rs_StartupTimeout :: int
  rs_CallTimeout :: int
  rs_MaxConcurrency :: int

record ResolvedConfig =
  rc_Version :: int
  rc_Listen :: string
  rc_PublicMode :: bool
  rc_PublicURL :: string
  rc_AllowedHosts :: "string list"
  rc_TrustedProxies :: "string list"
  rc_BearerToken :: string
  rc_BearerTokens :: "string list"
  rc_AdminEnabled :: bool
  rc_AdminToken :: string
  rc_AdminSessionTimeout :: int
  rc_DefaultStartup :: int
  rc_DefaultCall :: int
  rc_DefaultConcurrency :: int
  rc_Servers :: "(string, ResolvedServer) gomap"

end
