(* ===== verification/Config_Env.thy ===== *)
theory Config_Env
  imports Config_Types
begin

text \<open>
  Environment variables in the configuration (\<^verbatim>\<open>internal/config/env.go\<close> and \<^verbatim>\<open>inherit_env.go\<close>): expansion of
  references, merging of inherited and explicit variables and the list of variables that a child
  process may inherit.

  The process environment is the argument \<open>lookup\<close> (the code's \<^verbatim>\<open>os.LookupEnv\<close>) or a list of
  \<^verbatim>\<open>NAME=value\<close> entries (\<^verbatim>\<open>os.Environ\<close>).
\<close>

section \<open>Expansion\<close>

datatype env_error =
    UnclosedReference nat
  | EmptyVarName nat
  | ErrMissingEnvVar string

abbreviation dollar :: char where "dollar \<equiv> CHR ''$''"
abbreviation lbrace :: char where "lbrace \<equiv> CHR ''{''"
abbreviation rbrace :: char where "rbrace \<equiv> CHR ''}''"

text \<open>
  The loop: \<open>i\<close> is the index, \<open>s\<close> what is left from there. The result is the rest of the buffer.
\<close>

function expand_from ::
  "(string \<Rightarrow> string option) \<Rightarrow> nat \<Rightarrow> string \<Rightarrow> env_error + string" where
  "expand_from lookup i s =
     (case s of
        [] \<Rightarrow> Inr []
      | c # t \<Rightarrow>
          if c = dollar \<and> t \<noteq> [] \<and> hd t = dollar then
            (case (if length t > 1 \<and> t ! 1 = lbrace then index_byte (tl t) rbrace else None) of
               Some end \<Rightarrow>
                 map_sum (\<lambda>e. e) (\<lambda>r. take (end + 2) t @ r)
                   (expand_from lookup (i + 2 + end + 1) (drop (end + 2) t))
             | None \<Rightarrow>
                 map_sum (\<lambda>e. e) (\<lambda>r. dollar # r) (expand_from lookup (i + 2) (tl t)))
          else if c = dollar \<and> t \<noteq> [] \<and> hd t = lbrace then
            (case index_byte (tl t) rbrace of
               None \<Rightarrow> Inl (UnclosedReference i)
             | Some end \<Rightarrow>
                 let varName = take end (tl t)
                 in if trim_space varName = [] then Inl (EmptyVarName i)
                    else case lookup varName of
                           None \<Rightarrow> Inl (ErrMissingEnvVar varName)
                         | Some v \<Rightarrow>
                             map_sum (\<lambda>e. e) (\<lambda>r. v @ r)
                               (expand_from lookup (i + 2 + end + 1) (drop (end + 1) (tl t))))
          else map_sum (\<lambda>e. e) (\<lambda>r. c # r) (expand_from lookup (i + 1) t))"
  by pat_completeness auto
termination by (relation "measure (\<lambda>(_, _, s). length s)") auto

declare expand_from.simps [simp del]

definition ExpandEnv :: "string \<Rightarrow> (string \<Rightarrow> string option) \<Rightarrow> env_error + string" where
  "ExpandEnv s lookup = expand_from lookup 0 s"

section \<open>Merging\<close>

definition parse_entry :: "string \<Rightarrow> (string \<times> string) option" where
  "parse_entry entry =
     (case index_byte entry (CHR ''='') of
        None \<Rightarrow> None
      | Some eq \<Rightarrow> if eq = 0 then None else Some (take eq entry, drop (eq + 1) entry))"

definition merge_base :: "string list \<Rightarrow> (string, string) gomap" where
  "merge_base base = fold (\<lambda>(k, v) m. mput k v m) (List.map_filter parse_entry base) []"

definition merge_canonical :: "string list \<Rightarrow> (string, string) gomap" where
  "merge_canonical base = fold (\<lambda>(k, v) m. mput (to_lower k) k m) (List.map_filter parse_entry base) []"

fun merge_overlay_windows ::
  "(string, string) gomap \<Rightarrow> (string, string) gomap \<times> (string, string) gomap \<Rightarrow> (string, string) gomap" where
  "merge_overlay_windows [] (result, canonical) = result"
| "merge_overlay_windows ((k, v) # explicit) (result, canonical) =
     (let lowerK = to_lower k;
          result = (case mget canonical lowerK of
                      Some oldKey \<Rightarrow> if oldKey \<noteq> k then mdel oldKey result else result
                    | None \<Rightarrow> result)
      in merge_overlay_windows explicit (mput k v result, mput lowerK k canonical))"

definition MergeEnv :: "string list \<Rightarrow> (string, string) gomap \<Rightarrow> bool \<Rightarrow> (string, string) gomap" where
  "MergeEnv base explicit isWindows =
     (if isWindows then merge_overlay_windows explicit (merge_base base, merge_canonical base)
      else fold (\<lambda>(k, v) m. mput k v m) explicit (merge_base base))"

section \<open>Inheritance\<close>

definition safeInheritedEnvNames :: "string list" where
  "safeInheritedEnvNames =
     [''PATH'', ''HOME'', ''TMPDIR'', ''TMP'', ''TEMP'', ''LANG'', ''LANGUAGE'', ''TZ'', ''SSL_CERT_FILE'', ''SSL_CERT_DIR'',
      ''NODE_EXTRA_CA_CERTS'', ''REQUESTS_CA_BUNDLE'', ''CURL_CA_BUNDLE'']"

definition safeInheritedWindowsEnvNames :: "string list" where
  "safeInheritedWindowsEnvNames =
     [''PATHEXT'', ''SYSTEMROOT'', ''WINDIR'', ''COMSPEC'', ''USERPROFILE'', ''HOMEDRIVE'', ''HOMEPATH'', ''APPDATA'',
      ''LOCALAPPDATA'', ''PROGRAMDATA'', ''SYSTEMDRIVE'']"

definition inherit_allowed :: "bool \<Rightarrow> string \<Rightarrow> bool" where
  "inherit_allowed windows name =
     (let lookup = (if windows then to_upper name else name)
      in lookup \<in> set safeInheritedEnvNames \<or> has_prefix lookup ''LC_'' \<or>
         (windows \<and> lookup \<in> set safeInheritedWindowsEnvNames))"

definition safeInheritedEnv :: "string list \<Rightarrow> bool \<Rightarrow> string list" where
  "safeInheritedEnv base windows =
     filter (\<lambda>entry. case index_byte entry (CHR ''='') of
                       None \<Rightarrow> False
                     | Some eq \<Rightarrow> eq \<noteq> 0 \<and> inherit_allowed windows (take eq entry)) base"

section \<open>How expansion reads its input\<close>

lemma index_byte_at: "rbrace \<notin> set name \<Longrightarrow> index_byte (name @ rbrace # rest) rbrace = Some (length name)"
  by (rule index_byte_append)

lemma expand_Nil [simp]: "expand_from lookup i [] = Inr []"
  by (simp add: expand_from.simps)

lemma expand_literal:
  "c \<noteq> dollar \<Longrightarrow> expand_from lookup i (c # t) = map_sum (\<lambda>e. e) (\<lambda>r. c # r) (expand_from lookup (i + 1) t)"
  by (subst expand_from.simps) simp

lemma expand_lone_dollar:
  "t = [] \<or> (hd t \<noteq> dollar \<and> hd t \<noteq> lbrace) \<Longrightarrow>
   expand_from lookup i (dollar # t) = map_sum (\<lambda>e. e) (\<lambda>r. dollar # r) (expand_from lookup (i + 1) t)"
  by (subst expand_from.simps) auto

lemma expand_escaped:
  assumes "rbrace \<notin> set name"
  shows "expand_from lookup i (dollar # dollar # lbrace # name @ rbrace # rest) =
    map_sum (\<lambda>e. e) (\<lambda>r. (dollar # lbrace # name @ [rbrace]) @ r)
      (expand_from lookup (i + length name + 4) rest)"
proof -
  have "index_byte (lbrace # name @ rbrace # rest) rbrace = Some (Suc (length name))"
    using index_byte_at [OF assms] by simp
  then show ?thesis
    by (subst expand_from.simps) (simp add: eval_nat_numeral)
qed

lemma expand_dollar_dollar:
  assumes "hd t \<noteq> lbrace \<or> t = [] \<or> rbrace \<notin> set t"
  shows "expand_from lookup i (dollar # dollar # t) =
    map_sum (\<lambda>e. e) (\<lambda>r. dollar # r) (expand_from lookup (i + 2) t)"
proof -
  have "index_byte t rbrace = None" if "t \<noteq> []" "t ! 0 = lbrace"
    using assms that by (cases t) (auto simp: index_byte_None)
  then show ?thesis by (subst expand_from.simps) auto
qed

lemma expand_reference:
  assumes "rbrace \<notin> set name"
  shows "expand_from lookup i (dollar # lbrace # name @ rbrace # rest) =
    (if trim_space name = [] then Inl (EmptyVarName i)
     else case lookup name of None \<Rightarrow> Inl (ErrMissingEnvVar name)
          | Some v \<Rightarrow> map_sum (\<lambda>e. e) (\<lambda>r. v @ r) (expand_from lookup (i + length name + 3) rest))"
  using index_byte_at [OF assms, of rest]
  by (subst expand_from.simps) (simp add: Let_def eval_nat_numeral split: option.split)

text \<open>A prefix without a dollar sign is copied.\<close>

lemma expand_prefix:
  "dollar \<notin> set pre \<Longrightarrow>
   expand_from lookup i (pre @ s) = map_sum (\<lambda>e. e) (\<lambda>r. pre @ r) (expand_from lookup (i + length pre) s)"
proof (induction pre arbitrary: i)
  case Nil
  then show ?case by (cases "expand_from lookup i s") simp_all
next
  case (Cons c pre)
  then have "c \<noteq> dollar" by auto
  with Cons show ?case by (cases "expand_from lookup (Suc i + length pre) s") (simp_all add: expand_literal)
qed

text \<open>
  Expansion is a single pass: the value of a reference is inserted as it is, whatever it contains, and
  expansion goes on behind the reference; a name that is blank or not set is an error.
\<close>

theorem ExpandEnv_single_pass:
  assumes "dollar \<notin> set pre" and "rbrace \<notin> set name"
  shows "ExpandEnv (pre @ ''${'' @ name @ ''}'' @ post) lookup =
    (if trim_space name = [] then Inl (EmptyVarName (length pre))
     else case lookup name of None \<Rightarrow> Inl (ErrMissingEnvVar name)
          | Some v \<Rightarrow> map_sum (\<lambda>e. e) (\<lambda>r. pre @ v @ r) (expand_from lookup (length pre + length name + 3) post))"
proof -
  have "map_sum (\<lambda>e. e) (\<lambda>r. pre @ r) (map_sum (\<lambda>e. e) (\<lambda>r. v @ r) x) = map_sum (\<lambda>e. e) (\<lambda>r. pre @ v @ r) x"
    for v and x :: "env_error + string"
    by (cases x) simp_all
  then show ?thesis
    using expand_prefix [OF assms(1), of lookup 0 "''${'' @ name @ ''}'' @ post"]
      expand_reference [OF assms(2), of lookup "length pre" post]
    by (simp add: ExpandEnv_def split: option.split)
qed

section \<open>Writing a literal\<close>

text \<open>
  How a literal text is written so that expansion gives it back: a group \<^verbatim>\<open>${...}\<close> gets one more dollar sign
  in front, every other dollar sign is doubled.
\<close>

function escape_env :: "string \<Rightarrow> string" where
  "escape_env s =
     (case s of
        [] \<Rightarrow> []
      | c # t \<Rightarrow>
          if c \<noteq> dollar then c # escape_env t
          else if t \<noteq> [] \<and> hd t = lbrace then
            (case index_byte t rbrace of
               None \<Rightarrow> dollar # dollar # escape_env t
             | Some end \<Rightarrow> dollar # dollar # take (end + 1) t @ escape_env (drop (end + 1) t))
          else dollar # dollar # escape_env t)"
  by pat_completeness auto
termination by (relation "measure length") auto

declare escape_env.simps [simp del]

lemma escape_hd: "escape_env t = [] \<longleftrightarrow> t = []" "t \<noteq> [] \<Longrightarrow> hd (escape_env t) = hd t"
  by (subst escape_env.simps; auto split: list.splits option.splits)+

lemma escape_no_rbrace: "rbrace \<notin> set t \<Longrightarrow> rbrace \<notin> set (escape_env t)"
proof (induction t rule: escape_env.induct)
  case (1 s)
  show ?case
  proof (cases s)
    case (Cons c t)
    have "index_byte t rbrace = None" using 1 Cons by (simp add: index_byte_None)
    then show ?thesis using 1 Cons by (subst escape_env.simps) auto
  qed (simp add: escape_env.simps)
qed

text \<open>
  Every text can be written: expanding its escaped form gives the text back, without consulting the
  environment.
\<close>

theorem ExpandEnv_escape: "ExpandEnv (escape_env s) lookup = Inr s"
proof -
  have "expand_from lookup i (escape_env s) = Inr s" for i
  proof (induction s arbitrary: i rule: escape_env.induct)
    case (1 s)
    show ?case
    proof (cases s)
      case Nil
      then show ?thesis by (simp add: escape_env.simps)
    next
      case (Cons c t)
      show ?thesis
      proof (cases "c = dollar \<and> t \<noteq> [] \<and> hd t = lbrace \<and> rbrace \<in> set t")
        case True
        then obtain t' where t': "t = lbrace # t'" "rbrace \<in> set t'" by (cases t) auto
        from split_list_first [OF t'(2)] obtain name rest where
          t: "t = lbrace # name @ rbrace # rest" "rbrace \<notin> set name"
          using t'(1) by blast
        have ix: "index_byte t rbrace = Some (length name + 1)" using t index_byte_at by simp
        have "escape_env s = dollar # dollar # lbrace # name @ rbrace # escape_env rest"
          using True Cons ix by (subst escape_env.simps) (simp add: t)
        moreover have "expand_from lookup (i + length name + 4) (escape_env rest) = Inr rest"
          using 1(3) [OF Cons _ _ ix] True t by simp
        ultimately show ?thesis using expand_escaped [OF t(2)] Cons True t by simp
      next
        case False
        show ?thesis
        proof (cases "c = dollar")
          case True
          have esc: "escape_env s = dollar # dollar # escape_env t"
            using True False Cons index_byte_None [of t rbrace] by (subst escape_env.simps) auto
          have "hd (escape_env t) \<noteq> lbrace \<or> escape_env t = [] \<or> rbrace \<notin> set (escape_env t)"
            using False True escape_hd escape_no_rbrace by metis
          note step = expand_dollar_dollar [OF this, of lookup i]
          have "expand_from lookup (i + 2) (escape_env t) = Inr t"
            using 1(2) [OF Cons] 1(4) [OF Cons] True False by (auto simp: index_byte_None)
          with step esc Cons True show ?thesis by simp
        next
          case c: False
          then have "escape_env s = c # escape_env t" using Cons by (subst escape_env.simps) simp
          with 1(1) [OF Cons c] c Cons show ?thesis by (simp add: expand_literal)
        qed
      qed
    qed
  qed
  then show ?thesis by (simp add: ExpandEnv_def)
qed

section \<open>Merging\<close>

lemma fold_mput_get: "map_of (fold (\<lambda>(k, v) m. mput k v m) xs m) = map_of m ++ map_of (rev xs)"
  by (induction xs arbitrary: m) (auto simp: map_add_upd)

lemma map_of_rev_wf: "wf_map m \<Longrightarrow> map_of (rev m) = map_of m"
  by (rule map_of_inject_set [THEN iffD2]) (simp_all add: rev_map [symmetric])

lemma fold_mput_wf: "wf_map m \<Longrightarrow> wf_map (fold (\<lambda>(k, v) m. mput k v m) xs m)"
  by (induction xs arbitrary: m) auto

lemma merge_base_wf: "wf_map (merge_base base)"
  by (simp add: merge_base_def fold_mput_wf)

lemma MergeEnv_wf: "wf_map (MergeEnv base explicit isWindows)"
proof -
  have "wf_map result \<Longrightarrow> wf_map (merge_overlay_windows explicit (result, canonical))" for result canonical
    by (induction explicit "(result, canonical)" arbitrary: result canonical rule: merge_overlay_windows.induct)
      (auto simp: Let_def split: option.split)
  then show ?thesis by (simp add: MergeEnv_def merge_base_wf fold_mput_wf)
qed

text \<open>The table of canonical keys names, for every folded key, the variant that the result holds.\<close>

definition canon_ok :: "(string, string) gomap \<Rightarrow> (string, string) gomap \<Rightarrow> bool" where
  "canon_ok result canonical \<longleftrightarrow>
     (\<forall>l x. mget canonical l = Some x \<longrightarrow> to_lower x = l) \<and>
     (\<forall>k. mget result k \<noteq> None \<longrightarrow> mget canonical (to_lower k) = Some k)"

lemma canon_ok_step:
  assumes "canon_ok result canonical"
    and "result' = (case mget canonical (to_lower k) of
        Some old \<Rightarrow> if old \<noteq> k then mdel old result else result | None \<Rightarrow> result)"
  shows "canon_ok (mput k v result') (mput (to_lower k) k canonical)"
    and "mget result' k' = (if to_lower k' = to_lower k \<and> k' \<noteq> k then None else mget result k')"
proof -
  show get: "mget result' k' = (if to_lower k' = to_lower k \<and> k' \<noteq> k then None else mget result k')" for k'
  proof -
    have 1: "mget result k' \<noteq> None \<Longrightarrow> mget canonical (to_lower k') = Some k'" for k'
      using assms(1) unfolding canon_ok_def by blast
    show ?thesis
    proof (cases "mget canonical (to_lower k)")
      case None
      with 1 [of k'] assms(2) show ?thesis by (cases "mget result k'") auto
    next
      case (Some old)
      then have "to_lower old = to_lower k" using assms(1) unfolding canon_ok_def by blast
      with 1 [of k'] Some assms(2) show ?thesis by (cases "mget result k'") auto
    qed
  qed
  show "canon_ok (mput k v result') (mput (to_lower k) k canonical)"
    using assms(1) unfolding canon_ok_def by (auto simp: get split: if_splits)
qed

lemma merge_overlay_get:
  assumes "canon_ok result canonical" and "distinct (map (to_lower \<circ> fst) explicit)"
  shows "mget (merge_overlay_windows explicit (result, canonical)) k =
    (case mget explicit k of Some v \<Rightarrow> Some v
     | None \<Rightarrow> if to_lower k \<in> to_lower ` fst ` set explicit then None else mget result k)"
  using assms
proof (induction explicit arbitrary: result canonical)
  case Nil
  then show ?case by simp
next
  case (Cons e explicit)
  obtain k0 v0 where e: "e = (k0, v0)" by fastforce
  let ?r = "case mget canonical (to_lower k0) of
      Some old \<Rightarrow> if old \<noteq> k0 then mdel old result else result | None \<Rightarrow> result"
  note step = canon_ok_step [OF Cons.prems(1) refl, of k0]
  have fresh: "to_lower k0 \<notin> to_lower ` fst ` set explicit" using Cons.prems(2) e by (auto simp: image_image)
  then have "mget explicit k0 = None" by (force simp: map_of_eq_None_iff)
  with Cons.IH [OF step(1), of v0] Cons.prems(2) fresh step(2) show ?case
    by (auto simp: e Let_def split: option.split)
qed

lemma merge_base_get: "mget (merge_base base) = map_of (rev (List.map_filter parse_entry base))"
  by (simp add: merge_base_def fold_mput_get)

lemma canon_ok_base:
  assumes "distinct (map (to_lower \<circ> fst) (List.map_filter parse_entry base))"
  shows "canon_ok (merge_base base) (merge_canonical base)"
proof -
  let ?es = "List.map_filter parse_entry base"
  have canon: "map_of (fold (\<lambda>(k, v) m. mput (to_lower k) k m) es m) =
      map_of m ++ map_of (rev (map (\<lambda>(k, v). (to_lower k, k)) es))" for es :: "(string \<times> string) list" and m
    by (induction es arbitrary: m) (auto simp: map_add_upd split_def)
  have dist: "wf_map (map (\<lambda>(k, v). (to_lower k, k)) ?es)"
    using assms by (simp add: comp_def split_def)
  have c: "mget (merge_canonical base) = map_of (map (\<lambda>(k, v). (to_lower k, k)) ?es)"
    by (simp add: merge_canonical_def canon map_of_rev_wf [OF dist])
  show ?thesis
    unfolding canon_ok_def
  proof (intro conjI allI impI)
    fix l x assume "mget (merge_canonical base) l = Some x"
    then show "to_lower x = l" by (auto simp: c dest!: map_of_SomeD)
  next
    fix k assume "mget (merge_base base) k \<noteq> None"
    then obtain v where "(k, v) \<in> set ?es" by (auto simp: merge_base_get dest: map_of_SomeD)
    then have "(to_lower k, k) \<in> set (map (\<lambda>(k, v). (to_lower k, k)) ?es)" by force
    then show "mget (merge_canonical base) (to_lower k) = Some k" by (simp add: c wf_map_get [OF dist])
  qed
qed

text \<open>
  Explicit variables win over inherited ones. On POSIX a variable has its explicit value or else the last
  inherited one. On Windows, where the case of a name does not count, an explicit variable also removes
  every inherited variant of its name, for environments that do not spell a name in two ways.
\<close>

theorem MergeEnv_explicit_wins:
  assumes "wf_map explicit" and "distinct (map (to_lower \<circ> fst) explicit)"
    and "distinct (map (to_lower \<circ> fst) (List.map_filter parse_entry base))"
  shows "mget (MergeEnv base explicit isWindows) k =
    (case mget explicit k of Some v \<Rightarrow> Some v
     | None \<Rightarrow> if isWindows \<and> to_lower k \<in> to_lower ` fst ` set explicit then None
               else map_of (rev (List.map_filter parse_entry base)) k)"
proof (cases isWindows)
  case True
  with merge_overlay_get [OF canon_ok_base [OF assms(3)] assms(2)] show ?thesis
    by (simp add: MergeEnv_def merge_base_get split: option.split)
next
  case False
  then show ?thesis
    by (simp add: MergeEnv_def fold_mput_get merge_base_get map_of_rev_wf [OF assms(1)] map_add_def split: option.split)
qed

section \<open>Witnesses\<close>

theorem ExpandEnv_single_pass_witness:
  "ExpandEnv ''Bearer ${TOKEN}!'' (\<lambda>n. if n = ''TOKEN'' then Some ''${X}'' else None) = Inr ''Bearer ${X}!''"
proof -
  have t: "trim_space ''TOKEN'' \<noteq> []" by code_simp
  have r: "expand_from (\<lambda>n. if n = ''TOKEN'' then Some ''${X}'' else None) 15 ''!'' = Inr ''!''"
    by (simp add: expand_literal)
  show ?thesis
    using ExpandEnv_single_pass [of "''Bearer ''" "''TOKEN''" "''!''"
        "\<lambda>n. if n = ''TOKEN'' then Some ''${X}'' else None"] t r
    by simp
qed

theorem MergeEnv_explicit_wins_witness:
  "mget (MergeEnv [''Path=C:'', ''HOME=x''] [(''PATH'', ''D:'')] True) ''Path'' = None \<and>
   mget (MergeEnv [''Path=C:'', ''HOME=x''] [(''PATH'', ''D:'')] True) ''PATH'' = Some ''D:''"
proof -
  have d: "distinct (map (to_lower \<circ> fst) (List.map_filter parse_entry [''Path=C:'', ''HOME=x'']))"
    "to_lower ''Path'' = to_lower ''PATH''"
    by code_simp+
  show ?thesis
    using MergeEnv_explicit_wins [of "[(''PATH'', ''D:'')]" "[''Path=C:'', ''HOME=x'']" True "''Path''"] d
      MergeEnv_explicit_wins [of "[(''PATH'', ''D:'')]" "[''Path=C:'', ''HOME=x'']" True "''PATH''"]
    by simp
qed

end
