(* ===== verification/Config_Validate.thy ===== *)
theory Config_Validate
  imports Config_Env Naming
begin

text \<open>
  Validation of a raw configuration (\<^verbatim>\<open>internal/config/validate.go\<close>): listen address, public mode, tokens,
  administration, defaults and every server.

  The parsers of the standard library that are used with their results only (\<^verbatim>\<open>url.Parse\<close>, \<^verbatim>\<open>net.ParseIP\<close>,
  \<^verbatim>\<open>net.ParseCIDR\<close>, \<^verbatim>\<open>time.ParseDuration\<close>, \<^verbatim>\<open>filepath\<close>) are the fields of a record \<open>go_lib\<close>;
  \<^verbatim>\<open>net.SplitHostPort\<close> and \<^verbatim>\<open>strconv.Atoi\<close> are defined. An error value names the check that failed.
\<close>

section \<open>Standard library\<close>

record url_parts =
  url_Scheme :: string
  url_Host :: string
  url_Hostname :: string
  url_hasUser :: bool
  url_Opaque :: string
  url_Path :: string
  url_RawPath :: string
  url_RawQuery :: string
  url_ForceQuery :: bool
  url_Fragment :: string

text \<open>
  \<open>lib_ParseIP\<close> is \<^term>\<open>None\<close> for a nil address and otherwise says whether the address is a loopback
  address; \<open>lib_Join\<close> is \<^verbatim>\<open>filepath.Clean(filepath.Join(dir, name))\<close>.
\<close>

record go_lib =
  lib_urlParse :: "string \<Rightarrow> url_parts option"
  lib_ParseIP :: "string \<Rightarrow> bool option"
  lib_ParseCIDR :: "string \<Rightarrow> bool"
  lib_ParseDuration :: "string \<Rightarrow> int option"
  lib_IsAbs :: "string \<Rightarrow> bool"
  lib_Join :: "string \<Rightarrow> string \<Rightarrow> string"

definition last_index_byte :: "string \<Rightarrow> char \<Rightarrow> nat option" where
  "last_index_byte s b = map_option (\<lambda>i. length s - 1 - i) (index_byte (rev s) b)"

definition SplitHostPort :: "string \<Rightarrow> (string \<times> string) option" where
  "SplitHostPort hostport =
     (case last_index_byte hostport (CHR '':'') of
        None \<Rightarrow> None
      | Some i \<Rightarrow>
          (case (if hd hostport = CHR ''['' then
                   (case index_byte hostport (CHR '']'') of
                      None \<Rightarrow> None
                    | Some end \<Rightarrow> if end + 1 = i then Some (take (end - 1) (tl hostport), 1, end + 1) else None)
                 else let host = take i hostport
                      in if CHR '':'' \<in> set host then None else Some (host, 0, 0)) of
             None \<Rightarrow> None
           | Some (host, j, k) \<Rightarrow>
               if CHR ''['' \<in> set (drop j hostport) \<or> CHR '']'' \<in> set (drop k hostport) then None
               else Some (host, drop (i + 1) hostport)))"

fun digits_value :: "nat \<Rightarrow> string \<Rightarrow> nat option" where
  "digits_value acc [] = Some acc"
| "digits_value acc (c # cs) = (if is_digit c then digits_value (10 * acc + (of_char c - 48)) cs else None)"

definition atoi :: "string \<Rightarrow> int option" where
  "atoi s =
     (let neg = (s \<noteq> [] \<and> hd s = CHR ''-''); ds = (if s \<noteq> [] \<and> hd s \<in> {CHR ''-'', CHR ''+''} then tl s else s)
      in if ds = [] then None
         else case digits_value 0 ds of
                None \<Rightarrow> None
              | Some n \<Rightarrow>
                  if neg then (if n \<le> 2 ^ 63 then Some (- int n) else None)
                  else if n < 2 ^ 63 then Some (int n) else None)"

section \<open>Errors\<close>

datatype listen_error =
    ListenFormat
  | ListenPort string
  | ListenNotLoopback string
  | ListenHostEmpty

datatype server_error =
    SrvInvalidID
  | SrvCommandRequired
  | SrvURLForbidden
  | SrvHeadersForbidden
  | SrvEmptyKey string
  | SrvDuplicateKeys string string string
  | SrvURLRequired
  | SrvCommandForbidden
  | SrvArgsForbidden
  | SrvCwdForbidden
  | SrvEnvForbidden
  | SrvURLInvalid
  | SrvURLNoHost
  | SrvURLUserinfo
  | SrvURLFragment
  | SrvURLScheme string
  | SrvURLNotLoopback string
  | SrvForbiddenHeader string
  | SrvSSE
  | SrvTypeRequired
  | SrvTypeUnsupported string
  | SrvStartupTimeout string
  | SrvCallTimeout string
  | SrvMaxConcurrency int
  | SrvEmptyToolName
  | SrvDuplicateTool string

datatype config_error =
    CfgNil
  | CfgVersion int
  | CfgListen listen_error
  | CfgBearerEmpty nat
  | CfgBearerDuplicate
  | CfgPublicURLMissing
  | CfgPublicURLInvalid
  | CfgAllowedHostsMissing
  | CfgAuthMissing
  | CfgAdminTokenMissing
  | CfgAdminSessionTimeout
  | CfgAllowedHost string
  | CfgTrustedProxy string
  | CfgDefaultsStartup string
  | CfgDefaultsCall string
  | CfgDefaultsConcurrency int
  | CfgTooManyServers nat
  | CfgServer string server_error

section \<open>The checks\<close>

definition forbiddenHeaders :: "string list" where
  "forbiddenHeaders =
     [''host'', ''content-length'', ''connection'', ''mcp-session-id'', ''mcp-protocol-version'', ''transfer-encoding'',
      ''upgrade'', ''trailer'', ''te'', ''keep-alive'', ''proxy-authorization'', ''proxy-connection'']"

definition hasRawBearerToken :: "HubAuthConfig \<Rightarrow> bool" where
  "hasRawBearerToken auth \<longleftrightarrow>
     trim_space (auth_BearerToken auth) \<noteq> [] \<or> list_ex (\<lambda>t. trim_space t \<noteq> []) (auth_BearerTokens auth)"

fun check_bearer :: "nat \<Rightarrow> string list \<Rightarrow> string list \<Rightarrow> config_error option" where
  "check_bearer i seen [] = None"
| "check_bearer i seen (token # tokens) =
     (if trim_space token = [] then Some (CfgBearerEmpty i)
      else if token \<in> set seen then Some CfgBearerDuplicate
      else check_bearer (i + 1) (token # seen) tokens)"

definition validateRawBearerTokens :: "HubAuthConfig \<Rightarrow> config_error option" where
  "validateRawBearerTokens auth =
     check_bearer 0 (if trim_space (auth_BearerToken auth) \<noteq> [] then [auth_BearerToken auth] else [])
       (auth_BearerTokens auth)"

definition isLoopbackHost :: "go_lib \<Rightarrow> string \<Rightarrow> bool" where
  "isLoopbackHost lib host =
     (let host = trim_chars ''[]'' host
      in equal_fold host ''localhost'' \<or> lib_ParseIP lib host = Some True)"

definition validateListenAddress :: "go_lib \<Rightarrow> string \<Rightarrow> bool \<Rightarrow> listen_error option" where
  "validateListenAddress lib listen publicMode =
     (case SplitHostPort listen of
        None \<Rightarrow> Some ListenFormat
      | Some (host, portStr) \<Rightarrow>
          (case atoi portStr of
             None \<Rightarrow> Some (ListenPort portStr)
           | Some port \<Rightarrow>
               if port < 1 \<or> port > 65535 then Some (ListenPort portStr)
               else if \<not> isLoopbackHost lib host \<and> \<not> publicMode then Some (ListenNotLoopback host)
               else if publicMode \<and> trim_space host = [] then Some ListenHostEmpty
               else None))"

fun reject_folded :: "string \<Rightarrow> (string, string) gomap \<Rightarrow> string list \<Rightarrow> server_error option" where
  "reject_folded field seen [] = None"
| "reject_folded field seen (key # keys) =
     (let normalized = to_lower (trim_space key)
      in if normalized = [] then Some (SrvEmptyKey field)
         else case mget seen normalized of
                Some previous \<Rightarrow> Some (SrvDuplicateKeys field previous key)
              | None \<Rightarrow> reject_folded field (mput normalized key seen) keys)"

definition rejectCaseFoldedDuplicates :: "(string, string) gomap \<Rightarrow> string \<Rightarrow> server_error option" where
  "rejectCaseFoldedDuplicates values field = reject_folded field [] (mkeys values)"

definition validateHTTPURL :: "go_lib \<Rightarrow> string \<Rightarrow> server_error option" where
  "validateHTTPURL lib rawURL =
     (case lib_urlParse lib rawURL of
        None \<Rightarrow> Some SrvURLInvalid
      | Some u \<Rightarrow>
          let scheme = to_lower (url_Scheme u)
          in first_error
               [(url_Hostname u = [] \<or> url_Opaque u \<noteq> [], SrvURLNoHost),
                (url_hasUser u, SrvURLUserinfo),
                (url_Fragment u \<noteq> [], SrvURLFragment),
                (scheme \<noteq> ''https'' \<and> scheme \<noteq> ''http'', SrvURLScheme scheme),
                (scheme = ''http'' \<and> \<not> isLoopbackHost lib (url_Hostname u), SrvURLNotLoopback (url_Hostname u))])"

text \<open>A duration setting: empty, or a positive duration of at most a day.\<close>

definition duration_ok :: "go_lib \<Rightarrow> string \<Rightarrow> bool" where
  "duration_ok lib s \<longleftrightarrow>
     (case lib_ParseDuration lib s of None \<Rightarrow> False | Some d \<Rightarrow> \<not> (d \<le> 0 \<or> d > MaxDuration))"

fun check_disabled :: "string list \<Rightarrow> string list \<Rightarrow> server_error option" where
  "check_disabled seen [] = None"
| "check_disabled seen (t # ts) =
     (if trim_space t = [] then Some SrvEmptyToolName
      else if t \<in> set seen then Some (SrvDuplicateTool t)
      else check_disabled (t # seen) ts)"

definition validate_type :: "go_lib \<Rightarrow> ServerConfig \<Rightarrow> server_error option" where
  "validate_type lib s =
     (if sc_Type s = ServerTypeStdio then
        (case first_error
           [(trim_space (sc_Command s) = [], SrvCommandRequired),
            (sc_URL s \<noteq> [], SrvURLForbidden),
            (length (sc_Headers s) > 0, SrvHeadersForbidden)] of
           Some e \<Rightarrow> Some e
         | None \<Rightarrow> rejectCaseFoldedDuplicates (sc_Env s) ''env'')
      else if sc_Type s = ServerTypeStreamableHTTP then
        (case first_error
           [(trim_space (sc_URL s) = [], SrvURLRequired),
            (sc_Command s \<noteq> [], SrvCommandForbidden),
            (length (sc_Args s) > 0, SrvArgsForbidden),
            (sc_Cwd s \<noteq> [], SrvCwdForbidden),
            (length (sc_Env s) > 0, SrvEnvForbidden)] of
           Some e \<Rightarrow> Some e
         | None \<Rightarrow>
             (case validateHTTPURL lib (sc_URL s) of
                Some e \<Rightarrow> Some e
              | None \<Rightarrow>
                  (case rejectCaseFoldedDuplicates (sc_Headers s) ''headers'' of
                     Some e \<Rightarrow> Some e
                   | None \<Rightarrow> first_failure (\<lambda>h. if to_lower (trim_space h) \<in> set forbiddenHeaders
                                              then Some (SrvForbiddenHeader h) else None) (mkeys (sc_Headers s)))))
      else if sc_Type s = ''sse'' then Some SrvSSE
      else if sc_Type s = [] then Some SrvTypeRequired
      else Some (SrvTypeUnsupported (sc_Type s)))"

definition validateServer :: "go_lib \<Rightarrow> string \<Rightarrow> ServerConfig \<Rightarrow> server_error option" where
  "validateServer lib sid s =
     (if \<not> serverIDRegex sid then Some SrvInvalidID
      else case validate_type lib s of
             Some e \<Rightarrow> Some e
           | None \<Rightarrow>
               (case first_error
                  [(sc_StartupTimeout s \<noteq> [] \<and> \<not> duration_ok lib (sc_StartupTimeout s), SrvStartupTimeout (sc_StartupTimeout s)),
                   (sc_CallTimeout s \<noteq> [] \<and> \<not> duration_ok lib (sc_CallTimeout s), SrvCallTimeout (sc_CallTimeout s)),
                   (sc_MaxConcurrency s \<noteq> 0 \<and>
                      (sc_MaxConcurrency s < MinConcurrency \<or> sc_MaxConcurrency s > MaxConcurrency),
                    SrvMaxConcurrency (sc_MaxConcurrency s))] of
                  Some e \<Rightarrow> Some e
                | None \<Rightarrow> check_disabled [] (sc_Disabled s)))"

definition public_url_ok :: "go_lib \<Rightarrow> string \<Rightarrow> bool" where
  "public_url_ok lib raw \<longleftrightarrow>
     (case lib_urlParse lib raw of
        None \<Rightarrow> False
      | Some u \<Rightarrow>
          \<not> (url_Scheme u \<noteq> ''https'' \<or> url_Hostname u = [] \<or> url_hasUser u \<or> url_Opaque u \<noteq> [] \<or>
             (url_Path u \<noteq> [] \<and> url_Path u \<noteq> ''/'') \<or> url_RawPath u \<noteq> [] \<or> url_RawQuery u \<noteq> [] \<or>
             url_ForceQuery u \<or> CHR ''#'' \<in> set raw))"

definition session_timeout_ok :: "go_lib \<Rightarrow> string \<Rightarrow> bool" where
  "session_timeout_ok lib s \<longleftrightarrow>
     (case lib_ParseDuration lib s of None \<Rightarrow> False | Some d \<Rightarrow> \<not> (d < minute \<or> d > 24 * 60 * minute))"

definition effective_listen :: "HubConfig \<Rightarrow> string" where
  "effective_listen hub = (if hub_Listen hub = [] then DefaultListen else hub_Listen hub)"

text \<open>The checks of \<^verbatim>\<open>Validate\<close> that concern the hub, in their order, from the bearer tokens on.\<close>

definition validate_hub :: "go_lib \<Rightarrow> HubConfig \<Rightarrow> config_error option" where
  "validate_hub lib hub =
     (let admin = hub_Admin hub
      in case (if hub_PublicMode hub then
                 first_error
                   [(trim_space (hub_PublicURL hub) = [], CfgPublicURLMissing),
                    (\<not> public_url_ok lib (hub_PublicURL hub), CfgPublicURLInvalid),
                    (length (hub_AllowedHosts hub) = 0, CfgAllowedHostsMissing),
                    (\<not> hasRawBearerToken (hub_Auth hub), CfgAuthMissing)]
               else None) of
           Some e \<Rightarrow> Some e
         | None \<Rightarrow>
             (case (if adm_Enabled admin then
                      first_error
                        [(trim_space (adm_Token admin) = [], CfgAdminTokenMissing),
                         (adm_SessionTimeout admin \<noteq> [] \<and> \<not> session_timeout_ok lib (adm_SessionTimeout admin),
                          CfgAdminSessionTimeout)]
                    else None) of
                Some e \<Rightarrow> Some e
              | None \<Rightarrow>
                  (case first_failure (\<lambda>host. if trim_space host = [] \<or> contains_any host [CHR ''/'', CHR 0x5C]
                                         then Some (CfgAllowedHost host) else None) (hub_AllowedHosts hub) of
                     Some e \<Rightarrow> Some e
                   | None \<Rightarrow> first_failure (\<lambda>cidr. if lib_ParseCIDR lib cidr then None else Some (CfgTrustedProxy cidr))
                               (hub_TrustedProxies hub))))"

definition validate_defaults :: "go_lib \<Rightarrow> DefaultsConfig \<Rightarrow> config_error option" where
  "validate_defaults lib d =
     first_error
       [(def_StartupTimeout d \<noteq> [] \<and> \<not> duration_ok lib (def_StartupTimeout d), CfgDefaultsStartup (def_StartupTimeout d)),
        (def_CallTimeout d \<noteq> [] \<and> \<not> duration_ok lib (def_CallTimeout d), CfgDefaultsCall (def_CallTimeout d)),
        (def_MaxConcurrency d \<noteq> 0 \<and> (def_MaxConcurrency d < MinConcurrency \<or> def_MaxConcurrency d > MaxConcurrency),
         CfgDefaultsConcurrency (def_MaxConcurrency d))]"

definition Validate :: "go_lib \<Rightarrow> Config option \<Rightarrow> config_error option" where
  "Validate lib cfg =
     (case cfg of
        None \<Rightarrow> Some CfgNil
      | Some c \<Rightarrow>
          if cfg_Version c \<noteq> CurrentVersion then Some (CfgVersion (cfg_Version c))
          else case validateListenAddress lib (effective_listen (cfg_Hub c)) (hub_PublicMode (cfg_Hub c)) of
                 Some e \<Rightarrow> Some (CfgListen e)
               | None \<Rightarrow>
                   (case validateRawBearerTokens (hub_Auth (cfg_Hub c)) of
                      Some e \<Rightarrow> Some e
                    | None \<Rightarrow>
                        (case validate_hub lib (cfg_Hub c) of
                           Some e \<Rightarrow> Some e
                         | None \<Rightarrow>
                             (case validate_defaults lib (cfg_Defaults c) of
                                Some e \<Rightarrow> Some e
                              | None \<Rightarrow>
                                  if length (cfg_MCPServers c) > MaxServers
                                  then Some (CfgTooManyServers (length (cfg_MCPServers c)))
                                  else first_failure (\<lambda>(sid, s). map_option (CfgServer sid) (validateServer lib sid s))
                                         (cfg_MCPServers c)))))"

end
