(* ===== verification/Generation.thy ===== *)
theory Generation
  imports Config_Types
begin

text \<open>
  A generation of a downstream connection and its leases (\<^verbatim>\<open>internal/manager/types.go\<close>): admission,
  the count of active leases, draining and closing. Every method runs under \<^verbatim>\<open>g.mu\<close>, so
  it is one step; \<^verbatim>\<open>drain\<close> releases the lock between its iterations and is therefore modelled as a
  state machine of its own, \<open>gen_step\<close>, interleaved with the other operations.

  Shown: the active count is the number of leases that were handed out and not released, and at
  most the maximum; a drain that returns without a timeout leaves no lease; with one drain at a time no
  wakeup is lost, with two a wakeup can be lost until the timeout.
\<close>

section \<open>Operations\<close>

datatype lease_error = ErrServerNotFound | ErrNotAdmitting | ErrConcurrencyLimit | ErrManagerStopped

text \<open>The effects of \<^verbatim>\<open>Close\<close> on what the generation owns, in their order.\<close>

datatype close_event = CancelContext | CloseSession nat | CloseProcess nat

record Generation =
  gen_id :: "64 word"
  gen_serverID :: string
  gen_revision :: int
  gen_session :: "nat option"
  gen_processCloser :: "nat option"
  gen_maxConcurrency :: int
  gen_callTimeout :: int
  gen_admission :: bool
  gen_active :: int
  gen_drainCh :: bool
  gen_closed :: bool
  gen_closeEvents :: "close_event list"

text \<open>\<^verbatim>\<open>drainCh\<close> has capacity 1: \<open>gen_drainCh\<close> tells whether it holds a token.\<close>

definition newGeneration ::
  "64 word \<Rightarrow> string \<Rightarrow> nat option \<Rightarrow> nat option \<Rightarrow> int \<Rightarrow> int \<Rightarrow> int \<Rightarrow> Generation" where
  "newGeneration gid serverID session processCloser maxConcurrency callTimeout revision =
     \<lparr>gen_id = gid, gen_serverID = serverID, gen_revision = revision, gen_session = session,
      gen_processCloser = processCloser,
      gen_maxConcurrency = (if maxConcurrency \<le> 0 then DefaultMaxConcurrency else maxConcurrency),
      gen_callTimeout = callTimeout, gen_admission = True, gen_active = 0, gen_drainCh = False,
      gen_closed = False, gen_closeEvents = []\<rparr>"

definition acquire :: "Generation \<Rightarrow> (lease_error + unit) \<times> Generation" where
  "acquire g =
     (if \<not> gen_admission g \<or> gen_closed g then (Inl ErrNotAdmitting, g)
      else if gen_active g \<ge> gen_maxConcurrency g then (Inl ErrConcurrencyLimit, g)
      else (Inr (), g\<lparr>gen_active := gen_active g + 1\<rparr>))"

definition release :: "Generation \<Rightarrow> Generation" where
  "release g =
     (let g = g\<lparr>gen_active := gen_active g - 1\<rparr>
      in if gen_active g \<le> 0 then g\<lparr>gen_active := 0, gen_drainCh := True\<rparr> else g)"

text \<open>A lease: \<^verbatim>\<open>releaseOnce\<close> lets only the first \<^verbatim>\<open>Release\<close> reach the generation.\<close>

record Lease =
  lease_released :: bool

definition Lease_Release :: "Lease \<Rightarrow> Generation \<Rightarrow> Lease \<times> Generation" where
  "Lease_Release l g =
     (if lease_released l then (l, g) else (l\<lparr>lease_released := True\<rparr>, release g))"

text \<open>\<^verbatim>\<open>closeOnce\<close>: the body runs only when the generation is not closed yet.\<close>

definition gen_Close :: "Generation \<Rightarrow> Generation" where
  "gen_Close g =
     (if gen_closed g then g
      else g\<lparr>gen_admission := False, gen_closed := True,
             gen_closeEvents := gen_closeEvents g @ [CancelContext] @
               (case gen_session g of None \<Rightarrow> [] | Some s \<Rightarrow> [CloseSession s]) @
               (case gen_processCloser g of None \<Rightarrow> [] | Some p \<Rightarrow> [CloseProcess p])\<rparr>)"

definition IsAdmitting :: "Generation \<Rightarrow> bool" where
  "IsAdmitting g \<longleftrightarrow> gen_admission g \<and> \<not> gen_closed g"

definition SetCallTimeout :: "Generation \<Rightarrow> int \<Rightarrow> Generation" where
  "SetCallTimeout g d = g\<lparr>gen_callTimeout := d\<rparr>"

section \<open>Draining\<close>

text \<open>
  A call of \<^verbatim>\<open>drain\<close> is at the check of \<^verbatim>\<open>g.active\<close>, waits in the \<^verbatim>\<open>select\<close>, or has returned
  (with \<^term>\<open>True\<close> when the timer fired).
\<close>

datatype drain_pc = DrainCheck | DrainWait | DrainReturned bool

definition drain_start :: "Generation \<Rightarrow> drain_pc \<times> Generation" where
  "drain_start g =
     (let g = g\<lparr>gen_admission := False\<rparr>
      in (if gen_active g = 0 then DrainReturned False else DrainCheck, g))"

definition drain_check :: "Generation \<Rightarrow> drain_pc" where
  "drain_check g = (if gen_active g = 0 then DrainReturned False else DrainWait)"

record gen_sys =
  gs_gen :: Generation
  gs_leases :: "Lease list"
  gs_drains :: "drain_pc list"

inductive gen_step :: "gen_sys \<Rightarrow> gen_sys \<Rightarrow> bool" where
  step_acquire: "acquire (gs_gen s) = (Inr (), g') \<Longrightarrow>
    gen_step s (s\<lparr>gs_gen := g', gs_leases := gs_leases s @ [\<lparr>lease_released = False\<rparr>]\<rparr>)"
| step_release: "i < length (gs_leases s) \<Longrightarrow> Lease_Release (gs_leases s ! i) (gs_gen s) = (l', g') \<Longrightarrow>
    gen_step s (s\<lparr>gs_gen := g', gs_leases := (gs_leases s)[i := l']\<rparr>)"
| step_drain: "drain_start (gs_gen s) = (pc, g') \<Longrightarrow>
    gen_step s (s\<lparr>gs_gen := g', gs_drains := gs_drains s @ [pc]\<rparr>)"
| step_check: "j < length (gs_drains s) \<Longrightarrow> gs_drains s ! j = DrainCheck \<Longrightarrow>
    gen_step s (s\<lparr>gs_drains := (gs_drains s)[j := drain_check (gs_gen s)]\<rparr>)"
| step_token: "j < length (gs_drains s) \<Longrightarrow> gs_drains s ! j = DrainWait \<Longrightarrow> gen_drainCh (gs_gen s) \<Longrightarrow>
    gen_step s (s\<lparr>gs_gen := (gs_gen s)\<lparr>gen_drainCh := False\<rparr>,
                  gs_drains := (gs_drains s)[j := DrainCheck]\<rparr>)"
| step_timeout: "j < length (gs_drains s) \<Longrightarrow> gs_drains s ! j = DrainWait \<Longrightarrow>
    gen_step s (s\<lparr>gs_drains := (gs_drains s)[j := DrainReturned True]\<rparr>)"
| step_close: "gen_step s (s\<lparr>gs_gen := gen_Close (gs_gen s)\<rparr>)"

inductive gen_reachable :: "gen_sys \<Rightarrow> bool" where
  init: "gen_reachable \<lparr>gs_gen = newGeneration gid sid sess proc maxC timeout rv,
                        gs_leases = [], gs_drains = []\<rparr>"
| step: "gen_reachable s \<Longrightarrow> gen_step s s' \<Longrightarrow> gen_reachable s'"

inductive_cases gen_stepE: "gen_step s s'"

section \<open>Invariant\<close>

definition held :: "Lease list \<Rightarrow> nat" where
  "held ls = length (filter (\<lambda>l. \<not> lease_released l) ls)"

definition gen_inv :: "gen_sys \<Rightarrow> bool" where
  "gen_inv s \<longleftrightarrow>
     gen_active (gs_gen s) = int (held (gs_leases s)) \<and>
     gen_active (gs_gen s) \<le> gen_maxConcurrency (gs_gen s) \<and> gen_maxConcurrency (gs_gen s) > 0 \<and>
     (gs_drains s \<noteq> [] \<longrightarrow> \<not> gen_admission (gs_gen s)) \<and>
     (DrainReturned False \<in> set (gs_drains s) \<longrightarrow> gen_active (gs_gen s) = 0)"

lemma held_append [simp]: "held (ls @ ls') = held ls + held ls'"
  by (simp add: held_def)

lemma held_update:
  "i < length ls \<Longrightarrow> held (ls[i := l]) + (if lease_released (ls ! i) then 0 else 1) =
     held ls + (if lease_released l then 0 else 1)"
proof (induction ls arbitrary: i)
  case Nil
  then show ?case by simp
next
  case (Cons a ls)
  show ?case
  proof (cases i)
    case 0
    then show ?thesis by (simp add: held_def)
  next
    case (Suc k)
    with Cons.IH [of k] Cons.prems show ?thesis by (auto simp: held_def split: if_splits)
  qed
qed

lemma release_fields [simp]:
  "gen_maxConcurrency (release g) = gen_maxConcurrency g" "gen_admission (release g) = gen_admission g"
  "gen_closed (release g) = gen_closed g"
  by (simp_all add: release_def Let_def)

lemma release_active: "gen_active (release g) = max 0 (gen_active g - 1)"
  by (simp add: release_def Let_def)

lemma gen_Close_fields [simp]:
  "gen_active (gen_Close g) = gen_active g" "gen_maxConcurrency (gen_Close g) = gen_maxConcurrency g"
  "gen_drainCh (gen_Close g) = gen_drainCh g" "gen_admission (gen_Close g) \<longrightarrow> gen_admission g"
  by (simp_all add: gen_Close_def)

lemma set_list_updateD: "x \<in> set (xs[i := y]) \<Longrightarrow> x = y \<or> x \<in> set xs"
  by (meson insertE set_update_subset_insert subsetD)

lemma gen_inv_init: "gen_inv \<lparr>gs_gen = newGeneration gid sid sess proc maxC timeout rv,
    gs_leases = [], gs_drains = []\<rparr>"
  by (simp add: gen_inv_def newGeneration_def held_def DefaultMaxConcurrency_def)

lemma gen_inv_step:
  assumes "gen_step s s'" and inv: "gen_inv s"
  shows "gen_inv s'"
  using assms(1)
proof cases
  case (step_acquire g')
  then have "gs_drains s = []" and g': "g' = (gs_gen s)\<lparr>gen_active := gen_active (gs_gen s) + 1\<rparr>"
    and "gen_active (gs_gen s) < gen_maxConcurrency (gs_gen s)"
    using inv by (auto simp: acquire_def gen_inv_def split: if_splits)
  with inv step_acquire(1) show ?thesis by (simp add: gen_inv_def held_def)
next
  case (step_release i l' g')
  show ?thesis
  proof (cases "lease_released (gs_leases s ! i)")
    case True
    then have "l' = gs_leases s ! i" "g' = gs_gen s"
      using step_release(3) by (auto simp: Lease_Release_def)
    with inv step_release(1) show ?thesis by simp
  next
    case False
    then have l': "lease_released l'" and g': "g' = release (gs_gen s)"
      using step_release(3) by (auto simp: Lease_Release_def)
    from held_update [OF step_release(2), of l'] l' False
    have "held ((gs_leases s)[i := l']) + 1 = held (gs_leases s)" by simp
    with inv g' show ?thesis
      by (auto simp: step_release(1) gen_inv_def release_active)
  qed
next
  case (step_drain pc g')
  with inv show ?thesis
    by (auto simp: gen_inv_def drain_start_def Let_def split: if_splits)
next
  case (step_check j)
  with inv show ?thesis
    by (auto simp: gen_inv_def drain_check_def dest!: set_list_updateD split: if_splits)
next
  case (step_token j)
  with inv show ?thesis by (auto simp: gen_inv_def dest!: set_list_updateD)
next
  case (step_timeout j)
  with inv show ?thesis by (auto simp: gen_inv_def dest!: set_list_updateD)
next
  case step_close
  with inv show ?thesis by (auto simp: gen_inv_def) 
qed

lemma gen_reachable_inv: "gen_reachable s \<Longrightarrow> gen_inv s"
  by (induction rule: gen_reachable.induct) (auto simp: gen_inv_init intro: gen_inv_step)

section \<open>Properties\<close>

text \<open>
  C8. In every reachable state of a generation, with acquisitions, releases (repeated ones included),
  drains and closes in any order, the active count is exactly the number of leases handed out and
  not released, and never exceeds the concurrency limit.
\<close>

theorem active_counts_leases:
  assumes "gen_reachable s"
  shows "gen_active (gs_gen s) = int (held (gs_leases s)) \<and>
    gen_active (gs_gen s) \<le> gen_maxConcurrency (gs_gen s)"
  using gen_reachable_inv [OF assms] by (simp add: gen_inv_def)

text \<open>
  Once some drain has returned without its timer firing, no lease is held and none is handed out
  any more.
\<close>

theorem drain_returns_drained:
  assumes "gen_reachable s" and "DrainReturned False \<in> set (gs_drains s)"
  shows "held (gs_leases s) = 0 \<and> fst (acquire (gs_gen s)) = Inl ErrNotAdmitting"
proof -
  have "gs_drains s \<noteq> []" using assms(2) by auto
  with gen_reachable_inv [OF assms(1)] assms(2) show ?thesis by (simp add: gen_inv_def acquire_def)
qed

lemma single_drain_step:
  assumes "gen_step s s'" and "gen_inv s"
    and "gs_drains s = [DrainWait] \<longrightarrow> gen_active (gs_gen s) = 0 \<longrightarrow> gen_drainCh (gs_gen s)"
    and "gs_drains s' = [DrainWait]" and "gen_active (gs_gen s') = 0"
  shows "gen_drainCh (gs_gen s')"
  using assms(1)
proof cases
  case (step_acquire g')
  with assms(2,4) show ?thesis by (auto simp: acquire_def gen_inv_def split: if_splits)
next
  case (step_release i l' g')
  with assms show ?thesis by (auto simp: Lease_Release_def release_def Let_def split: if_splits)
next
  case (step_drain pc g')
  with assms show ?thesis by (auto simp: drain_start_def Let_def split: if_splits)
next
  case (step_check j)
  with assms show ?thesis
    by (cases "gs_drains s") (auto simp: drain_check_def split: if_splits nat.splits)
next
  case (step_token j)
  with assms(4) show ?thesis by (cases "gs_drains s") (auto split: nat.splits)
next
  case (step_timeout j)
  with assms(4) show ?thesis by (cases "gs_drains s") (auto split: nat.splits)
next
  case step_close
  with assms show ?thesis by simp
qed

text \<open>
  With a single drain no wakeup is lost: whenever it waits although no lease is active, the token is
  in the channel, so it wakes up before its timer fires.
\<close>

theorem single_drain_no_lost_wakeup:
  assumes "gen_reachable s" and "gs_drains s = [DrainWait]" and "gen_active (gs_gen s) = 0"
  shows "gen_drainCh (gs_gen s)"
proof -
  have "gen_reachable s \<Longrightarrow>
      gs_drains s = [DrainWait] \<longrightarrow> gen_active (gs_gen s) = 0 \<longrightarrow> gen_drainCh (gs_gen s)" for s
  proof (induction rule: gen_reachable.induct)
    case init
    then show ?case by simp
  next
    case (step s s')
    then show ?case using single_drain_step gen_reachable_inv by blast
  qed
  with assms show ?thesis by blast
qed

text \<open>
  C9. With two drains of the same generation a wakeup is lost: the single token wakes one of them,
  and the other one keeps waiting for its timer although no lease is active.
\<close>

definition demo_gen ::
  "int \<Rightarrow> bool \<Rightarrow> bool \<Rightarrow> bool list \<Rightarrow> drain_pc list \<Rightarrow> gen_sys" where
  "demo_gen active token admission leases drains =
     \<lparr>gs_gen = (newGeneration 1 ''fs'' None None 8 0 1)\<lparr>gen_active := active, gen_drainCh := token,
        gen_admission := admission\<rparr>,
      gs_leases = map (\<lambda>b. \<lparr>lease_released = b\<rparr>) leases, gs_drains = drains\<rparr>"

lemmas demo_gen_simps = demo_gen_def newGeneration_def acquire_def Lease_Release_def release_def
  drain_start_def drain_check_def Let_def DefaultMaxConcurrency_def

lemma demo_gen_init: "gen_reachable (demo_gen 0 False True [] [])"
  using gen_reachable.init [of 1 "''fs''" None None 8 0 1] by (simp add: demo_gen_simps)

lemma demo_gen_steps:
  "gen_step (demo_gen 0 False True [] []) (demo_gen 1 False True [False] [])"
  "gen_step (demo_gen 1 False True [False] []) (demo_gen 1 False False [False] [DrainCheck])"
  "gen_step (demo_gen 1 False False [False] [DrainCheck])
     (demo_gen 1 False False [False] [DrainCheck, DrainCheck])"
  "gen_step (demo_gen 1 False False [False] [DrainCheck]) (demo_gen 1 False False [False] [DrainWait])"
  "gen_step (demo_gen 1 False False [False] [DrainWait]) (demo_gen 0 True False [True] [DrainWait])"
  "gen_step (demo_gen 0 True False [True] [DrainWait]) (demo_gen 0 False False [True] [DrainCheck])"
  "gen_step (demo_gen 0 False False [True] [DrainCheck]) (demo_gen 0 False False [True] [DrainReturned False])"
  using gen_step.step_acquire [of "demo_gen 0 False True [] []"]
    gen_step.step_drain [of "demo_gen 1 False True [False] []"]
    gen_step.step_drain [of "demo_gen 1 False False [False] [DrainCheck]"]
    gen_step.step_check [of 0 "demo_gen 1 False False [False] [DrainCheck]"]
    gen_step.step_release [of 0 "demo_gen 1 False False [False] [DrainWait]"]
    gen_step.step_token [of 0 "demo_gen 0 True False [True] [DrainWait]"]
    gen_step.step_check [of 0 "demo_gen 0 False False [True] [DrainCheck]"]
  by (simp_all add: demo_gen_simps)

lemma demo_gen_two_steps:
  "gen_step (demo_gen 1 False False [False] [DrainCheck, DrainCheck])
     (demo_gen 1 False False [False] [DrainWait, DrainCheck])"
  "gen_step (demo_gen 1 False False [False] [DrainWait, DrainCheck])
     (demo_gen 1 False False [False] [DrainWait, DrainWait])"
  "gen_step (demo_gen 1 False False [False] [DrainWait, DrainWait])
     (demo_gen 0 True False [True] [DrainWait, DrainWait])"
  "gen_step (demo_gen 0 True False [True] [DrainWait, DrainWait])
     (demo_gen 0 False False [True] [DrainCheck, DrainWait])"
  "gen_step (demo_gen 0 False False [True] [DrainCheck, DrainWait])
     (demo_gen 0 False False [True] [DrainReturned False, DrainWait])"
  using gen_step.step_check [of 0 "demo_gen 1 False False [False] [DrainCheck, DrainCheck]"]
    gen_step.step_check [of 1 "demo_gen 1 False False [False] [DrainWait, DrainCheck]"]
    gen_step.step_release [of 0 "demo_gen 1 False False [False] [DrainWait, DrainWait]"]
    gen_step.step_token [of 0 "demo_gen 0 True False [True] [DrainWait, DrainWait]"]
    gen_step.step_check [of 0 "demo_gen 0 False False [True] [DrainCheck, DrainWait]"]
  by (simp_all add: demo_gen_simps)

lemma demo_gen_reachable:
  "gen_reachable (demo_gen 1 False False [False] [DrainCheck])"
  "gen_reachable (demo_gen 0 True False [True] [DrainWait])"
  "gen_reachable (demo_gen 0 False False [True] [DrainReturned False])"
  using demo_gen_init demo_gen_steps by (meson gen_reachable.step)+

theorem two_drains_lost_wakeup:
  "\<exists>s. gen_reachable s \<and> gs_drains s = [DrainReturned False, DrainWait] \<and>
     gen_active (gs_gen s) = 0 \<and> \<not> gen_drainCh (gs_gen s)"
proof -
  have "gen_reachable (demo_gen 0 False False [True] [DrainReturned False, DrainWait])"
    using demo_gen_reachable(1) demo_gen_steps(3) demo_gen_two_steps by (meson gen_reachable.step)
  then show ?thesis by (intro exI conjI) (auto simp: demo_gen_simps)
qed

text \<open>
  Closing is idempotent: however often a generation is closed, its context is cancelled and
  its session and its process are closed once, in this order, and it admits no lease afterwards.
\<close>

theorem Close_once:
  assumes "\<not> gen_closed g" and "gen_closeEvents g = []"
  shows "gen_closeEvents ((gen_Close ^^ Suc n) g) =
      [CancelContext] @ (case gen_session g of None \<Rightarrow> [] | Some s \<Rightarrow> [CloseSession s]) @
      (case gen_processCloser g of None \<Rightarrow> [] | Some p \<Rightarrow> [CloseProcess p]) \<and>
    \<not> IsAdmitting ((gen_Close ^^ Suc n) g)"
proof (induction n)
  case 0
  show ?case using assms by (simp add: gen_Close_def IsAdmitting_def)
next
  case (Suc n)
  have "gen_closed (gen_Close h)" for h by (simp add: gen_Close_def)
  moreover have "gen_Close h = h" if "gen_closed h" for h using that by (simp add: gen_Close_def)
  ultimately have "gen_Close (gen_Close h) = gen_Close h" for h by blast
  with Suc show ?case by simp
qed

section \<open>Witnesses\<close>

theorem active_counts_leases_witness:
  "gen_active (gs_gen (demo_gen 1 False False [False] [DrainCheck])) = 1 \<and>
   gen_active (gs_gen (demo_gen 1 False False [False] [DrainCheck])) \<le>
     gen_maxConcurrency (gs_gen (demo_gen 1 False False [False] [DrainCheck]))"
  using active_counts_leases [OF demo_gen_reachable(1)] by (simp add: demo_gen_simps held_def)

theorem drain_returns_drained_witness:
  "held (gs_leases (demo_gen 0 False False [True] [DrainReturned False])) = 0 \<and>
   fst (acquire (gs_gen (demo_gen 0 False False [True] [DrainReturned False]))) = Inl ErrNotAdmitting"
  using drain_returns_drained [OF demo_gen_reachable(3)] by (simp add: demo_gen_def)

theorem single_drain_no_lost_wakeup_witness:
  "gen_drainCh (gs_gen (demo_gen 0 True False [True] [DrainWait]))"
  by (rule single_drain_no_lost_wakeup [OF demo_gen_reachable(2)]) (simp_all add: demo_gen_def)

theorem Close_once_witness:
  "gen_closeEvents ((gen_Close ^^ Suc 1) (newGeneration 1 ''fs'' (Some 7) (Some 9) 8 0 1)) =
     [CancelContext, CloseSession 7, CloseProcess 9]"
  using Close_once [of "newGeneration 1 ''fs'' (Some 7) (Some 9) 8 0 1" 1] by (simp add: newGeneration_def)

end
