(* ===== verification/Coordinator.thy ===== *)
theory Coordinator
  imports Complex_Main Publisher Generation
begin

text \<open>
  The coordinator of one downstream server (\<^verbatim>\<open>internal/manager/coordinator.go\<close>): configuration changes,
  connecting, discovery, publication, refresh, back-off, disabling and stopping.

  The code has two locks: \<^verbatim>\<open>publishMu\<close> linearizes changes of the desired revision with publication, and
  \<^verbatim>\<open>mu\<close> protects the fields. Every region between two blocking points is a definition here,
  and the step relation \<open>coord_step\<close> interleaves the coordinator's goroutine, whose program point is
  \<open>coord_pc\<close>, with \<^verbatim>\<open>UpdateConfig\<close>, \<^verbatim>\<open>Stop\<close>, notifications and lease traffic of other goroutines.
  Waiting inside \<^verbatim>\<open>drain\<close> is the subject of theory \<open>Generation\<close>; here a drain ends by closing the
  generation, with or without leases left.

  The publisher is given by its two operations (\<open>pub_ops\<close>); what the session factory and the
  sessions answer comes with the steps. Generations live in a store, because leases and the
  coordinator share them.
\<close>

section \<open>Comparing configurations\<close>

datatype configChangeType =
    changeNone | changeToolsOnly | changeTimeoutOnly | changeToolsAndTimeout | changeConnection

fun slicesEqual :: "string list \<Rightarrow> string list \<Rightarrow> bool" where
  "slicesEqual [] [] = True"
| "slicesEqual (a # as) (b # bs) = (a = b \<and> slicesEqual as bs)"
| "slicesEqual _ _ = False"

definition mapsEqual :: "(string, string) gomap \<Rightarrow> (string, string) gomap \<Rightarrow> bool" where
  "mapsEqual a b \<longleftrightarrow> length a = length b \<and> list_all (\<lambda>(k, v). mget b k = Some v) a"

definition toolSetsEqual :: "(string, unit) gomap \<Rightarrow> (string, unit) gomap \<Rightarrow> bool" where
  "toolSetsEqual a b \<longleftrightarrow> length a = length b \<and> list_all (\<lambda>(k, _). mhas b k) a"

definition diffConfig :: "ResolvedServer \<Rightarrow> ResolvedServer \<Rightarrow> configChangeType" where
  "diffConfig old new =
     (if rs_Enabled old \<noteq> rs_Enabled new \<or> rs_Type old \<noteq> rs_Type new \<or>
         rs_Command old \<noteq> rs_Command new \<or> rs_Cwd old \<noteq> rs_Cwd new \<or> rs_URL old \<noteq> rs_URL new \<or>
         rs_MaxConcurrency old \<noteq> rs_MaxConcurrency new \<or>
         rs_StartupTimeout old \<noteq> rs_StartupTimeout new \<or>
         \<not> slicesEqual (rs_Args old) (rs_Args new) \<or> \<not> mapsEqual (rs_Env old) (rs_Env new) \<or>
         \<not> mapsEqual (rs_Headers old) (rs_Headers new)
      then changeConnection
      else
        let toolsDiff = \<not> toolSetsEqual (rs_DisabledTools old) (rs_DisabledTools new);
            timeoutDiff = rs_CallTimeout old \<noteq> rs_CallTimeout new
        in if toolsDiff \<and> timeoutDiff then changeToolsAndTimeout
           else if toolsDiff then changeToolsOnly
           else if timeoutDiff then changeTimeoutOnly
           else changeNone)"

definition disabledNames :: "(string, unit) gomap \<Rightarrow> string list" where
  "disabledNames disabled = mkeys disabled"

section \<open>Errors shown to operators\<close>

text \<open>What \<^verbatim>\<open>sanitizeError\<close> asks of an error: \<^verbatim>\<open>errors.Is\<close>, \<^verbatim>\<open>errors.As\<close> and its text.\<close>

record go_error =
  err_isDeadlineExceeded :: bool
  err_isCanceled :: bool
  err_isNotExist :: bool
  err_isPermission :: bool
  err_asNetTimeout :: "bool option"
  err_text :: string

definition plain_error :: "string \<Rightarrow> go_error" where
  "plain_error t = \<lparr>err_isDeadlineExceeded = False, err_isCanceled = False, err_isNotExist = False,
     err_isPermission = False, err_asNetTimeout = None, err_text = t\<rparr>"

text \<open>\<^verbatim>\<open>fmt.Errorf("...: %w", err)\<close> keeps the identity of the wrapped error and prefixes its text.\<close>

definition wrap_error :: "string \<Rightarrow> go_error \<Rightarrow> go_error" where
  "wrap_error prefix e = e\<lparr>err_text := prefix @ err_text e\<rparr>"

definition sanitizeError :: "go_error option \<Rightarrow> string" where
  "sanitizeError err =
     (case err of
        None \<Rightarrow> []
      | Some e \<Rightarrow>
          if err_isDeadlineExceeded e then ''timeout''
          else if err_isCanceled e then ''canceled''
          else if err_isNotExist e then ''process_not_found''
          else if err_isPermission e then ''permission_denied''
          else
            (case err_asNetTimeout e of
               Some t \<Rightarrow> if t then ''timeout'' else ''network_error''
             | None \<Rightarrow>
                 let message = to_lower (err_text e); has = contains_str message
                 in if has ''connection refused'' \<or> has ''connectex'' then ''connection_refused''
                    else if has ''no such host'' \<or> has ''lookup'' then ''dns_error''
                    else if has ''initialize'' then ''initialize_failed''
                    else if has ''launch stdio'' \<or> has ''start worker'' \<or> has ''start downstream''
                    then ''process_start_failed''
                    else if has ''session closed'' \<or> has ''eof'' \<or> has ''closed pipe''
                    then ''session_closed''
                    else ''downstream_error''))"

section \<open>Back-off\<close>

text \<open>
  \<open>rnd\<close> is what \<^verbatim>\<open>rand.Float64\<close> returned; the product is exact here where the code rounds to a float64.
\<close>

definition defaultBackoffDelays :: "int list" where
  "defaultBackoffDelays = map (\<lambda>s. s * second) [1, 2, 4, 8, 16, 30]"

definition computeBackoff :: "int list \<Rightarrow> int \<Rightarrow> rat \<Rightarrow> int" where
  "computeBackoff backoffDelays failCount rnd =
     (let failCount = (if failCount \<le> 0 then 1 else failCount);
          idx = failCount - 1;
          idx = (if idx \<ge> int (length backoffDelays) then int (length backoffDelays) - 1 else idx);
          base = backoffDelays ! nat idx;
          factor = 8 / 10 + 4 / 10 * rnd
      in \<lfloor>rat_of_int base * factor\<rfloor>)"

section \<open>State\<close>

datatype service_state =
    StateDisabled | StateConnecting | StateReady | StateUnavailable | StateBackoff | StateDraining
  | StateClosed

record DesiredServer =
  des_Revision :: int
  des_ResolvedConfig :: ResolvedServer

text \<open>
  \<open>co_operation\<close> names the attempt whose context \<^verbatim>\<open>operationCancel\<close> cancels; \<open>co_started\<close> and
  \<open>co_cancelled\<close> say whether \<^verbatim>\<open>c.ctx\<close> is set and done; the channels of capacity 1 are flags.
  A zero \<^verbatim>\<open>time.Time\<close> is \<^term>\<open>None\<close>.
\<close>

record Coordinator =
  co_serverID :: string
  co_backoffDelays :: "int list"
  co_readyResetDur :: int
  co_drainTimeout :: int
  co_desired :: DesiredServer
  co_currentGen :: "nat option"
  co_state :: service_state
  co_consecutiveFail :: int
  co_lastError :: string
  co_lastConnected :: "int option"
  co_lastDisconnect :: "int option"
  co_publishedCount :: nat
  co_cachedTools :: "tool list"
  co_everSucceeded :: bool
  co_genSeq :: "64 word"
  co_operation :: "nat option"
  co_operationRevision :: int
  co_started :: bool
  co_cancelled :: bool
  co_reconcileCh :: bool
  co_toolChangedCh :: bool
  co_stopped :: bool

abbreviation co_cfg :: "Coordinator \<Rightarrow> ResolvedServer" where
  "co_cfg c \<equiv> des_ResolvedConfig (co_desired c)"

abbreviation co_rev :: "Coordinator \<Rightarrow> int" where
  "co_rev c \<equiv> des_Revision (co_desired c)"

text \<open>The publisher's operations, and what its errors answer to \<^verbatim>\<open>errors.Is\<close>, \<^verbatim>\<open>errors.As\<close> and \<^verbatim>\<open>Error\<close>.\<close>

record 'p pub_ops =
  po_PublishServer :: "string \<Rightarrow> tool list \<Rightarrow> string list \<Rightarrow> 'p \<Rightarrow> (Snapshot \<times> catalog_error option) \<times> 'p"
  po_RemoveServer :: "string \<Rightarrow> 'p \<Rightarrow> Snapshot \<times> 'p"
  po_error :: "catalog_error \<Rightarrow> go_error"

record 'p coord_world =
  cw_co :: Coordinator
  cw_pub :: 'p
  cw_gens :: "(nat, Generation) gomap"
  cw_nextRef :: nat
  cw_closed :: "nat list"
  cw_cancelledOps :: "nat list"

definition newCoordinator ::
  "string \<Rightarrow> DesiredServer \<Rightarrow> int list \<Rightarrow> int \<Rightarrow> int \<Rightarrow> Coordinator" where
  "newCoordinator serverID desired backoffDelays readyResetDur drainTimeout =
     \<lparr>co_serverID = serverID,
      co_backoffDelays = (if length backoffDelays = 0 then defaultBackoffDelays else backoffDelays),
      co_readyResetDur = (if readyResetDur \<le> 0 then 60 * second else readyResetDur),
      co_drainTimeout = (if drainTimeout \<le> 0 then 10 * second else drainTimeout),
      co_desired = desired, co_currentGen = None,
      co_state = (if rs_Enabled (des_ResolvedConfig desired) then StateConnecting else StateDisabled),
      co_consecutiveFail = 0, co_lastError = [], co_lastConnected = None, co_lastDisconnect = None,
      co_publishedCount = 0, co_cachedTools = [], co_everSucceeded = False, co_genSeq = 0,
      co_operation = None, co_operationRevision = 0, co_started = False, co_cancelled = False,
      co_reconcileCh = False, co_toolChangedCh = False, co_stopped = False\<rparr>"

definition targetCurrent :: "Coordinator \<Rightarrow> int \<Rightarrow> bool" where
  "targetCurrent c rv \<longleftrightarrow> \<not> co_stopped c \<and> rs_Enabled (co_cfg c) \<and> co_rev c = rv"

section \<open>Operations of other goroutines\<close>

definition co_Start :: "Coordinator \<Rightarrow> Coordinator" where
  "co_Start c = (if co_started c then c else c\<lparr>co_started := True\<rparr>)"

definition update_gen :: "nat \<Rightarrow> (Generation \<Rightarrow> Generation) \<Rightarrow> 'p coord_world \<Rightarrow> 'p coord_world" where
  "update_gen ref f w =
     (case mget (cw_gens w) ref of None \<Rightarrow> w
      | Some g \<Rightarrow> w\<lparr>cw_gens := mput ref (f g) (cw_gens w)\<rparr>)"

definition drain_and_close :: "nat \<Rightarrow> 'p coord_world \<Rightarrow> 'p coord_world" where
  "drain_and_close ref w =
     update_gen ref (\<lambda>g. gen_Close (snd (drain_start g))) w"

definition drain_and_close_opt :: "nat option \<Rightarrow> 'p coord_world \<Rightarrow> 'p coord_world" where
  "drain_and_close_opt ref w = (case ref of None \<Rightarrow> w | Some r \<Rightarrow> drain_and_close r w)"

definition cancel_op :: "nat option \<Rightarrow> 'p coord_world \<Rightarrow> 'p coord_world" where
  "cancel_op oper w =
     (case oper of None \<Rightarrow> w | Some n \<Rightarrow> w\<lparr>cw_cancelledOps := n # cw_cancelledOps w\<rparr>)"

text \<open>\<^verbatim>\<open>Stop\<close> up to the drain, which follows as a step of its own.\<close>

definition stop_begin :: "'p coord_world \<Rightarrow> nat option \<times> 'p coord_world" where
  "stop_begin w =
     (let c = cw_co w
      in if co_stopped c then (None, w)
         else (co_currentGen c,
               (cancel_op (co_operation c) w)\<lparr>cw_co := c\<lparr>co_stopped := True, co_operation := None,
                  co_currentGen := None, co_state := StateClosed\<rparr>\<rparr>))"

definition stop_end :: "nat option \<Rightarrow> 'p coord_world \<Rightarrow> 'p coord_world" where
  "stop_end ref w =
     (let w = drain_and_close_opt ref w in w\<lparr>cw_co := (cw_co w)\<lparr>co_cancelled := True\<rparr>\<rparr>)"

text \<open>Publishing the cached tools again with the filter of the new configuration.\<close>

definition republish_cached :: "'p pub_ops \<Rightarrow> DesiredServer \<Rightarrow> 'p coord_world \<Rightarrow> 'p coord_world" where
  "republish_cached ops newDesired w =
     (let c = cw_co w; tools = co_cachedTools c
      in if co_state c = StateReady \<and> length tools > 0 then
           (let disabled = disabledNames (rs_DisabledTools (des_ResolvedConfig newDesired));
                ((snap, err), pub') = po_PublishServer ops (co_serverID c) tools disabled (cw_pub w);
                w = w\<lparr>cw_pub := pub'\<rparr>
            in if err = None \<and> co_rev c = des_Revision newDesired
               then w\<lparr>cw_co := c\<lparr>co_publishedCount := PublishedCount snap (co_serverID c)\<rparr>\<rparr>
               else w)
         else w)"

definition UpdateConfig :: "'p pub_ops \<Rightarrow> DesiredServer \<Rightarrow> 'p coord_world \<Rightarrow> bool \<times> 'p coord_world" where
  "UpdateConfig ops newDesired w =
     (let c = cw_co w; newCfg = des_ResolvedConfig newDesired; change = diffConfig (co_cfg c) newCfg
      in if change = changeNone then (False, w)
         else
           let opCancel = (if co_operationRevision c \<noteq> des_Revision newDesired then co_operation c else None);
               w = cancel_op opCancel (w\<lparr>cw_co := c\<lparr>co_desired := newDesired\<rparr>\<rparr>);
               set_timeout = (\<lambda>w. case co_currentGen c of None \<Rightarrow> w
                 | Some ref \<Rightarrow> update_gen ref (\<lambda>g. SetCallTimeout g (rs_CallTimeout newCfg)) w)
           in case change of
                changeToolsOnly \<Rightarrow> (False, republish_cached ops newDesired w)
              | changeTimeoutOnly \<Rightarrow> (False, set_timeout w)
              | changeToolsAndTimeout \<Rightarrow> (False, republish_cached ops newDesired (set_timeout w))
              | changeConnection \<Rightarrow> (True, w\<lparr>cw_co := (cw_co w)\<lparr>co_reconcileCh := True\<rparr>\<rparr>)
              | changeNone \<Rightarrow> (False, w))"

definition co_AcquireLease :: "'p coord_world \<Rightarrow> (lease_error + nat) \<times> 'p coord_world" where
  "co_AcquireLease w =
     (let c = cw_co w
      in if co_state c \<noteq> StateReady then (Inl ErrNotAdmitting, w)
         else case co_currentGen c of
                None \<Rightarrow> (Inl ErrNotAdmitting, w)
              | Some ref \<Rightarrow>
                  (case mget (cw_gens w) ref of
                     None \<Rightarrow> (Inl ErrNotAdmitting, w)
                   | Some g \<Rightarrow>
                       (case acquire g of
                          (Inl e, g') \<Rightarrow> (Inl e, w)
                        | (Inr _, g') \<Rightarrow> (Inr ref, w\<lparr>cw_gens := mput ref g' (cw_gens w)\<rparr>))))"

record ServiceStatus =
  st_ID :: string
  st_Enabled :: bool
  st_State :: service_state
  st_DesiredRevision :: int
  st_GenerationID :: "64 word"
  st_ActiveRevision :: int
  st_ActiveLeases :: int
  st_MaxConcurrency :: int
  st_LastError :: string
  st_ConsecutiveFailures :: int
  st_LastConnectedAt :: "int option"
  st_LastDisconnectAt :: "int option"
  st_PublishedTools :: nat

definition co_Status :: "'p coord_world \<Rightarrow> ServiceStatus" where
  "co_Status w =
     (let c = cw_co w;
          (active, genID, activeRevision) =
            (case co_currentGen c of None \<Rightarrow> (0, 0, 0)
             | Some ref \<Rightarrow>
                 (case mget (cw_gens w) ref of None \<Rightarrow> (0, 0, 0)
                  | Some g \<Rightarrow> (gen_active g, gen_id g, gen_revision g)))
      in \<lparr>st_ID = co_serverID c, st_Enabled = rs_Enabled (co_cfg c), st_State = co_state c,
          st_DesiredRevision = co_rev c, st_GenerationID = genID, st_ActiveRevision = activeRevision,
          st_ActiveLeases = active, st_MaxConcurrency = rs_MaxConcurrency (co_cfg c),
          st_LastError = co_lastError c, st_ConsecutiveFailures = co_consecutiveFail c,
          st_LastConnectedAt = co_lastConnected c, st_LastDisconnectAt = co_lastDisconnect c,
          st_PublishedTools = co_publishedCount c\<rparr>)"

definition onToolListChanged :: "Coordinator \<Rightarrow> Coordinator" where
  "onToolListChanged c = c\<lparr>co_toolChangedCh := True\<rparr>"

section \<open>The coordinator's goroutine\<close>

text \<open>
  The program points between two atomic regions. An attempt of \<^verbatim>\<open>handleConnectingAndReady\<close> carries its
  target revision, the configuration it read and the name of its context; sessions and processes are
  named by numbers. \<open>PcDrain\<close> waits for a drain and then continues; \<open>PcFinish\<close> is the deferred end of
  an attempt.
\<close>

datatype coord_pc =
    PcLoop
  | PcDisabling "nat option"
  | PcWaitDisabled
  | PcOldGen int ResolvedServer nat
  | PcDial int ResolvedServer nat
  | PcDiscover int ResolvedServer nat nat "nat option"
  | PcCommit int ResolvedServer nat nat "nat option" "tool list"
  | PcReady nat int nat
  | PcRefresh nat int nat int ResolvedServer
  | PcRefreshCommit nat int nat int ResolvedServer "tool list"
  | PcFail go_error int nat
  | PcFailed int nat
  | PcBackoff int nat
  | PcDrain "nat option" coord_pc
  | PcFinish int nat
  | PcReturned

text \<open>\<^verbatim>\<open>run\<close>: the top of the loop, with the first regions of the two handlers.\<close>

definition handleDisabled_begin :: "'p coord_world \<Rightarrow> coord_pc \<times> 'p coord_world" where
  "handleDisabled_begin w =
     (let c = cw_co w
      in if co_stopped c then (PcLoop, w)
         else (PcDisabling (co_currentGen c),
               w\<lparr>cw_co := c\<lparr>co_state := StateDisabled, co_currentGen := None\<rparr>\<rparr>))"

definition handleConnecting_begin :: "nat \<Rightarrow> 'p coord_world \<Rightarrow> coord_pc \<times> 'p coord_world" where
  "handleConnecting_begin oper w =
     (let c = cw_co w
      in if co_stopped c \<or> co_cancelled c then (PcLoop, w)
         else (PcOldGen (co_rev c) (co_cfg c) oper,
               w\<lparr>cw_co := c\<lparr>co_state := StateConnecting, co_operation := Some oper,
                  co_operationRevision := co_rev c\<rparr>\<rparr>))"

definition run_top :: "nat \<Rightarrow> 'p coord_world \<Rightarrow> coord_pc \<times> 'p coord_world" where
  "run_top oper w =
     (let c = cw_co w
      in if co_cancelled c then (PcReturned, w)
         else if co_stopped c then (PcReturned, w)
         else if \<not> rs_Enabled (co_cfg c) then handleDisabled_begin w
         else handleConnecting_begin oper w)"

definition handleDisabled_remove :: "'p pub_ops \<Rightarrow> 'p coord_world \<Rightarrow> 'p coord_world" where
  "handleDisabled_remove ops w =
     w\<lparr>cw_pub := snd (po_RemoveServer ops (co_serverID (cw_co w)) (cw_pub w))\<rparr>"

definition take_old_gen :: "'p coord_world \<Rightarrow> nat option \<times> 'p coord_world" where
  "take_old_gen w = (co_currentGen (cw_co w), w\<lparr>cw_co := (cw_co w)\<lparr>co_currentGen := None\<rparr>\<rparr>)"

text \<open>The deferred function: cancel the attempt's context and forget it if it is still registered.\<close>

definition finish_attempt :: "int \<Rightarrow> nat \<Rightarrow> 'p coord_world \<Rightarrow> 'p coord_world" where
  "finish_attempt targetRev oper w =
     (let w = cancel_op (Some oper) w; c = cw_co w
      in if co_operationRevision c = targetRev then w\<lparr>cw_co := c\<lparr>co_operation := None\<rparr>\<rparr> else w)"

definition closeAttempt :: "nat \<Rightarrow> nat option \<Rightarrow> 'p coord_world \<Rightarrow> 'p coord_world" where
  "closeAttempt sess proc w =
     w\<lparr>cw_closed := cw_closed w @ [sess] @ (case proc of None \<Rightarrow> [] | Some p \<Rightarrow> [p])\<rparr>"

definition attempt_superseded :: "int \<Rightarrow> nat \<Rightarrow> 'p coord_world \<Rightarrow> bool" where
  "attempt_superseded targetRev oper w \<longleftrightarrow>
     oper \<in> set (cw_cancelledOps w) \<or> co_cancelled (cw_co w) \<or> \<not> targetCurrent (cw_co w) targetRev"

definition session_created ::
  "int \<Rightarrow> ResolvedServer \<Rightarrow> nat \<Rightarrow> go_error + nat \<times> nat option \<Rightarrow> 'p coord_world \<Rightarrow> coord_pc \<times> 'p coord_world" where
  "session_created targetRev cfg oper result w =
     (case result of
        Inl err \<Rightarrow>
          (if attempt_superseded targetRev oper w then (PcFinish targetRev oper, w)
           else (PcFail err targetRev oper, w))
      | Inr (sess, proc) \<Rightarrow>
          (if \<not> targetCurrent (cw_co w) targetRev then (PcFinish targetRev oper, closeAttempt sess proc w)
           else (PcDiscover targetRev cfg oper sess proc, w)))"

definition tools_listed ::
  "int \<Rightarrow> ResolvedServer \<Rightarrow> nat \<Rightarrow> nat \<Rightarrow> nat option \<Rightarrow> go_error + tool list \<Rightarrow> 'p coord_world \<Rightarrow>
   coord_pc \<times> 'p coord_world" where
  "tools_listed targetRev cfg oper sess proc result w =
     (case result of
        Inl err \<Rightarrow>
          (let w = closeAttempt sess proc w
           in if attempt_superseded targetRev oper w then (PcFinish targetRev oper, w)
              else (PcFail (wrap_error ''tool discovery failed: '' err) targetRev oper, w))
      | Inr tools \<Rightarrow> (PcCommit targetRev cfg oper sess proc tools, w))"

text \<open>The region under \<^verbatim>\<open>publishMu\<close> that commits a discovery.\<close>

definition commit_connect ::
  "'p pub_ops \<Rightarrow> int \<Rightarrow> int \<Rightarrow> ResolvedServer \<Rightarrow> nat \<Rightarrow> nat \<Rightarrow> nat option \<Rightarrow> tool list \<Rightarrow> 'p coord_world \<Rightarrow>
   coord_pc \<times> 'p coord_world" where
  "commit_connect ops now targetRev cfg oper sess proc tools w =
     (let c = cw_co w
      in if \<not> targetCurrent c targetRev then (PcFinish targetRev oper, closeAttempt sess proc w)
         else
           let disabled = disabledNames (rs_DisabledTools cfg);
               ((snap, err), pub') = po_PublishServer ops (co_serverID c) tools disabled (cw_pub w);
               w = w\<lparr>cw_pub := pub'\<rparr>
           in if err \<noteq> None
              then (PcFail (wrap_error ''publish tools failed: '' (po_error ops (the err))) targetRev oper,
                    closeAttempt sess proc w)
              else if co_rev c \<noteq> targetRev \<or> \<not> rs_Enabled (co_cfg c) \<or> co_stopped c
              then (PcFinish targetRev oper,
                    closeAttempt sess proc (w\<lparr>cw_pub := snd (po_RemoveServer ops (co_serverID c) (cw_pub w))\<rparr>))
              else
                let genID = co_genSeq c + 1;
                    gen = newGeneration genID (co_serverID c) (Some sess) proc (rs_MaxConcurrency cfg)
                            (rs_CallTimeout cfg) targetRev;
                    ref = cw_nextRef w
                in (PcReady ref targetRev oper,
                    w\<lparr>cw_gens := mput ref gen (cw_gens w), cw_nextRef := ref + 1,
                      cw_co := c\<lparr>co_genSeq := genID, co_currentGen := Some ref, co_cachedTools := tools,
                        co_publishedCount := PublishedCount snap (co_serverID c), co_state := StateReady,
                        co_operation := None, co_lastConnected := Some now, co_lastError := [],
                        co_everSucceeded := True\<rparr>\<rparr>))"

text \<open>The cases of \<^verbatim>\<open>readyLoop\<close>.\<close>

definition ready_reset :: "Coordinator \<Rightarrow> Coordinator" where
  "ready_reset c = (if co_state c = StateReady then c\<lparr>co_consecutiveFail := 0\<rparr> else c)"

definition ready_reconcile :: "Coordinator \<Rightarrow> Coordinator" where
  "ready_reconcile c = c\<lparr>co_reconcileCh := False, co_state := StateDraining\<rparr>"

definition ready_disconnected :: "int \<Rightarrow> Coordinator \<Rightarrow> Coordinator" where
  "ready_disconnected now c =
     c\<lparr>co_state := StateUnavailable, co_lastDisconnect := Some now,
       co_lastError := ''downstream session closed''\<rparr>"

definition refresh_begin :: "nat \<Rightarrow> int \<Rightarrow> nat \<Rightarrow> Coordinator \<Rightarrow> coord_pc" where
  "refresh_begin ref targetRev oper c =
     (if co_currentGen c \<noteq> Some ref \<or> co_state c \<noteq> StateReady then PcReady ref targetRev oper
      else PcRefresh ref targetRev oper (co_rev c) (co_cfg c))"

definition refresh_commit ::
  "'p pub_ops \<Rightarrow> nat \<Rightarrow> int \<Rightarrow> ResolvedServer \<Rightarrow> tool list \<Rightarrow> 'p coord_world \<Rightarrow> 'p coord_world" where
  "refresh_commit ops ref targetRev cfg tools w =
     (let c = cw_co w
      in if co_stopped c \<or> co_currentGen c \<noteq> Some ref \<or> co_state c \<noteq> StateReady \<or> co_rev c \<noteq> targetRev
         then w
         else
           let disabled = disabledNames (rs_DisabledTools cfg);
               ((snap, err), pub') = po_PublishServer ops (co_serverID c) tools disabled (cw_pub w);
               w = w\<lparr>cw_pub := pub'\<rparr>
           in if err \<noteq> None then w
              else if co_currentGen c = Some ref \<and> co_rev c = targetRev
              then w\<lparr>cw_co := c\<lparr>co_cachedTools := tools,
                      co_publishedCount := PublishedCount snap (co_serverID c)\<rparr>\<rparr>
              else w)"

text \<open>\<^verbatim>\<open>handleConnectFailure\<close>: its two regions.\<close>

definition failure_record :: "int \<Rightarrow> go_error \<Rightarrow> int \<Rightarrow> nat \<Rightarrow> Coordinator \<Rightarrow> coord_pc \<times> Coordinator" where
  "failure_record now err targetRev oper c =
     (if co_stopped c \<or> co_cancelled c then (PcFinish targetRev oper, c)
      else (PcFailed targetRev oper,
            c\<lparr>co_consecutiveFail := co_consecutiveFail c + 1, co_lastError := sanitizeError (Some err),
              co_lastDisconnect := Some now, co_state := StateUnavailable\<rparr>))"

definition failure_backoff :: "int \<Rightarrow> nat \<Rightarrow> Coordinator \<Rightarrow> coord_pc \<times> Coordinator" where
  "failure_backoff targetRev oper c =
     (if co_stopped c then (PcFinish targetRev oper, c)
      else (PcBackoff targetRev oper, c\<lparr>co_state := StateBackoff\<rparr>))"

section \<open>The step relation\<close>

record 'p coord_sys =
  cy_world :: "'p coord_world"
  cy_pc :: coord_pc
  cy_stopping :: "nat option list"
  cy_history :: "(int, ResolvedServer) gomap"

text \<open>
  \<^verbatim>\<open>AcquireLease\<close> reads the current generation under the coordinator's lock and acquires under the
  generation's: \<open>lease\<close> is the case without interruption, \<open>lease_late\<close> the second half alone, for whatever
  generation was read before.

  \<open>cy_stopping\<close> holds the calls of \<^verbatim>\<open>Stop\<close> that are draining. \<open>cy_history\<close> is not part of the program: it
  keeps the configuration of every desired revision.
\<close>

abbreviation cy_co :: "'p coord_sys \<Rightarrow> Coordinator" where
  "cy_co s \<equiv> cw_co (cy_world s)"

abbreviation set_co :: "(Coordinator \<Rightarrow> Coordinator) \<Rightarrow> 'p coord_world \<Rightarrow> 'p coord_world" where
  "set_co f w \<equiv> w\<lparr>cw_co := f (cw_co w)\<rparr>"

definition wf_server :: "ResolvedServer \<Rightarrow> bool" where
  "wf_server cfg \<longleftrightarrow> wf_map (rs_Env cfg) \<and> wf_map (rs_Headers cfg) \<and> wf_map (rs_DisabledTools cfg)"

text \<open>One step of the goroutine at its program point.\<close>

inductive co_move :: "'p pub_ops \<Rightarrow> 'p coord_world \<Rightarrow> coord_pc \<Rightarrow> 'p coord_world \<Rightarrow> coord_pc \<Rightarrow> bool" for ops where
  top: "run_top oper w = (pc', w') \<Longrightarrow> co_move ops w PcLoop w' pc'"
| disable: "co_move ops w (PcDisabling ref) (handleDisabled_remove ops w) (PcDrain ref PcWaitDisabled)"
| disabled_reconcile: "co_reconcileCh (cw_co w) \<Longrightarrow>
    co_move ops w PcWaitDisabled (set_co (\<lambda>c. c\<lparr>co_reconcileCh := False\<rparr>) w) PcLoop"
| disabled_other: "co_move ops w PcWaitDisabled w PcLoop"
| old_gen: "take_old_gen w = (ref, w') \<Longrightarrow>
    co_move ops w (PcOldGen rv cfg oper) w' (PcDrain ref (PcDial rv cfg oper))"
| drained: "co_move ops w (PcDrain ref pc) (drain_and_close_opt ref w) pc"
| dial_aborted: "oper \<in> set (cw_cancelledOps w) \<or> co_cancelled (cw_co w) \<Longrightarrow>
    co_move ops w (PcDial rv cfg oper) w (PcFinish rv oper)"
| dial_reconcile: "co_reconcileCh (cw_co w) \<Longrightarrow>
    co_move ops w (PcDial rv cfg oper) (set_co (\<lambda>c. c\<lparr>co_reconcileCh := False\<rparr>) w) (PcFinish rv oper)"
| dialed: "session_created rv cfg oper result w = (pc', w') \<Longrightarrow> co_move ops w (PcDial rv cfg oper) w' pc'"
| discovered: "tools_listed rv cfg oper sess proc result w = (pc', w') \<Longrightarrow>
    co_move ops w (PcDiscover rv cfg oper sess proc) w' pc'"
| commit: "commit_connect ops now rv cfg oper sess proc tools w = (pc', w') \<Longrightarrow>
    co_move ops w (PcCommit rv cfg oper sess proc tools) w' pc'"
| ready_timer: "co_move ops w (PcReady ref rv oper) (set_co ready_reset w) (PcReady ref rv oper)"
| ready_changed: "co_toolChangedCh (cw_co w) \<Longrightarrow>
    co_move ops w (PcReady ref rv oper) (set_co (\<lambda>c. c\<lparr>co_toolChangedCh := False\<rparr>) w)
      (refresh_begin ref rv oper (cw_co w))"
| ready_refresh: "co_move ops w (PcReady ref rv oper) w (refresh_begin ref rv oper (cw_co w))"
| ready_reconciled: "co_reconcileCh (cw_co w) \<Longrightarrow>
    co_move ops w (PcReady ref rv oper) (set_co ready_reconcile w) (PcDrain (Some ref) (PcFinish rv oper))"
| ready_closed: "co_move ops w (PcReady ref rv oper) (set_co (ready_disconnected now) w)
      (PcDrain (Some ref) (PcFail (plain_error ''downstream session closed'') rv oper))"
| ready_ctx: "co_cancelled (cw_co w) \<Longrightarrow>
    co_move ops w (PcReady ref rv oper) w (PcDrain (Some ref) (PcFinish rv oper))"
| refresh_failed: "co_move ops w (PcRefresh ref rv oper trev cfg) w (PcReady ref rv oper)"
| refresh_listed: "co_move ops w (PcRefresh ref rv oper trev cfg) w (PcRefreshCommit ref rv oper trev cfg tools)"
| refresh_publish: "co_move ops w (PcRefreshCommit ref rv oper trev cfg tools)
      (refresh_commit ops ref trev cfg tools w) (PcReady ref rv oper)"
| fail: "failure_record now err rv oper (cw_co w) = (pc', c') \<Longrightarrow>
    co_move ops w (PcFail err rv oper) (w\<lparr>cw_co := c'\<rparr>) pc'"
| failed: "failure_backoff rv oper (cw_co w) = (pc', c') \<Longrightarrow>
    co_move ops w (PcFailed rv oper) (w\<lparr>cw_co := c'\<rparr>) pc'"
| backoff_over: "co_move ops w (PcBackoff rv oper) w (PcFinish rv oper)"
| backoff_reconcile: "co_reconcileCh (cw_co w) \<Longrightarrow>
    co_move ops w (PcBackoff rv oper) (set_co (\<lambda>c. c\<lparr>co_reconcileCh := False\<rparr>) w) (PcFinish rv oper)"
| finish: "co_move ops w (PcFinish rv oper) (finish_attempt rv oper w) PcLoop"

inductive coord_step :: "'p pub_ops \<Rightarrow> 'p coord_sys \<Rightarrow> 'p coord_sys \<Rightarrow> bool" for ops where
  move: "co_move ops (cy_world s) (cy_pc s) w' pc' \<Longrightarrow> coord_step ops s (s\<lparr>cy_world := w', cy_pc := pc'\<rparr>)"
| config: "des_Revision new > co_rev (cy_co s) \<Longrightarrow> wf_server (des_ResolvedConfig new) \<Longrightarrow>
    UpdateConfig ops new (cy_world s) = (b, w') \<Longrightarrow>
    coord_step ops s (s\<lparr>cy_world := w',
      cy_history := (if co_desired (cw_co w') = new
                     then mput (des_Revision new) (des_ResolvedConfig new) (cy_history s)
                     else cy_history s)\<rparr>)"
| stop: "stop_begin (cy_world s) = (ref, w') \<Longrightarrow>
    coord_step ops s (s\<lparr>cy_world := w', cy_stopping := cy_stopping s @ [ref]\<rparr>)"
| stopped: "cy_stopping s = ref # refs \<Longrightarrow>
    coord_step ops s (s\<lparr>cy_world := stop_end ref (cy_world s), cy_stopping := refs\<rparr>)"
| notify: "coord_step ops s (s\<lparr>cy_world := set_co onToolListChanged (cy_world s)\<rparr>)"
| lease: "co_AcquireLease (cy_world s) = (r, w') \<Longrightarrow> coord_step ops s (s\<lparr>cy_world := w'\<rparr>)"
| lease_late: "coord_step ops s (s\<lparr>cy_world := update_gen ref (\<lambda>g. snd (acquire g)) (cy_world s)\<rparr>)"
| lease_release: "coord_step ops s (s\<lparr>cy_world := update_gen ref release (cy_world s)\<rparr>)"

inductive coord_reachable :: "'p pub_ops \<Rightarrow> 'p coord_sys \<Rightarrow> bool" for ops where
  init: "wf_server (des_ResolvedConfig desired) \<Longrightarrow>
    coord_reachable ops
      \<lparr>cy_world = \<lparr>cw_co = newCoordinator sid desired delays reset drain, cw_pub = p, cw_gens = [],
                   cw_nextRef = 0, cw_closed = [], cw_cancelledOps = []\<rparr>,
       cy_pc = PcLoop, cy_stopping = [],
       cy_history = [(des_Revision desired, des_ResolvedConfig desired)]\<rparr>"
| step: "coord_reachable ops s \<Longrightarrow> coord_step ops s s' \<Longrightarrow> coord_reachable ops s'"

inductive_cases co_moveE: "co_move ops w pc w' pc'"
inductive_cases coord_stepE: "coord_step ops s s'"

end
