(* ===== verification/Config_Resolve.thy ===== *)
theory Config_Resolve
  imports Config_Validate Coordinator
begin

text \<open>
  Resolution of a raw configuration into what the manager runs (\<^verbatim>\<open>internal/config/resolve.go\<close>): effective
  tokens, defaults, paths, and the environment and headers of every server.

  \<open>environ\<close> is \<^verbatim>\<open>os.Environ()\<close> and \<open>isWindows\<close> is \<^verbatim>\<open>runtime.GOOS == "windows"\<close>.
\<close>

datatype resolve_error =
    ResInvalid config_error
  | ResBearerEmpty nat
  | ResBearerExpand nat env_error
  | ResBearerDuplicate
  | ResAdminExpand env_error
  | ResNoBearer
  | ResBearerBlank nat
  | ResBearerShort nat
  | ResAdminBlank
  | ResAdminShort
  | ResTokensEqual
  | ResServerEnv string string env_error
  | ResServerHeader string string env_error

section \<open>Tokens\<close>

fun resolve_tokens ::
  "(string \<Rightarrow> string option) \<Rightarrow> nat \<Rightarrow> string list \<Rightarrow> string list \<Rightarrow> resolve_error + string list" where
  "resolve_tokens lookup i seen [] = Inr []"
| "resolve_tokens lookup i seen (candidate # raw) =
     (if trim_space candidate = [] then Inl (ResBearerEmpty (i + 1))
      else case ExpandEnv candidate lookup of
             Inl e \<Rightarrow> Inl (ResBearerExpand (i + 1) e)
           | Inr v \<Rightarrow>
               if v \<in> set seen then Inl ResBearerDuplicate
               else map_sum (\<lambda>e. e) (\<lambda>vs. v # vs) (resolve_tokens lookup (i + 1) (v # seen) raw))"

definition resolveBearerTokens :: "HubAuthConfig \<Rightarrow> (string \<Rightarrow> string option) \<Rightarrow> resolve_error + string list" where
  "resolveBearerTokens auth lookup =
     resolve_tokens lookup 0 []
       ((if auth_BearerToken auth \<noteq> [] then [auth_BearerToken auth] else []) @ auth_BearerTokens auth)"

fun check_token_strength :: "nat \<Rightarrow> string list \<Rightarrow> resolve_error option" where
  "check_token_strength i [] = None"
| "check_token_strength i (token # tokens) =
     (if trim_space token = [] then Some (ResBearerBlank (i + 1))
      else if length (trim_space token) < MinAuthTokenLength then Some (ResBearerShort (i + 1))
      else check_token_strength (i + 1) tokens)"

definition check_credentials :: "HubConfig \<Rightarrow> string list \<Rightarrow> string \<Rightarrow> resolve_error option" where
  "check_credentials hub bearerTokens adminToken =
     (if hub_PublicMode hub \<and> length bearerTokens = 0 then Some ResNoBearer
      else case check_token_strength 0 bearerTokens of
             Some e \<Rightarrow> Some e
           | None \<Rightarrow>
               let enabled = adm_Enabled (hub_Admin hub)
               in first_error
                    [(enabled \<and> trim_space adminToken = [], ResAdminBlank),
                     (enabled \<and> length (trim_space adminToken) < MinAuthTokenLength, ResAdminShort),
                     (enabled \<and> list_ex (\<lambda>token. token \<noteq> [] \<and> token = adminToken) bearerTokens, ResTokensEqual)])"

section \<open>Environment of child processes\<close>

definition filterInheritedSecrets :: "string list \<Rightarrow> string list \<Rightarrow> string list" where
  "filterInheritedSecrets base secrets =
     filter (\<lambda>entry. case parse_entry entry of
                       None \<Rightarrow> True
                     | Some (_, v) \<Rightarrow> \<not> list_ex (\<lambda>secret. secret \<noteq> [] \<and> v = secret) secrets) base"

definition base_env :: "string list \<Rightarrow> string list \<Rightarrow> string \<Rightarrow> bool \<Rightarrow> string list" where
  "base_env environ bearerTokens adminToken isWindows =
     safeInheritedEnv (filterInheritedSecrets environ (bearerTokens @ [adminToken])) isWindows"

section \<open>Servers\<close>

text \<open>An override of a duration: taken when it parses and is positive.\<close>

definition override_duration :: "go_lib \<Rightarrow> string \<Rightarrow> int \<Rightarrow> int" where
  "override_duration lib s d0 =
     (if s = [] then d0
      else case lib_ParseDuration lib s of None \<Rightarrow> d0 | Some d \<Rightarrow> if d > 0 then d else d0)"

definition expand_values ::
  "(string \<Rightarrow> string option) \<Rightarrow> (string \<Rightarrow> env_error \<Rightarrow> resolve_error) \<Rightarrow> (string, string) gomap \<Rightarrow>
   resolve_error + (string, string) gomap" where
  "expand_values lookup err m =
     try_map (\<lambda>(k, v). case ExpandEnv v lookup of Inl e \<Rightarrow> Inl (err k e) | Inr v' \<Rightarrow> Inr (k, v')) m"

definition resolve_command :: "go_lib \<Rightarrow> string \<Rightarrow> string \<Rightarrow> string" where
  "resolve_command lib configDir cmd =
     (if contains_any cmd [CHR ''/'', CHR 0x5C] \<and> \<not> lib_IsAbs lib cmd \<and> configDir \<noteq> []
      then lib_Join lib configDir cmd else cmd)"

definition resolve_cwd :: "go_lib \<Rightarrow> string \<Rightarrow> string \<Rightarrow> string" where
  "resolve_cwd lib configDir cwd =
     (if cwd = [] then configDir
      else if \<not> lib_IsAbs lib cwd \<and> configDir \<noteq> [] then lib_Join lib configDir cwd else cwd)"

record resolve_ctx =
  rx_lib :: go_lib
  rx_configDir :: string
  rx_lookup :: "string \<Rightarrow> string option"
  rx_baseEnv :: "string list"
  rx_isWindows :: bool
  rx_startup :: int
  rx_call :: int
  rx_concurrency :: int

definition resolve_server :: "resolve_ctx \<Rightarrow> string \<Rightarrow> ServerConfig \<Rightarrow> resolve_error + ResolvedServer" where
  "resolve_server x sid s =
     (let lib = rx_lib x;
          rs = \<lparr>rs_ID = sid, rs_Enabled = IsEnabled s, rs_Type = sc_Type s, rs_Command = [], rs_Args = [], rs_Cwd = [],
                rs_Env = [], rs_URL = [], rs_Headers = [],
                rs_DisabledTools = fold (\<lambda>dt m. mput dt () m) (sc_Disabled s) [],
                rs_StartupTimeout = override_duration lib (sc_StartupTimeout s) (rx_startup x),
                rs_CallTimeout = override_duration lib (sc_CallTimeout s) (rx_call x),
                rs_MaxConcurrency = (if sc_MaxConcurrency s > 0 then sc_MaxConcurrency s else rx_concurrency x)\<rparr>
      in if sc_Type s = ServerTypeStdio then
           (case expand_values (rx_lookup x) (ResServerEnv sid) (sc_Env s) of
              Inl e \<Rightarrow> Inl e
            | Inr expandedEnv \<Rightarrow>
                Inr (rs\<lparr>rs_Command := resolve_command lib (rx_configDir x) (sc_Command s),
                        rs_Args := sc_Args s, rs_Cwd := resolve_cwd lib (rx_configDir x) (sc_Cwd s),
                        rs_Env := MergeEnv (rx_baseEnv x) expandedEnv (rx_isWindows x)\<rparr>))
         else if sc_Type s = ServerTypeStreamableHTTP then
           (case expand_values (rx_lookup x) (ResServerHeader sid) (sc_Headers s) of
              Inl e \<Rightarrow> Inl e
            | Inr headers \<Rightarrow> Inr (rs\<lparr>rs_URL := sc_URL s, rs_Headers := headers\<rparr>))
         else Inr rs)"

section \<open>Resolve\<close>

definition Resolve ::
  "go_lib \<Rightarrow> string list \<Rightarrow> bool \<Rightarrow> Config option \<Rightarrow> string \<Rightarrow> (string \<Rightarrow> string option) \<Rightarrow>
   resolve_error + ResolvedConfig" where
  "Resolve lib environ isWindows cfg configDir lookup =
     (case Validate lib cfg of
        Some e \<Rightarrow> Inl (ResInvalid e)
      | None \<Rightarrow>
          let c = the cfg; hub = cfg_Hub c; admin = hub_Admin hub
          in case resolveBearerTokens (hub_Auth hub) lookup of
               Inl e \<Rightarrow> Inl e
             | Inr bearerTokens \<Rightarrow>
                 (case (if adm_Token admin = [] then Inr [] else ExpandEnv (adm_Token admin) lookup) of
                    Inl e \<Rightarrow> Inl (ResAdminExpand e)
                  | Inr adminToken \<Rightarrow>
                      (case check_credentials hub bearerTokens adminToken of
                         Some e \<Rightarrow> Inl e
                       | None \<Rightarrow>
                           let defaultStartup = override_duration lib (def_StartupTimeout (cfg_Defaults c)) DefaultStartupTimeout;
                               defaultCall = override_duration lib (def_CallTimeout (cfg_Defaults c)) DefaultCallTimeout;
                               defaultConcurrency = (if def_MaxConcurrency (cfg_Defaults c) > 0
                                 then def_MaxConcurrency (cfg_Defaults c) else DefaultMaxConcurrency);
                               x = \<lparr>rx_lib = lib, rx_configDir = configDir, rx_lookup = lookup,
                                    rx_baseEnv = base_env environ bearerTokens adminToken isWindows,
                                    rx_isWindows = isWindows, rx_startup = defaultStartup, rx_call = defaultCall,
                                    rx_concurrency = defaultConcurrency\<rparr>
                           in case try_map (\<lambda>(sid, s). case resolve_server x sid s of
                                              Inl e \<Rightarrow> Inl e | Inr rs \<Rightarrow> Inr (sid, rs)) (cfg_MCPServers c) of
                                Inl e \<Rightarrow> Inl e
                              | Inr servers \<Rightarrow>
                                  Inr \<lparr>rc_Version = cfg_Version c, rc_Listen = effective_listen hub,
                                       rc_PublicMode = hub_PublicMode hub,
                                       rc_PublicURL = trim_right_chars ''/'' (hub_PublicURL hub),
                                       rc_AllowedHosts = hub_AllowedHosts hub, rc_TrustedProxies = hub_TrustedProxies hub,
                                       rc_BearerToken = (case bearerTokens of [] \<Rightarrow> [] | t # _ \<Rightarrow> t),
                                       rc_BearerTokens = bearerTokens, rc_AdminEnabled = adm_Enabled admin,
                                       rc_AdminToken = adminToken,
                                       rc_AdminSessionTimeout =
                                         (if adm_SessionTimeout admin = [] then 30 * minute
                                          else case lib_ParseDuration lib (adm_SessionTimeout admin) of None \<Rightarrow> 0 | Some d \<Rightarrow> d),
                                       rc_DefaultStartup = defaultStartup, rc_DefaultCall = defaultCall,
                                       rc_DefaultConcurrency = defaultConcurrency, rc_Servers = servers\<rparr>)))"

end
