(* ===== verification/Config_Decode.thy ===== *)
theory Config_Decode
  imports Go_JSON Config_Resolve
begin

text \<open>
  Reading a configuration (\<^verbatim>\<open>internal/config/decode.go\<close> and \<^verbatim>\<open>load.go\<close>): the scan for repeated keys, the exact
  comparison of field names, the strict decoder and the pipeline from bytes to a resolved configuration.

  Package \<^verbatim>\<open>encoding/json\<close> enters through what the code asks of it: the tokens of the input (\<open>jl_tokens\<close>, with the
  error that ended the stream, \<^term>\<open>None\<close> for \<^verbatim>\<open>io.EOF\<close>), its first value as \<^verbatim>\<open>any\<close> (\<open>jl_any\<close>; the members of a
  \<^term>\<open>JObj\<close> are then the entries of a Go map), and the decoding into a Go type (\<open>dt_decode\<close>, with the answer to whether
  a second \<^verbatim>\<open>Decode\<close> meets \<^verbatim>\<open>io.EOF\<close>). \<open>json_tokens\<close> states which tokens a document has.
\<close>

datatype json_token = TObjOpen | TObjClose | TArrOpen | TArrClose | TString string | TOther

datatype path_seg = SegKey string | SegIndex nat

datatype decode_error =
    ErrConfigFileTooLarge
  | ErrEmptyConfig
  | TokenError string
  | MismatchedBrace
  | MismatchedBracket
  | DuplicateKey string
  | UnclosedInput
  | DecodeAnyError string
  | FieldNotAllowed "path_seg list" string
  | JSONDecodeError string
  | ErrTrailingJSON

record json_lib =
  jl_tokens :: "string \<Rightarrow> json_token list \<times> string option"
  jl_any :: "string \<Rightarrow> string + json"

definition utf8BOM :: string where "utf8BOM = [CHR 0xEF, CHR 0xBB, CHR 0xBF]"

definition stripUTF8BOM :: "string \<Rightarrow> string" where
  "stripUTF8BOM data = (if has_prefix data utf8BOM then drop (length utf8BOM) data else data)"

section \<open>Repeated keys\<close>

text \<open>One entry of the stack; the top of the Go slice is the head of the list.\<close>

record dup_state =
  ds_isObject :: bool
  ds_expectingKey :: bool
  ds_keys :: "(string, unit) gomap"

definition expect_key :: "dup_state list \<Rightarrow> dup_state list" where
  "expect_key stack =
     (case stack of [] \<Rightarrow> [] | s # rest \<Rightarrow> (if ds_isObject s then s\<lparr>ds_expectingKey := True\<rparr> else s) # rest)"

fun check_token :: "json_token \<Rightarrow> dup_state list \<Rightarrow> decode_error + dup_state list" where
  "check_token TObjOpen stack = Inr (\<lparr>ds_isObject = True, ds_expectingKey = True, ds_keys = []\<rparr> # stack)"
| "check_token TObjClose stack =
     (case stack of
        [] \<Rightarrow> Inl MismatchedBrace
      | s # rest \<Rightarrow> if ds_isObject s then Inr (expect_key rest) else Inl MismatchedBrace)"
| "check_token TArrOpen stack = Inr (\<lparr>ds_isObject = False, ds_expectingKey = False, ds_keys = []\<rparr> # stack)"
| "check_token TArrClose stack =
     (case stack of
        [] \<Rightarrow> Inl MismatchedBracket
      | s # rest \<Rightarrow> if ds_isObject s then Inl MismatchedBracket else Inr (expect_key rest))"
| "check_token (TString t) stack =
     (case stack of
        [] \<Rightarrow> Inr []
      | s # rest \<Rightarrow>
          if \<not> ds_isObject s then Inr stack
          else if ds_expectingKey s then
            if mhas (ds_keys s) t then Inl (DuplicateKey t)
            else Inr (s\<lparr>ds_keys := mput t () (ds_keys s), ds_expectingKey := False\<rparr> # rest)
          else Inr (s\<lparr>ds_expectingKey := True\<rparr> # rest))"
| "check_token TOther stack = Inr (expect_key stack)"

fun check_tokens :: "json_token list \<Rightarrow> string option \<Rightarrow> dup_state list \<Rightarrow> decode_error option" where
  "check_tokens [] (Some err) stack = Some (TokenError err)"
| "check_tokens [] None stack = (if length stack \<noteq> 0 then Some UnclosedInput else None)"
| "check_tokens (tok # toks) err stack =
     (case check_token tok stack of Inl e \<Rightarrow> Some e | Inr stack' \<Rightarrow> check_tokens toks err stack')"

definition CheckDuplicateKeys :: "json_lib \<Rightarrow> string \<Rightarrow> decode_error option" where
  "CheckDuplicateKeys jl data =
     (let data = stripUTF8BOM data
      in if length (trim_space data) = 0 then Some ErrEmptyConfig
         else let (toks, err) = jl_tokens jl data in check_tokens toks err [])"

section \<open>Exact field names\<close>

text \<open>What \<^verbatim>\<open>reflect\<close> shows of a type: a field has a name, the flag that it is exported, its \<^verbatim>\<open>json\<close> tag and a type.\<close>

datatype go_type =
    GStruct "go_field list"
  | GMap go_type
  | GSlice go_type
  | GPtr go_type
  | GScalar
and go_field = GField (gf_Name: string) (gf_exported: bool) (gf_tag: string) (gf_type: go_type)

primrec deref :: "go_type \<Rightarrow> go_type" where
  "deref (GPtr t) = deref t"
| "deref (GStruct fs) = GStruct fs"
| "deref (GMap t) = GMap t"
| "deref (GSlice t) = GSlice t"
| "deref GScalar = GScalar"

fun struct_fields :: "go_field list \<Rightarrow> (string, go_type) gomap" where
  "struct_fields [] = []"
| "struct_fields (f # fs) =
     (let tagName = hd (split_byte (CHR '','') (gf_tag f));
          name = (if tagName = [] then gf_Name f else tagName)
      in if \<not> gf_exported f \<or> tagName = ''-'' then struct_fields fs
         else if mhas (struct_fields fs) name then struct_fields fs
         else (name, gf_type f) # struct_fields fs)"

text \<open>For evaluation, the tail is computed once.\<close>

lemma struct_fields_code [code]:
  "struct_fields [] = []"
  "struct_fields (f # fs) =
     (let tagName = hd (split_byte (CHR '','') (gf_tag f));
          name = (if tagName = [] then gf_Name f else tagName);
          rest = struct_fields fs
      in if \<not> gf_exported f \<or> tagName = ''-'' \<or> mhas rest name then rest else (name, gf_type f) # rest)"
  by (simp_all add: Let_def)

lemma size_member: "size_prod (\<lambda>_. 0) size = (\<lambda>kc :: string \<times> json. size (snd kc) + 1)"
proof
  fix kc :: "string \<times> json" show "size_prod (\<lambda>_. 0) size kc = size (snd kc) + 1" by (cases kc) simp
qed

function validateJSONShape :: "json \<Rightarrow> go_type \<Rightarrow> path_seg list \<Rightarrow> decode_error option"
  and shape_fields :: "(string \<times> json) list \<Rightarrow> (string, go_type) gomap \<Rightarrow> path_seg list \<Rightarrow> decode_error option"
  and shape_members :: "(string \<times> json) list \<Rightarrow> go_type \<Rightarrow> path_seg list \<Rightarrow> decode_error option"
  and shape_elems :: "json list \<Rightarrow> nat \<Rightarrow> go_type \<Rightarrow> path_seg list \<Rightarrow> decode_error option" where
  "validateJSONShape value t path =
     (case deref t of
        GStruct fs \<Rightarrow> (case value of JObj obj \<Rightarrow> shape_fields obj (struct_fields fs) path | _ \<Rightarrow> None)
      | GMap e \<Rightarrow> (case value of JObj obj \<Rightarrow> shape_members obj e path | _ \<Rightarrow> None)
      | GSlice e \<Rightarrow> (case value of JArr arr \<Rightarrow> shape_elems arr 0 e path | _ \<Rightarrow> None)
      | _ \<Rightarrow> None)"
| "shape_fields [] flds path = None"
| "shape_fields (kc # obj) flds path =
     (case mget flds (fst kc) of
        None \<Rightarrow> Some (FieldNotAllowed path (fst kc))
      | Some fieldType \<Rightarrow>
          (case validateJSONShape (snd kc) fieldType (path @ [SegKey (fst kc)]) of
             Some e \<Rightarrow> Some e
           | None \<Rightarrow> shape_fields obj flds path))"
| "shape_members [] e path = None"
| "shape_members (kc # obj) e path =
     (case validateJSONShape (snd kc) e (path @ [SegKey (fst kc)]) of
        Some err \<Rightarrow> Some err
      | None \<Rightarrow> shape_members obj e path)"
| "shape_elems [] i e path = None"
| "shape_elems (child # arr) i e path =
     (case validateJSONShape child e (path @ [SegIndex i]) of
        Some err \<Rightarrow> Some err
      | None \<Rightarrow> shape_elems arr (i + 1) e path)"
  by pat_completeness auto
termination
  by (relation "measure (\<lambda>x. case x of
        Inl (Inl (v, _, _)) \<Rightarrow> 2 * size v + 1
      | Inl (Inr (kcs, _, _)) \<Rightarrow> 2 * size_list (\<lambda>kc. size (snd kc) + 1) kcs
      | Inr (Inl (kcs, _, _)) \<Rightarrow> 2 * size_list (\<lambda>kc. size (snd kc) + 1) kcs
      | Inr (Inr (vs, _, _)) \<Rightarrow> 2 * size_list size vs)") (auto simp: size_member)

declare validateJSONShape.simps [simp del]

definition validateExactJSONFieldNames :: "json_lib \<Rightarrow> string \<Rightarrow> go_type \<Rightarrow> decode_error option" where
  "validateExactJSONFieldNames jl data target =
     (case jl_any jl data of
        Inl err \<Rightarrow> Some (DecodeAnyError err)
      | Inr value \<Rightarrow> validateJSONShape value target [])"

section \<open>The strict decoder\<close>

record 'v decode_target =
  dt_type :: go_type
  dt_decode :: "string \<Rightarrow> string + 'v \<times> bool"

definition DecodeStrict :: "json_lib \<Rightarrow> string \<Rightarrow> 'v decode_target \<Rightarrow> decode_error + 'v" where
  "DecodeStrict jl data target =
     (if length data > MaxConfigFileSize then Inl ErrConfigFileTooLarge
      else
        let data = stripUTF8BOM data
        in case CheckDuplicateKeys jl data of
             Some e \<Rightarrow> Inl e
           | None \<Rightarrow>
               (case validateExactJSONFieldNames jl data (dt_type target) of
                  Some e \<Rightarrow> Inl e
                | None \<Rightarrow>
                    (case dt_decode target data of
                       Inl err \<Rightarrow> Inl (JSONDecodeError err)
                     | Inr (v, atEOF) \<Rightarrow> if atEOF then Inr v else Inl ErrTrailingJSON)))"

end
