(* ===== verification/Config_Properties.thy ===== *)
theory Config_Properties
  imports Config_Resolve
begin

text \<open>
  What a resolved configuration guarantees: every server has a valid identifier and limits in range, credentials
  are strong, different and present whenever the hub can be reached from outside, and a child process gets
  nothing of the manager's environment but harmless variables and what its configuration names.
\<close>

section \<open>Steps of the resolution\<close>

lemma Validate_None:
  assumes "Validate lib cfg = None"
  obtains c where "cfg = Some c" "cfg_Version c = CurrentVersion"
    "validateListenAddress lib (effective_listen (cfg_Hub c)) (hub_PublicMode (cfg_Hub c)) = None"
    "validateRawBearerTokens (hub_Auth (cfg_Hub c)) = None" "validate_hub lib (cfg_Hub c) = None"
    "validate_defaults lib (cfg_Defaults c) = None" "length (cfg_MCPServers c) \<le> MaxServers"
    "\<forall>(sid, s) \<in> set (cfg_MCPServers c). validateServer lib sid s = None"
proof (cases cfg)
  case None
  with assms show ?thesis by (simp add: Validate_def)
next
  case (Some c)
  have srv: "\<forall>e \<in> set (cfg_MCPServers c). (case e of (sid, s) \<Rightarrow> map_option (CfgServer sid) (validateServer lib sid s)) = None"
    using assms Some by (auto simp: Validate_def first_failure_None split: option.splits if_splits)
  then have "\<forall>(sid, s) \<in> set (cfg_MCPServers c). validateServer lib sid s = None" by auto
  with that [OF Some] assms Some show ?thesis
    by (simp add: Validate_def split: option.splits if_splits)
qed

text \<open>A successful resolution, taken apart.\<close>

lemma Resolve_Inr:
  assumes "Resolve lib environ isWindows cfg configDir lookup = Inr rc"
  obtains c x where "cfg = Some c" "Validate lib cfg = None"
    "resolveBearerTokens (hub_Auth (cfg_Hub c)) lookup = Inr (rc_BearerTokens rc)"
    "check_credentials (cfg_Hub c) (rc_BearerTokens rc) (rc_AdminToken rc) = None"
    "rc_Listen rc = effective_listen (cfg_Hub c)" "rc_PublicMode rc = hub_PublicMode (cfg_Hub c)"
    "rc_AllowedHosts rc = hub_AllowedHosts (cfg_Hub c)" "rc_AdminEnabled rc = adm_Enabled (hub_Admin (cfg_Hub c))"
    "list_all2 (\<lambda>(sid, s) (sid', rs). sid' = sid \<and> resolve_server x sid s = Inr rs) (cfg_MCPServers c) (rc_Servers rc)"
    "rx_lib x = lib" "rx_lookup x = lookup" "rx_isWindows x = isWindows"
    "rx_baseEnv x = base_env environ (rc_BearerTokens rc) (rc_AdminToken rc) isWindows"
    "rx_startup x = override_duration lib (def_StartupTimeout (cfg_Defaults c)) DefaultStartupTimeout"
    "rx_call x = override_duration lib (def_CallTimeout (cfg_Defaults c)) DefaultCallTimeout"
    "rx_concurrency x = (if def_MaxConcurrency (cfg_Defaults c) > 0 then def_MaxConcurrency (cfg_Defaults c)
       else DefaultMaxConcurrency)"
proof -
  from assms have v: "Validate lib cfg = None" by (auto simp: Resolve_def split: option.splits)
  then obtain c where c: "cfg = Some c" by (rule Validate_None)
  let ?hub = "cfg_Hub c"
  from assms v c obtain ts where ts: "resolveBearerTokens (hub_Auth ?hub) lookup = Inr ts"
    by (auto simp: Resolve_def Let_def split: sum.splits)
  from assms v c ts obtain atok where atok: "(if adm_Token (hub_Admin ?hub) = [] then Inr []
      else ExpandEnv (adm_Token (hub_Admin ?hub)) lookup) = Inr atok"
    by (cases "if adm_Token (hub_Admin ?hub) = [] then Inr [] else ExpandEnv (adm_Token (hub_Admin ?hub)) lookup")
      (simp_all add: Resolve_def Let_def)
  from assms v c ts atok have cred: "check_credentials ?hub ts atok = None"
    by (simp add: Resolve_def Let_def split: option.splits)
  let ?x = "\<lparr>rx_lib = lib, rx_configDir = configDir, rx_lookup = lookup,
    rx_baseEnv = base_env environ ts atok isWindows, rx_isWindows = isWindows,
    rx_startup = override_duration lib (def_StartupTimeout (cfg_Defaults c)) DefaultStartupTimeout,
    rx_call = override_duration lib (def_CallTimeout (cfg_Defaults c)) DefaultCallTimeout,
    rx_concurrency = (if def_MaxConcurrency (cfg_Defaults c) > 0 then def_MaxConcurrency (cfg_Defaults c)
       else DefaultMaxConcurrency)\<rparr>"
  let ?f = "\<lambda>(sid, s). case resolve_server ?x sid s of Inl e \<Rightarrow> Inl e | Inr rs \<Rightarrow> Inr (sid, rs)"
  from assms v c ts atok cred obtain servers where sv: "try_map ?f (cfg_MCPServers c) = Inr servers"
    by (cases "try_map ?f (cfg_MCPServers c)") (simp_all add: Resolve_def Let_def)
  have rc: "rc_BearerTokens rc = ts" "rc_AdminToken rc = atok" "rc_Listen rc = effective_listen ?hub"
    "rc_PublicMode rc = hub_PublicMode ?hub" "rc_AllowedHosts rc = hub_AllowedHosts ?hub"
    "rc_AdminEnabled rc = adm_Enabled (hub_Admin ?hub)" "rc_Servers rc = servers"
    using assms v c ts atok cred sv by (auto simp: Resolve_def Let_def)
  from sv have "list_all2 (\<lambda>e y. ?f e = Inr y) (cfg_MCPServers c) servers" by (simp add: try_map_Inr)
  then have "list_all2 (\<lambda>(sid, s) (sid', rs). sid' = sid \<and> resolve_server ?x sid s = Inr rs) (cfg_MCPServers c) servers"
    by (rule list_all2_mono) (auto split: sum.splits)
  with that [of c ?x] v c ts cred rc show ?thesis by simp
qed

section \<open>Servers\<close>

lemma validateServer_None:
  assumes "validateServer lib sid s = None"
  shows "serverIDRegex sid" and "validate_type lib s = None"
    and "sc_StartupTimeout s \<noteq> [] \<Longrightarrow> duration_ok lib (sc_StartupTimeout s)"
    and "sc_CallTimeout s \<noteq> [] \<Longrightarrow> duration_ok lib (sc_CallTimeout s)"
    and "sc_MaxConcurrency s \<noteq> 0 \<Longrightarrow> MinConcurrency \<le> sc_MaxConcurrency s \<and> sc_MaxConcurrency s \<le> MaxConcurrency"
  using assms by (auto simp: validateServer_def split: if_splits option.splits)

lemma validate_type_None:
  "validate_type lib s = None \<Longrightarrow> sc_Type s = ServerTypeStdio \<or> sc_Type s = ServerTypeStreamableHTTP"
  by (auto simp: validate_type_def split: if_splits)

lemma override_duration_bounds:
  assumes "s \<noteq> [] \<Longrightarrow> duration_ok lib s" and "0 < d0" and "d0 \<le> MaxDuration"
  shows "0 < override_duration lib s d0 \<and> override_duration lib s d0 \<le> MaxDuration"
  using assms by (auto simp: override_duration_def duration_ok_def split: option.splits)

lemma fold_set_wf: "wf_map m \<Longrightarrow> wf_map (fold (\<lambda>dt m. mput dt () m) xs m)"
  by (induction xs arbitrary: m) auto

lemma expand_values_keys:
  assumes "expand_values lookup err m = Inr m'"
  shows "map fst m' = map fst m"
    and "(k, v') \<in> set m' \<Longrightarrow> \<exists>v. (k, v) \<in> set m \<and> ExpandEnv v lookup = Inr v'"
proof -
  from assms have all: "list_all2 (\<lambda>e y. (case e of (k, v) \<Rightarrow>
      case ExpandEnv v lookup of Inl e \<Rightarrow> Inl (err k e) | Inr v' \<Rightarrow> Inr (k, v')) = Inr y) m m'"
    by (simp add: expand_values_def try_map_Inr)
  then have "list_all2 (\<lambda>e y. fst y = fst e \<and> ExpandEnv (snd e) lookup = Inr (snd y)) m m'"
    by (rule list_all2_mono) (auto split: prod.splits sum.splits)
  then show "map fst m' = map fst m" "(k, v') \<in> set m' \<Longrightarrow> \<exists>v. (k, v) \<in> set m \<and> ExpandEnv v lookup = Inr v'"
    by (induction m m' rule: list_all2_induct) auto
qed

lemma resolve_server_fields:
  assumes "resolve_server x sid s = Inr rs"
  shows "rs_ID rs = sid \<and> rs_Enabled rs = IsEnabled s \<and> rs_Type rs = sc_Type s \<and>
    rs_StartupTimeout rs = override_duration (rx_lib x) (sc_StartupTimeout s) (rx_startup x) \<and>
    rs_CallTimeout rs = override_duration (rx_lib x) (sc_CallTimeout s) (rx_call x) \<and>
    rs_MaxConcurrency rs = (if sc_MaxConcurrency s > 0 then sc_MaxConcurrency s else rx_concurrency x) \<and>
    rs_DisabledTools rs = fold (\<lambda>dt m. mput dt () m) (sc_Disabled s) []"
  using assms by (auto simp: resolve_server_def Let_def split: if_splits sum.splits)

lemma resolve_server_wf:
  assumes "resolve_server x sid s = Inr rs" and "wf_map (sc_Headers s)"
  shows "wf_server rs"
proof -
  have "wf_map (rs_DisabledTools rs)" using resolve_server_fields [OF assms(1)] by (simp add: fold_set_wf)
  moreover have "wf_map (rs_Env rs)" using assms(1)
    by (auto simp: resolve_server_def Let_def MergeEnv_wf split: if_splits sum.splits)
  moreover have "wf_map (rs_Headers rs)" using assms
    by (auto simp: resolve_server_def Let_def expand_values_keys(1) split: if_splits sum.splits)
  ultimately show ?thesis by (simp add: wf_server_def)
qed

lemma validate_defaults_None:
  assumes "validate_defaults lib d = None"
  shows "def_StartupTimeout d \<noteq> [] \<Longrightarrow> duration_ok lib (def_StartupTimeout d)"
    and "def_CallTimeout d \<noteq> [] \<Longrightarrow> duration_ok lib (def_CallTimeout d)"
    and "def_MaxConcurrency d \<noteq> 0 \<Longrightarrow> MinConcurrency \<le> def_MaxConcurrency d \<and> def_MaxConcurrency d \<le> MaxConcurrency"
  using assms by (auto simp: validate_defaults_def split: if_splits)

lemma default_bounds:
  "0 < DefaultStartupTimeout" "DefaultStartupTimeout \<le> MaxDuration" "0 < DefaultCallTimeout"
  "DefaultCallTimeout \<le> MaxDuration" "MinConcurrency \<le> DefaultMaxConcurrency" "DefaultMaxConcurrency \<le> MaxConcurrency"
  by (simp_all add: DefaultStartupTimeout_def DefaultCallTimeout_def MaxDuration_def minute_def second_def
      DefaultMaxConcurrency_def MinConcurrency_def MaxConcurrency_def)

lemma Resolve_keys_wf:
  assumes "Resolve lib environ isWindows (Some c) configDir lookup = Inr rc"
    and "\<forall>(sid, s) \<in> set (cfg_MCPServers c). wf_map (sc_Headers s)"
  shows "map fst (rc_Servers rc) = map fst (cfg_MCPServers c)" and "\<forall>e \<in> set (rc_Servers rc). wf_server (snd e)"
proof -
  from assms(1) obtain c' x where "Some c = Some c'"
    and "list_all2 (\<lambda>(sid, s) (sid', rs). sid' = sid \<and> resolve_server x sid s = Inr rs) (cfg_MCPServers c') (rc_Servers rc)"
    by (rule Resolve_Inr)
  then have all: "list_all2 (\<lambda>(sid, s) (sid', rs). sid' = sid \<and> resolve_server x sid s = Inr rs) (cfg_MCPServers c) (rc_Servers rc)"
    by simp
  then show "map fst (rc_Servers rc) = map fst (cfg_MCPServers c)"
    by (induction rule: list_all2_induct) auto
  show "\<forall>e \<in> set (rc_Servers rc). wf_server (snd e)"
  proof
    fix e assume "e \<in> set (rc_Servers rc)"
    from list_all2_member2 [OF all this] obtain s where
      "(fst e, s) \<in> set (cfg_MCPServers c)" "resolve_server x (fst e) s = Inr (snd e)" by auto
    with assms(2) show "wf_server (snd e)" by (blast intro: resolve_server_wf)
  qed
qed

text \<open>
  C17. What the manager may rely on: a configuration that was resolved has at most 32 servers, those of the file
  under the same names, and each of them has a valid identifier, a supported transport, timeouts between zero
  and a day, a concurrency between 1 and 64, and well-formed maps.
\<close>

theorem Resolve_servers_valid:
  assumes "Resolve lib environ isWindows (Some c) configDir lookup = Inr rc"
    and "wf_map (cfg_MCPServers c)" and "\<forall>(sid, s) \<in> set (cfg_MCPServers c). wf_map (sc_Headers s)"
  shows "map fst (rc_Servers rc) = map fst (cfg_MCPServers c) \<and> wf_map (rc_Servers rc) \<and>
    length (rc_Servers rc) \<le> MaxServers \<and>
    (\<forall>(sid, rs) \<in> set (rc_Servers rc). rs_ID rs = sid \<and> serverIDRegex sid \<and> wf_server rs \<and>
       (rs_Type rs = ServerTypeStdio \<or> rs_Type rs = ServerTypeStreamableHTTP) \<and>
       0 < rs_StartupTimeout rs \<and> rs_StartupTimeout rs \<le> MaxDuration \<and>
       0 < rs_CallTimeout rs \<and> rs_CallTimeout rs \<le> MaxDuration \<and>
       MinConcurrency \<le> rs_MaxConcurrency rs \<and> rs_MaxConcurrency rs \<le> MaxConcurrency)"
proof -
  from assms(1) obtain c' x where c': "Some c = Some c'" and v: "Validate lib (Some c) = None"
    and all: "list_all2 (\<lambda>(sid, s) (sid', rs). sid' = sid \<and> resolve_server x sid s = Inr rs) (cfg_MCPServers c') (rc_Servers rc)"
    and x: "rx_lib x = lib"
      "rx_startup x = override_duration lib (def_StartupTimeout (cfg_Defaults c')) DefaultStartupTimeout"
      "rx_call x = override_duration lib (def_CallTimeout (cfg_Defaults c')) DefaultCallTimeout"
      "rx_concurrency x = (if def_MaxConcurrency (cfg_Defaults c') > 0 then def_MaxConcurrency (cfg_Defaults c')
       else DefaultMaxConcurrency)"
    by (rule Resolve_Inr)
  have c: "c' = c" using c' by simp
  note all = all [unfolded c] and x = x [unfolded c]
  have len: "length (cfg_MCPServers c) \<le> MaxServers"
    and srv: "\<forall>(sid, s) \<in> set (cfg_MCPServers c). validateServer lib sid s = None"
    and def: "validate_defaults lib (cfg_Defaults c) = None"
    using v by (auto elim: Validate_None)
  note keys = Resolve_keys_wf(1) [OF assms(1,3)]
  have "length (rc_Servers rc) = length (cfg_MCPServers c)" using list_all2_lengthD [OF all] by simp
  note d = validate_defaults_None [OF def]
  have b: "0 < rx_startup x \<and> rx_startup x \<le> MaxDuration" "0 < rx_call x \<and> rx_call x \<le> MaxDuration"
    unfolding x using override_duration_bounds d(1,2) default_bounds by blast+
  have b3: "MinConcurrency \<le> rx_concurrency x \<and> rx_concurrency x \<le> MaxConcurrency"
    unfolding x using d(3) default_bounds by simp
  have "rs_ID rs = sid \<and> serverIDRegex sid \<and> wf_server rs \<and>
       (rs_Type rs = ServerTypeStdio \<or> rs_Type rs = ServerTypeStreamableHTTP) \<and>
       0 < rs_StartupTimeout rs \<and> rs_StartupTimeout rs \<le> MaxDuration \<and>
       0 < rs_CallTimeout rs \<and> rs_CallTimeout rs \<le> MaxDuration \<and>
       MinConcurrency \<le> rs_MaxConcurrency rs \<and> rs_MaxConcurrency rs \<le> MaxConcurrency"
    if "(sid, rs) \<in> set (rc_Servers rc)" for sid rs
  proof -
    from list_all2_member2 [OF all that]
    obtain s where s: "(sid, s) \<in> set (cfg_MCPServers c)" "resolve_server x sid s = Inr rs" by auto
    from s(1) srv have ok: "validateServer lib sid s = None" by blast
    note v = validateServer_None [OF ok] and f = resolve_server_fields [OF s(2)]
    have "wf_server rs" using Resolve_keys_wf(2) [OF assms(1,3)] that by force
    moreover have "0 < rs_StartupTimeout rs \<and> rs_StartupTimeout rs \<le> MaxDuration"
      "0 < rs_CallTimeout rs \<and> rs_CallTimeout rs \<le> MaxDuration"
      using f b(1,2) v(3,4) override_duration_bounds x(1) by simp_all
    ultimately show ?thesis using f v(1,5) validate_type_None [OF v(2)] b3 by auto
  qed
  with keys len assms(2) \<open>length (rc_Servers rc) = _\<close> show ?thesis by auto
qed

section \<open>Credentials\<close>

lemma resolve_tokens_distinct:
  assumes "resolve_tokens lookup i seen raw = Inr vs"
  shows "distinct vs \<and> set vs \<inter> set seen = {} \<and> length vs = length raw"
  using assms
proof (induction raw arbitrary: i seen vs)
  case Nil
  then show ?case by simp
next
  case (Cons candidate raw)
  then obtain v vs' where v: "vs = v # vs'" "v \<notin> set seen" "resolve_tokens lookup (i + 1) (v # seen) raw = Inr vs'"
    by (auto simp: map_sum_Inr_iff split: if_splits sum.splits)
  from Cons.IH [OF v(3)] v(1,2) show ?case by auto
qed

lemma check_token_strength_None:
  "check_token_strength i ts = None \<longleftrightarrow> (\<forall>t \<in> set ts. length (trim_space t) \<ge> MinAuthTokenLength)"
proof -
  have "MinAuthTokenLength > 0" by (simp add: MinAuthTokenLength_def)
  then show ?thesis by (induction ts arbitrary: i) auto
qed

lemma check_credentials_None:
  assumes "check_credentials hub ts atok = None"
  shows "hub_PublicMode hub \<longrightarrow> ts \<noteq> []" and "\<forall>t \<in> set ts. length (trim_space t) \<ge> MinAuthTokenLength"
    and "adm_Enabled (hub_Admin hub) \<longrightarrow> length (trim_space atok) \<ge> MinAuthTokenLength \<and> atok \<notin> set ts"
proof -
  from assms have st: "check_token_strength 0 ts = None" and pm: "\<not> (hub_PublicMode hub \<and> length ts = 0)"
    and ad: "adm_Enabled (hub_Admin hub) \<longrightarrow> trim_space atok \<noteq> [] \<and> length (trim_space atok) \<ge> MinAuthTokenLength \<and>
      \<not> list_ex (\<lambda>token. token \<noteq> [] \<and> token = atok) ts"
    by (auto simp: check_credentials_def Let_def split: if_splits option.splits)
  show "hub_PublicMode hub \<longrightarrow> ts \<noteq> []" using pm by auto
  show "\<forall>t \<in> set ts. length (trim_space t) \<ge> MinAuthTokenLength" using st by (simp add: check_token_strength_None)
  have "trim_space [] = []" by (simp add: trim_space_def trim_words.simps find_None_iff space_runes_def)
  then show "adm_Enabled (hub_Admin hub) \<longrightarrow> length (trim_space atok) \<ge> MinAuthTokenLength \<and> atok \<notin> set ts"
    using ad by (auto simp: list_ex_iff)
qed

lemma validateListen_None:
  assumes "validateListenAddress lib listen pm = None"
  obtains host port where "SplitHostPort listen = Some (host, port)" "isLoopbackHost lib host \<or> pm"
  using assms by (auto simp: validateListenAddress_def split: option.splits if_splits)

text \<open>
  C18. Credentials of a resolved configuration: the bearer tokens are pairwise different and at least 32 characters
  long, the administrator's token is as long and is none of them, and a hub that listens on anything but a
  loopback address is in public mode, has a bearer token and restricts the hosts it answers to.
\<close>

theorem Resolve_credentials_safe:
  assumes "Resolve lib environ isWindows (Some c) configDir lookup = Inr rc"
  shows "distinct (rc_BearerTokens rc) \<and> (\<forall>t \<in> set (rc_BearerTokens rc). length (trim_space t) \<ge> 32) \<and>
    (rc_AdminEnabled rc \<longrightarrow> length (trim_space (rc_AdminToken rc)) \<ge> 32 \<and> rc_AdminToken rc \<notin> set (rc_BearerTokens rc)) \<and>
    (\<exists>host port. SplitHostPort (rc_Listen rc) = Some (host, port) \<and>
       (isLoopbackHost lib host \<or> rc_PublicMode rc \<and> rc_BearerTokens rc \<noteq> [] \<and> rc_AllowedHosts rc \<noteq> []))"
proof -
  from assms obtain c' where c': "Some c = Some c'" and v: "Validate lib (Some c) = None"
    and ts: "resolveBearerTokens (hub_Auth (cfg_Hub c')) lookup = Inr (rc_BearerTokens rc)"
    and cred: "check_credentials (cfg_Hub c') (rc_BearerTokens rc) (rc_AdminToken rc) = None"
    and f: "rc_Listen rc = effective_listen (cfg_Hub c')" "rc_PublicMode rc = hub_PublicMode (cfg_Hub c')"
      "rc_AllowedHosts rc = hub_AllowedHosts (cfg_Hub c')" "rc_AdminEnabled rc = adm_Enabled (hub_Admin (cfg_Hub c'))"
    by (rule Resolve_Inr)
  note ck = check_credentials_None [OF cred]
  have l: "validateListenAddress lib (rc_Listen rc) (rc_PublicMode rc) = None" and h: "validate_hub lib (cfg_Hub c') = None"
    using v c' f by (auto elim: Validate_None)
  from l obtain host port where hp: "SplitHostPort (rc_Listen rc) = Some (host, port)" "isLoopbackHost lib host \<or> rc_PublicMode rc"
    by (rule validateListen_None)
  have "rc_PublicMode rc \<Longrightarrow> rc_AllowedHosts rc \<noteq> []"
    using h f by (auto simp: validate_hub_def Let_def split: option.splits if_splits)
  moreover have "distinct (rc_BearerTokens rc)"
    using ts resolve_tokens_distinct unfolding resolveBearerTokens_def by blast
  ultimately show ?thesis using ck f hp by (auto simp: MinAuthTokenLength_def)
qed

section \<open>Inherited environment\<close>

lemma MergeEnv_members:
  assumes "(k, v) \<in> set (MergeEnv base explicit isWindows)"
  shows "(k, v) \<in> set explicit \<or> (k, v) \<in> set (List.map_filter parse_entry base)"
proof -
  have base: "set (merge_base base) \<subseteq> set (List.map_filter parse_entry base)"
  proof
    fix e assume "e \<in> set (merge_base base)"
    then have "mget (merge_base base) (fst e) = Some (snd e)" by (simp add: wf_map_get [OF merge_base_wf])
    then show "e \<in> set (List.map_filter parse_entry base)" by (auto simp: merge_base_get dest!: map_of_SomeD)
  qed
  have win: "wf_map r \<Longrightarrow> set (merge_overlay_windows es (r, c)) \<subseteq> set es \<union> set r" for es r c
  proof (induction es arbitrary: r c)
    case (Cons e es)
    define r' where "r' = (case mget c (to_lower (fst e)) of
        Some old \<Rightarrow> if old \<noteq> fst e then mdel old r else r | None \<Rightarrow> r)"
    have r': "wf_map r'" "set r' \<subseteq> set r"
      using Cons.prems by (auto simp: r'_def in_mdel_iff split: option.splits)
    then have "set (mput (fst e) (snd e) r') \<subseteq> {e} \<union> set r" by (auto simp: in_mput_iff)
    moreover have "set (merge_overlay_windows es (mput (fst e) (snd e) r', mput (to_lower (fst e)) (fst e) c)) \<subseteq>
        set es \<union> set (mput (fst e) (snd e) r')"
      by (rule Cons.IH) (use r'(1) in blast)
    moreover have "merge_overlay_windows (e # es) (r, c) =
        merge_overlay_windows es (mput (fst e) (snd e) r', mput (to_lower (fst e)) (fst e) c)"
      by (cases e) (simp add: Let_def r'_def split: option.split)
    ultimately show ?case by auto
  qed simp
  have posix: "wf_map r \<Longrightarrow> set (fold (\<lambda>(k, v) m. mput k v m) es r) \<subseteq> set es \<union> set r"
    for es r :: "(string, string) gomap"
  proof (induction es arbitrary: r)
    case (Cons e es)
    have "wf_map (mput (fst e) (snd e) r)" using Cons.prems by (rule wf_mput)
    from Cons.IH [OF this] Cons.prems show ?case by (auto simp: split_def in_mput_iff)
  qed simp
  have "set (MergeEnv base explicit isWindows) \<subseteq> set explicit \<union> set (merge_base base)"
    using win [OF merge_base_wf] posix [OF merge_base_wf] by (simp add: MergeEnv_def)
  with assms base show ?thesis by blast
qed

lemma parse_entry_iff:
  "parse_entry e = Some (k, v) \<longleftrightarrow> e = k @ CHR ''='' # v \<and> k \<noteq> [] \<and> CHR ''='' \<notin> set k"
proof
  assume "parse_entry e = Some (k, v)"
  then obtain i where i: "index_byte e (CHR ''='') = Some i" "i \<noteq> 0" "k = take i e" "v = drop (i + 1) e"
    by (auto simp: parse_entry_def split: option.splits if_splits)
  note ix = index_byte_Some [OF i(1)]
  then have "e = take i e @ e ! i # drop (Suc i) e" by (intro id_take_nth_drop) simp
  with ix i(2-4) show "e = k @ CHR ''='' # v \<and> k \<noteq> [] \<and> CHR ''='' \<notin> set k" by auto
next
  assume "e = k @ CHR ''='' # v \<and> k \<noteq> [] \<and> CHR ''='' \<notin> set k"
  then show "parse_entry e = Some (k, v)" by (auto simp: parse_entry_def index_byte_append)
qed

text \<open>
  C19. A stdio server gets no credential of the hub by inheritance and little else: every variable in its
  environment is either named in its own configuration, with the expanded value written there, or is a variable of
  the manager's process whose name is on the list of harmless ones and whose value is none of the hub's tokens.
\<close>

theorem Resolve_env_confined:
  assumes "Resolve lib environ isWindows (Some c) configDir lookup = Inr rc"
    and "(sid, rs) \<in> set (rc_Servers rc)" and "rs_Type rs = ServerTypeStdio" and "(k, v) \<in> set (rs_Env rs)"
  shows "(\<exists>s raw. (sid, s) \<in> set (cfg_MCPServers c) \<and> (k, raw) \<in> set (sc_Env s) \<and> ExpandEnv raw lookup = Inr v) \<or>
    k @ ''='' @ v \<in> set environ \<and> inherit_allowed isWindows k \<and>
      (v \<noteq> [] \<longrightarrow> v \<notin> set (rc_BearerTokens rc) \<and> v \<noteq> rc_AdminToken rc)"
proof -
  from assms(1) obtain c' x where c': "Some c = Some c'"
    and all: "list_all2 (\<lambda>(sid, s) (sid', rs). sid' = sid \<and> resolve_server x sid s = Inr rs) (cfg_MCPServers c') (rc_Servers rc)"
    and x: "rx_lookup x = lookup" "rx_isWindows x = isWindows"
      "rx_baseEnv x = base_env environ (rc_BearerTokens rc) (rc_AdminToken rc) isWindows"
    by (rule Resolve_Inr)
  from list_all2_member2 [OF all assms(2)] c'
  obtain s where s: "(sid, s) \<in> set (cfg_MCPServers c)" "resolve_server x sid s = Inr rs" by auto
  have "sc_Type s = ServerTypeStdio" using resolve_server_fields [OF s(2)] assms(3) by simp
  with s(2) obtain env where env: "expand_values lookup (ResServerEnv sid) (sc_Env s) = Inr env"
    "rs_Env rs = MergeEnv (rx_baseEnv x) env isWindows"
    using x by (auto simp: resolve_server_def Let_def split: sum.splits)
  from assms(4) env(2) MergeEnv_members
  consider "(k, v) \<in> set env" | "(k, v) \<in> set (List.map_filter parse_entry (rx_baseEnv x))" by fastforce
  then show ?thesis
  proof cases
    case 1
    with expand_values_keys(2) [OF env(1)] s(1) show ?thesis by blast
  next
    case 2
    then obtain e where e: "e \<in> set (rx_baseEnv x)" "parse_entry e = Some (k, v)"
      by (auto simp: List.map_filter_def)
    have "e = k @ CHR ''='' # v" "index_byte e (CHR ''='') = Some (length k)"
      using e(2) by (auto simp: parse_entry_iff index_byte_append)
    with e show ?thesis
      by (auto simp: x base_env_def safeInheritedEnv_def filterInheritedSecrets_def list_ex_iff)
  qed
qed

section \<open>Witnesses\<close>

definition demo_lib :: go_lib where
  "demo_lib = \<lparr>lib_urlParse = (\<lambda>_. None), lib_ParseIP = (\<lambda>h. if h = ''127.0.0.1'' then Some True else None),
     lib_ParseCIDR = (\<lambda>_. False), lib_ParseDuration = (\<lambda>s. if s = ''5s'' then Some (5 * second) else None),
     lib_IsAbs = (\<lambda>p. has_prefix p ''/''), lib_Join = (\<lambda>d n. d @ ''/'' @ n)\<rparr>"

definition demo_token :: string where "demo_token = replicate 32 (CHR ''t'')"

definition demo_raw :: Config where
  "demo_raw =
     \<lparr>cfg_Version = 1,
      cfg_Hub = \<lparr>hub_Listen = [], hub_PublicMode = False, hub_PublicURL = [], hub_AllowedHosts = [], hub_TrustedProxies = [],
        hub_Auth = \<lparr>auth_BearerToken = ''${TOKEN}'', auth_BearerTokens = []\<rparr>,
        hub_Admin = \<lparr>adm_Enabled = False, adm_Token = [], adm_SessionTimeout = []\<rparr>\<rparr>,
      cfg_Defaults = \<lparr>def_StartupTimeout = [], def_CallTimeout = ''5s'', def_MaxConcurrency = 0\<rparr>,
      cfg_MCPServers = [(''fs'',
        \<lparr>sc_Enabled = None, sc_Type = ServerTypeStdio, sc_Command = ''run'', sc_Args = [], sc_Cwd = [], sc_Env = [(''A'', ''$$1'')],
         sc_URL = [], sc_Headers = [], sc_Disabled = [''rm''], sc_StartupTimeout = [], sc_CallTimeout = [],
         sc_MaxConcurrency = 0\<rparr>)]\<rparr>"

definition demo_lookup :: "string \<Rightarrow> string option" where
  "demo_lookup n = (if n = ''TOKEN'' then Some demo_token else None)"

definition demo_environ :: "string list" where
  "demo_environ = [''PATH=/bin'', ''TOKEN='' @ demo_token, ''LANG='' @ demo_token]"

definition demo_resolved :: ResolvedConfig where
  "demo_resolved = projr (Resolve demo_lib demo_environ False (Some demo_raw) ''/etc'' demo_lookup)"

lemma demo_resolves: "Resolve demo_lib demo_environ False (Some demo_raw) ''/etc'' demo_lookup = Inr demo_resolved"
proof -
  have "\<not> isl (Resolve demo_lib demo_environ False (Some demo_raw) ''/etc'' demo_lookup)" by code_simp
  then show ?thesis by (simp add: demo_resolved_def)
qed

theorem Resolve_servers_valid_witness:
  "map fst (rc_Servers demo_resolved) = [''fs''] \<and> wf_map (rc_Servers demo_resolved)"
  using Resolve_servers_valid [OF demo_resolves] by (simp add: demo_raw_def)

theorem Resolve_credentials_safe_witness:
  "distinct (rc_BearerTokens demo_resolved) \<and> list_all (\<lambda>t. length (trim_space t) \<ge> 32) (rc_BearerTokens demo_resolved)"
  using Resolve_credentials_safe [OF demo_resolves] by (simp add: list_all_iff)

theorem Resolve_env_confined_witness:
  "\<exists>rs. (''fs'', rs) \<in> set (rc_Servers demo_resolved) \<and> (''PATH'', ''/bin'') \<in> set (rs_Env rs) \<and>
     (inherit_allowed False ''PATH'' \<or> ''PATH'' \<in> fst ` set [(''A'', ''$$1'')])"
proof -
  have "map fst (rc_Servers demo_resolved) = [''fs''] \<and> rs_Type (snd (hd (rc_Servers demo_resolved))) = ServerTypeStdio \<and>
      (''PATH'', ''/bin'') \<in> set (rs_Env (snd (hd (rc_Servers demo_resolved))))"
    by code_simp
  then obtain rs where rs: "(''fs'', rs) \<in> set (rc_Servers demo_resolved)" "rs_Type rs = ServerTypeStdio"
    "(''PATH'', ''/bin'') \<in> set (rs_Env rs)"
    by (cases "rc_Servers demo_resolved") auto
  from Resolve_env_confined [OF demo_resolves rs] rs show ?thesis by (auto simp: demo_raw_def)
qed

end
