(* ===== verification/Config_Load.thy ===== *)
theory Config_Load
  imports Config_Decode Config_Properties
begin

text \<open>
  The pipeline from a file to a resolved configuration (\<^verbatim>\<open>internal/config/load.go\<close>), the shape of the configuration types
  that the strict decoder compares with (the \<^verbatim>\<open>json\<close> tags of \<^verbatim>\<open>types.go\<close>), and the properties of the decoder and the
  pipeline.
\<close>

section \<open>Reading a file within the limit\<close>

text \<open>
  An opened file: what \<^verbatim>\<open>Stat\<close> says (\<^term>\<open>None\<close> for an error, otherwise whether the file is regular, and its size), the bytes
  it delivers, and how reading ends after them (\<^term>\<open>None\<close> for the end of the file). Size and contents are separate
  because the file may change in between.
\<close>

record os_file =
  of_stat :: "(bool \<times> nat) option"
  of_content :: string
  of_end :: "string option"

datatype file_error = OpenFailed | ReadFailed string | FileTooLarge

text \<open>\<^verbatim>\<open>io.ReadAll(io.LimitReader(f, n))\<close>: the error after the contents is met only when the limit is not reached first.\<close>

definition read_limited :: "nat \<Rightarrow> os_file \<Rightarrow> file_error + string" where
  "read_limited n f =
     (if length (of_content f) \<ge> n then Inr (take n (of_content f))
      else case of_end f of None \<Rightarrow> Inr (of_content f) | Some e \<Rightarrow> Inl (ReadFailed e))"

definition stat_too_large :: "os_file \<Rightarrow> bool" where
  "stat_too_large f \<longleftrightarrow>
     (case of_stat f of None \<Rightarrow> False | Some (regular, sz) \<Rightarrow> regular \<and> sz > MaxConfigFileSize)"

definition ReadFileLimited :: "os_file option \<Rightarrow> file_error + string" where
  "ReadFileLimited opened =
     (case opened of
        None \<Rightarrow> Inl OpenFailed
      | Some f \<Rightarrow>
          if stat_too_large f then Inl FileTooLarge
          else case read_limited (MaxConfigFileSize + 1) f of
                 Inl e \<Rightarrow> Inl e
               | Inr data \<Rightarrow> if length data > MaxConfigFileSize then Inl FileTooLarge else Inr data)"

section \<open>The shape of a configuration\<close>

definition jfield :: "string \<Rightarrow> string \<Rightarrow> go_type \<Rightarrow> go_field" where
  "jfield name tag t = GField name True tag t"

definition AdminConfig_type :: go_type where
  "AdminConfig_type = GStruct
     [jfield ''Enabled'' ''enabled,omitempty'' GScalar, jfield ''Token'' ''token,omitempty'' GScalar,
      jfield ''SessionTimeout'' ''sessionTimeout,omitempty'' GScalar]"

definition HubAuthConfig_type :: go_type where
  "HubAuthConfig_type = GStruct
     [jfield ''BearerToken'' ''bearerToken,omitempty'' GScalar,
      jfield ''BearerTokens'' ''bearerTokens,omitempty'' (GSlice GScalar)]"

definition HubConfig_type :: go_type where
  "HubConfig_type = GStruct
     [jfield ''Listen'' ''listen,omitempty'' GScalar, jfield ''PublicMode'' ''publicMode,omitempty'' GScalar,
      jfield ''PublicURL'' ''publicUrl,omitempty'' GScalar,
      jfield ''AllowedHosts'' ''allowedHosts,omitempty'' (GSlice GScalar),
      jfield ''TrustedProxies'' ''trustedProxies,omitempty'' (GSlice GScalar),
      jfield ''Auth'' ''auth,omitempty'' HubAuthConfig_type, jfield ''Admin'' ''admin,omitempty'' AdminConfig_type]"

definition DefaultsConfig_type :: go_type where
  "DefaultsConfig_type = GStruct
     [jfield ''StartupTimeout'' ''startupTimeout,omitempty'' GScalar, jfield ''CallTimeout'' ''callTimeout,omitempty'' GScalar,
      jfield ''MaxConcurrency'' ''maxConcurrency,omitempty'' GScalar]"

definition ServerConfig_type :: go_type where
  "ServerConfig_type = GStruct
     [jfield ''Enabled'' ''enabled,omitempty'' (GPtr GScalar), jfield ''Type'' ''type'' GScalar,
      jfield ''Command'' ''command,omitempty'' GScalar, jfield ''Args'' ''args,omitempty'' (GSlice GScalar),
      jfield ''Cwd'' ''cwd,omitempty'' GScalar, jfield ''Env'' ''env,omitempty'' (GMap GScalar),
      jfield ''URL'' ''url,omitempty'' GScalar, jfield ''Headers'' ''headers,omitempty'' (GMap GScalar),
      jfield ''Tools'' ''tools,omitempty'' (GStruct [jfield ''Disabled'' ''disabled,omitempty'' (GSlice GScalar)]),
      jfield ''StartupTimeout'' ''startupTimeout,omitempty'' GScalar, jfield ''CallTimeout'' ''callTimeout,omitempty'' GScalar,
      jfield ''MaxConcurrency'' ''maxConcurrency,omitempty'' GScalar]"

definition Config_type :: go_type where
  "Config_type = GStruct
     [jfield ''Version'' ''version'' GScalar, jfield ''Hub'' ''hub,omitempty'' HubConfig_type,
      jfield ''Defaults'' ''defaults,omitempty'' DefaultsConfig_type,
      jfield ''MCPServers'' ''mcpServers'' (GMap ServerConfig_type)]"

text \<open>The target \<^verbatim>\<open>&raw\<close>, for a decoder \<open>dec\<close> of \<^verbatim>\<open>encoding/json\<close>.\<close>

definition config_target :: "(string \<Rightarrow> string + Config \<times> bool) \<Rightarrow> Config decode_target" where
  "config_target dec = \<lparr>dt_type = GPtr Config_type, dt_decode = dec\<rparr>"

section \<open>Parse and LoadFile\<close>

text \<open>The environment of the pipeline: the libraries, \<^verbatim>\<open>os.Environ\<close>, the platform and \<^verbatim>\<open>os.LookupEnv\<close>.\<close>

record load_env =
  le_json :: json_lib
  le_decode :: "string \<Rightarrow> string + Config \<times> bool"
  le_lib :: go_lib
  le_environ :: "string list"
  le_isWindows :: bool
  le_lookup :: "string \<Rightarrow> string option"
  le_Dir :: "string \<Rightarrow> string"

datatype parse_error =
    ParseRead file_error
  | ParseDecode decode_error
  | ParseInvalid config_error
  | ParseResolve resolve_error

definition Parse :: "load_env \<Rightarrow> string \<Rightarrow> string \<Rightarrow> Config option \<times> (parse_error + ResolvedConfig)" where
  "Parse env data configDir =
     (case DecodeStrict (le_json env) data (config_target (le_decode env)) of
        Inl e \<Rightarrow> (None, Inl (ParseDecode e))
      | Inr raw \<Rightarrow>
          (case Validate (le_lib env) (Some raw) of
             Some e \<Rightarrow> (None, Inl (ParseInvalid e))
           | None \<Rightarrow>
               (case Resolve (le_lib env) (le_environ env) (le_isWindows env) (Some raw) configDir (le_lookup env) of
                  Inl e \<Rightarrow> (Some raw, Inl (ParseResolve e))
                | Inr resolved \<Rightarrow> (Some raw, Inr resolved))))"

definition LoadFile :: "load_env \<Rightarrow> os_file option \<Rightarrow> string \<Rightarrow> Config option \<times> (parse_error + ResolvedConfig)" where
  "LoadFile env opened configPath =
     (case ReadFileLimited opened of
        Inl e \<Rightarrow> (None, Inl (ParseRead e))
      | Inr data \<Rightarrow> Parse env data (le_Dir env configPath))"

end
