(* ===== verification/Config_Write.thy ===== *)
theory Config_Write
  imports Config_Load
begin

text \<open>
  Writing a configuration file (\<^verbatim>\<open>internal/config/atomic.go\<close>, with \<^verbatim>\<open>atomic_posix.go\<close> and \<^verbatim>\<open>lock_unix.go\<close>): digests, the
  advisory lock and the replacement of the file by way of a temporary one.

  The disk is a map from paths to contents together with the lock file beside the configuration. What the operating
  system answers to each call is an oracle, so every error path of the code is a branch. The hash is the argument \<open>hash\<close>
  (hexadecimal SHA-256).
\<close>

section \<open>Digests\<close>

definition ComputeDigest :: "(string \<Rightarrow> string) \<Rightarrow> string \<Rightarrow> string" where
  "ComputeDigest hash data = hash data"

text \<open>\<^verbatim>\<open>io.Copy(h, io.LimitReader(f, n))\<close> feeds the hash with what \<open>read_limited\<close> reads.\<close>

definition ComputeFileDigest :: "(string \<Rightarrow> string) \<Rightarrow> os_file option \<Rightarrow> file_error + string" where
  "ComputeFileDigest hash opened =
     (case opened of
        None \<Rightarrow> Inl OpenFailed
      | Some f \<Rightarrow>
          if stat_too_large f then Inl FileTooLarge
          else case read_limited (MaxConfigFileSize + 1) f of
                 Inl e \<Rightarrow> Inl e
               | Inr data \<Rightarrow> if length data > MaxConfigFileSize then Inl FileTooLarge else Inr (hash data))"

section \<open>The lock\<close>

datatype write_error =
    WriteTooLarge
  | WriteMkdir
  | LockOpenFailed
  | LockFailed
  | ErrLockHeld string
  | LockMetadata
  | WriteMismatch string string
  | WriteDigest file_error
  | WriteTempCreate
  | WriteChmod
  | WriteData
  | WriteSync
  | WriteClose
  | WriteReplace
  | WriteSyncDir

record lock_file =
  lk_held :: bool
  lk_content :: string

text \<open>
  The answers of one attempt: \<open>lk_flockFails\<close> holds when \<^verbatim>\<open>flock\<close> fails with anything but \<^verbatim>\<open>EWOULDBLOCK\<close>; a step of the
  metadata that fails leaves what it has done so far.
\<close>

record lock_oracle =
  lk_openFails :: bool
  lk_flockFails :: bool
  lk_readFails :: bool
  lk_truncateFails :: bool
  lk_seekFails :: bool
  lk_writeFails :: bool
  lk_syncFails :: bool
  lk_info :: string

definition tryLockFile :: "lock_oracle \<Rightarrow> lock_file \<Rightarrow> (unit + bool) \<times> lock_file" where
  "tryLockFile orc lk =
     (if lk_flockFails orc then (Inl (), lk)
      else if lk_held lk then (Inr False, lk)
      else (Inr True, lk\<lparr>lk_held := True\<rparr>))"

definition unlockFile :: "lock_file \<Rightarrow> lock_file" where
  "unlockFile lk = lk\<lparr>lk_held := False\<rparr>"

definition readLockDetails :: "lock_oracle \<Rightarrow> lock_file \<Rightarrow> string" where
  "readLockDetails orc lk =
     (if lk_seekFails orc \<or> lk_readFails orc then [] else trim_space (take 4096 (lk_content lk)))"

definition writeLockDetails :: "lock_oracle \<Rightarrow> lock_file \<Rightarrow> bool \<times> lock_file" where
  "writeLockDetails orc lk =
     (if lk_truncateFails orc then (False, lk)
      else
        let lk = lk\<lparr>lk_content := []\<rparr>
        in if lk_seekFails orc then (False, lk)
           else if lk_writeFails orc then (False, lk)
           else (\<not> lk_syncFails orc, lk\<lparr>lk_content := lk_info orc\<rparr>))"

definition AcquireLock :: "lock_oracle \<Rightarrow> lock_file \<Rightarrow> write_error option \<times> lock_file" where
  "AcquireLock orc lk =
     (if lk_openFails orc then (Some LockOpenFailed, lk)
      else case tryLockFile orc lk of
             (Inl _, lk) \<Rightarrow> (Some LockFailed, lk)
           | (Inr False, lk) \<Rightarrow> (Some (ErrLockHeld (readLockDetails orc lk)), lk)
           | (Inr True, lk) \<Rightarrow>
               (case writeLockDetails orc lk of
                  (False, lk) \<Rightarrow> (Some LockMetadata, unlockFile lk)
                | (True, lk) \<Rightarrow> (None, lk)))"

section \<open>Replacing the file\<close>

record disk =
  dk_files :: "(string, string) gomap"
  dk_lock :: lock_file

text \<open>
  \<open>wo_opened\<close> is how the configuration file opens for the digest when it exists; \<open>wo_temp\<close> is the path that \<^verbatim>\<open>os.CreateTemp\<close>
  chose, \<^term>\<open>None\<close> for an error; \<open>wo_partial\<close> the bytes that reach the temporary file when the write fails.
\<close>

record write_oracle =
  wo_mkdirFails :: bool
  wo_lock :: lock_oracle
  wo_opened :: "string \<Rightarrow> os_file option"
  wo_temp :: "string option"
  wo_chmodFails :: bool
  wo_partial :: "string option"
  wo_syncFails :: bool
  wo_closeFails :: bool
  wo_replaceFails :: bool
  wo_syncDirFails :: bool
  wo_removeFails :: bool

definition check_cas :: "(string \<Rightarrow> string) \<Rightarrow> write_oracle \<Rightarrow> string \<Rightarrow> string \<Rightarrow> disk \<Rightarrow> write_error option" where
  "check_cas hash orc path expectedDigest d =
     (if expectedDigest = [] then None
      else case mget (dk_files d) path of
             None \<Rightarrow> Some (WriteMismatch expectedDigest ''none (file does not exist)'')
           | Some content \<Rightarrow>
               (case ComputeFileDigest hash (wo_opened orc content) of
                  Inl e \<Rightarrow> Some (WriteDigest e)
                | Inr actual \<Rightarrow> if actual \<noteq> expectedDigest then Some (WriteMismatch expectedDigest actual) else None))"

text \<open>Filling the temporary file: the contents it has afterwards and the error, if any.\<close>

definition fill_temp :: "write_oracle \<Rightarrow> string \<Rightarrow> write_error option \<times> string" where
  "fill_temp orc data =
     (if wo_chmodFails orc then (Some WriteChmod, [])
      else case wo_partial orc of
             Some some \<Rightarrow> (Some WriteData, some)
           | None \<Rightarrow>
               if wo_syncFails orc then (Some WriteSync, data)
               else if wo_closeFails orc then (Some WriteClose, data)
               else (None, data))"

definition remove_temp :: "write_oracle \<Rightarrow> string \<Rightarrow> disk \<Rightarrow> disk" where
  "remove_temp orc tmp d = (if wo_removeFails orc then d else d\<lparr>dk_files := mdel tmp (dk_files d)\<rparr>)"

definition replaceFile :: "string \<Rightarrow> string \<Rightarrow> disk \<Rightarrow> disk" where
  "replaceFile from target d =
     (case mget (dk_files d) from of
        None \<Rightarrow> d
      | Some content \<Rightarrow> d\<lparr>dk_files := mput target content (mdel from (dk_files d))\<rparr>)"

text \<open>What happens under the lock: the comparison, then the temporary file and the replacement.\<close>

definition write_replace :: "write_oracle \<Rightarrow> string \<Rightarrow> string \<Rightarrow> disk \<Rightarrow> write_error option \<times> disk" where
  "write_replace orc path data d =
     (case wo_temp orc of
        None \<Rightarrow> (Some WriteTempCreate, d)
      | Some tmp \<Rightarrow>
          let (err, content) = fill_temp orc data;
              d = d\<lparr>dk_files := mput tmp content (dk_files d)\<rparr>
          in case err of
               Some e \<Rightarrow> (Some e, remove_temp orc tmp d)
             | None \<Rightarrow>
                 if wo_replaceFails orc then (Some WriteReplace, remove_temp orc tmp d)
                 else (if wo_syncDirFails orc then Some WriteSyncDir else None, replaceFile tmp path d))"

definition write_locked ::
  "(string \<Rightarrow> string) \<Rightarrow> write_oracle \<Rightarrow> string \<Rightarrow> string \<Rightarrow> string \<Rightarrow> disk \<Rightarrow> write_error option \<times> disk" where
  "write_locked hash orc path data expectedDigest d =
     (case check_cas hash orc path expectedDigest d of
        Some e \<Rightarrow> (Some e, d)
      | None \<Rightarrow> write_replace orc path data d)"

definition WriteConfigFileAtomic ::
  "(string \<Rightarrow> string) \<Rightarrow> write_oracle \<Rightarrow> string \<Rightarrow> string \<Rightarrow> string \<Rightarrow> disk \<Rightarrow> write_error option \<times> disk" where
  "WriteConfigFileAtomic hash orc path data expectedDigest d =
     (if length data > MaxConfigFileSize then (Some WriteTooLarge, d)
      else if wo_mkdirFails orc then (Some WriteMkdir, d)
      else case AcquireLock (wo_lock orc) (dk_lock d) of
             (Some e, lk) \<Rightarrow> (Some e, d\<lparr>dk_lock := lk\<rparr>)
           | (None, lk) \<Rightarrow>
               let (err, d') = write_locked hash orc path data expectedDigest (d\<lparr>dk_lock := lk\<rparr>)
               in (err, d'\<lparr>dk_lock := unlockFile (dk_lock d')\<rparr>))"

section \<open>One writer\<close>

text \<open>What an oracle of a real disk keeps to: the temporary path is new, and a file that opens delivers its contents.\<close>

definition honest :: "write_oracle \<Rightarrow> string \<Rightarrow> disk \<Rightarrow> bool" where
  "honest orc path d \<longleftrightarrow>
     (\<forall>tmp. wo_temp orc = Some tmp \<longrightarrow> tmp \<noteq> path \<and> mget (dk_files d) tmp = None) \<and>
     (\<forall>content f. wo_opened orc content = Some f \<longrightarrow> of_content f = content)"

lemma ComputeFileDigest_Inr:
  assumes "ComputeFileDigest hash opened = Inr h"
  obtains f where "opened = Some f" "h = hash (of_content f)"
  using assms by (auto simp: ComputeFileDigest_def read_limited_def split: option.splits if_splits sum.splits)

lemma check_cas_None:
  assumes "check_cas hash orc path e d = None" and "e \<noteq> []" and "honest orc path d"
  shows "\<exists>content. mget (dk_files d) path = Some content \<and> hash content = e"
proof -
  from assms(1,2) obtain content where c: "mget (dk_files d) path = Some content"
    and h: "ComputeFileDigest hash (wo_opened orc content) = Inr e"
    by (auto simp: check_cas_def split: option.splits sum.splits if_splits)
  from h obtain f where "wo_opened orc content = Some f" "e = hash (of_content f)" by (rule ComputeFileDigest_Inr)
  with assms(3) c show ?thesis unfolding honest_def by blast
qed

text \<open>The replacement: which errors leave the old contents, and what becomes of the other files.\<close>

lemma write_replace_effect:
  assumes "write_replace orc path data d = (err, d')" and "honest orc path d"
  shows "mget (dk_files d') path = (if err = None \<or> err = Some WriteSyncDir then Some data else mget (dk_files d) path)"
    and "p \<noteq> path \<Longrightarrow> \<not> wo_removeFails orc \<Longrightarrow> mget (dk_files d') p = mget (dk_files d) p"
    and "dk_lock d' = dk_lock d"
proof -
  have "mget (dk_files d') path = (if err = None \<or> err = Some WriteSyncDir then Some data else mget (dk_files d) path) \<and>
      (p \<noteq> path \<longrightarrow> \<not> wo_removeFails orc \<longrightarrow> mget (dk_files d') p = mget (dk_files d) p) \<and> dk_lock d' = dk_lock d"
  proof (cases "wo_temp orc")
    case None
    with assms show ?thesis by (auto simp: write_replace_def)
  next
    case (Some tmp)
    with assms(2) have tmp: "tmp \<noteq> path" "mget (dk_files d) tmp = None" unfolding honest_def by blast+
    obtain e content where ft: "fill_temp orc data = (e, content)" by fastforce
    show ?thesis
    proof (cases e)
      case None
      with ft have "content = data" by (auto simp: fill_temp_def split: if_splits option.splits)
      with assms(1) Some None ft tmp show ?thesis
        by (auto simp: write_replace_def Let_def remove_temp_def replaceFile_def split: if_splits)
    next
      case (Some x)
      with ft have "x \<noteq> WriteSyncDir" by (auto simp: fill_temp_def split: if_splits option.splits)
      with assms(1) Some \<open>wo_temp orc = Some tmp\<close> ft tmp show ?thesis
        by (auto simp: write_replace_def Let_def remove_temp_def split: if_splits)
    qed
  qed
  then show "mget (dk_files d') path = (if err = None \<or> err = Some WriteSyncDir then Some data else mget (dk_files d) path)"
    "p \<noteq> path \<Longrightarrow> \<not> wo_removeFails orc \<Longrightarrow> mget (dk_files d') p = mget (dk_files d) p" "dk_lock d' = dk_lock d"
    by blast+
qed

lemma AcquireLock_effect:
  assumes "AcquireLock orc lk = (err, lk')"
  shows "err = None \<Longrightarrow> \<not> lk_held lk \<and> lk_held lk'" and "err \<noteq> None \<Longrightarrow> lk_held lk' = lk_held lk"
  using assms
  by (auto simp: AcquireLock_def tryLockFile_def writeLockDetails_def unlockFile_def Let_def split: if_splits bool.splits)

lemma WriteConfigFileAtomic_effect:
  assumes "WriteConfigFileAtomic hash orc path data e d = (err, d')" and "honest orc path d"
  shows "mget (dk_files d') path = (if err = None \<or> err = Some WriteSyncDir then Some data else mget (dk_files d) path) \<and>
    (err = None \<or> err = Some WriteSyncDir \<longrightarrow> e \<noteq> [] \<longrightarrow> (\<exists>content. mget (dk_files d) path = Some content \<and> hash content = e)) \<and>
    lk_held (dk_lock d') = lk_held (dk_lock d) \<and>
    (\<forall>p. p \<noteq> path \<longrightarrow> \<not> wo_removeFails orc \<longrightarrow> mget (dk_files d') p = mget (dk_files d) p)"
proof -
  obtain er lk where lock: "AcquireLock (wo_lock orc) (dk_lock d) = (er, lk)" by fastforce
  note ll = AcquireLock_effect [OF lock]
  consider (early) x where "err = Some x" "x \<noteq> WriteSyncDir" "dk_files d' = dk_files d" "lk_held (dk_lock d') = lk_held (dk_lock d)"
    | (locked) d1 where "er = None" "write_locked hash orc path data e (d\<lparr>dk_lock := lk\<rparr>) = (err, d1)"
        "d' = d1\<lparr>dk_lock := unlockFile (dk_lock d1)\<rparr>"
  proof (cases "length data > MaxConfigFileSize \<or> wo_mkdirFails orc")
    case True
    with assms(1) show thesis by (intro early [of "the err"]) (auto simp: WriteConfigFileAtomic_def split: if_splits)
  next
    case False
    show thesis
    proof (cases er)
      case None
      with False assms(1) lock show thesis
        by (intro locked [of "snd (write_locked hash orc path data e (d\<lparr>dk_lock := lk\<rparr>))"])
          (auto simp: WriteConfigFileAtomic_def split: prod.splits)
    next
      case (Some x)
      have "x \<noteq> WriteSyncDir"
        using lock Some by (auto simp: AcquireLock_def tryLockFile_def split: if_splits bool.splits prod.splits)
      with False Some assms(1) lock ll show thesis by (intro early [of x]) (auto simp: WriteConfigFileAtomic_def)
    qed
  qed
  then show ?thesis
  proof cases
    case early
    then show ?thesis by auto
  next
    case locked
    let ?d = "d\<lparr>dk_lock := lk\<rparr>"
    have h: "honest orc path ?d" using assms(2) by (simp add: honest_def)
    have held: "\<not> lk_held (dk_lock d)" using ll(1) locked(1) by blast
    show ?thesis
    proof (cases "check_cas hash orc path e ?d")
      case None
      with locked(2) have wr: "write_replace orc path data ?d = (err, d1)" by (simp add: write_locked_def)
      note fx = write_replace_effect [OF wr h]
      have "e \<noteq> [] \<Longrightarrow> \<exists>content. mget (dk_files d) path = Some content \<and> hash content = e"
        using check_cas_None [OF None _ h] by simp
      with fx held locked(3) show ?thesis by (auto simp: unlockFile_def)
    next
      case (Some x)
      then have "x \<noteq> WriteSyncDir" by (auto simp: check_cas_def split: if_splits option.splits sum.splits)
      with Some locked(2,3) held show ?thesis by (auto simp: write_locked_def unlockFile_def)
    qed
  qed
qed

lemma WriteConfigFileAtomic_content:
  assumes "WriteConfigFileAtomic hash orc path data e d = (None, d')" and "honest orc path d"
  shows "mget (dk_files d') path = Some data"
  using WriteConfigFileAtomic_effect [OF assms] by simp

text \<open>
  A write is all or nothing: afterwards the file has its old contents or the complete new ones, never a part of them.
  It has the new ones exactly when the call succeeds or fails in the very last step, the synchronisation of the directory.
  A replacement with a digest only ever replaces contents with that digest. The lock is given back, every other file is
  as before, and no temporary file stays behind unless its removal failed.
\<close>

theorem WriteConfigFileAtomic_atomic:
  assumes "WriteConfigFileAtomic hash orc path data e d = (err, d')" and "honest orc path d"
  shows "mget (dk_files d') path = (if err = None \<or> err = Some WriteSyncDir then Some data else mget (dk_files d) path) \<and>
    (err = None \<or> err = Some WriteSyncDir \<longrightarrow> e \<noteq> [] \<longrightarrow> (\<exists>content. mget (dk_files d) path = Some content \<and> hash content = e)) \<and>
    lk_held (dk_lock d') = lk_held (dk_lock d) \<and>
    (\<forall>p. p \<noteq> path \<longrightarrow> \<not> wo_removeFails orc \<longrightarrow> mget (dk_files d') p = mget (dk_files d) p)"
  by (rule WriteConfigFileAtomic_effect [OF assms])

section \<open>Several writers\<close>

text \<open>
  Processes that write the same file through this function: the regions of the call, interleaved in any order. \<open>jobs\<close> gives
  the data and the expected digest of each; a replacement is logged with the contents it replaced.
\<close>

datatype writer_pc =
    WpStart
  | WpLocked write_oracle
  | WpChecked write_oracle
  | WpUnlock "write_error option"
  | WpDone "write_error option"

record writers =
  wr_disk :: disk
  wr_pcs :: "(nat, writer_pc) gomap"
  wr_log :: "(nat \<times> string option) list"

definition writer_pc_of :: "writers \<Rightarrow> nat \<Rightarrow> writer_pc" where
  "writer_pc_of s i = mget_or WpStart (wr_pcs s) i"

definition set_writer :: "nat \<Rightarrow> writer_pc \<Rightarrow> disk \<Rightarrow> writers \<Rightarrow> writers" where
  "set_writer i pc d s = s\<lparr>wr_disk := d, wr_pcs := mput i pc (wr_pcs s)\<rparr>"

inductive writer_step ::
  "(string \<Rightarrow> string) \<Rightarrow> string \<Rightarrow> (nat \<Rightarrow> string \<times> string) \<Rightarrow> writers \<Rightarrow> writers \<Rightarrow> bool" for hash path jobs where
  acquire: "writer_pc_of s i = WpStart \<Longrightarrow> AcquireLock (wo_lock orc) (dk_lock (wr_disk s)) = (err, lk) \<Longrightarrow>
    pc = (case err of None \<Rightarrow> WpLocked orc | Some e \<Rightarrow> WpDone (Some e)) \<Longrightarrow>
    writer_step hash path jobs s (set_writer i pc ((wr_disk s)\<lparr>dk_lock := lk\<rparr>) s)"
| check: "writer_pc_of s i = WpLocked orc \<Longrightarrow> honest orc path (wr_disk s) \<Longrightarrow>
    pc = (case check_cas hash orc path (snd (jobs i)) (wr_disk s) of None \<Rightarrow> WpChecked orc | Some e \<Rightarrow> WpUnlock (Some e)) \<Longrightarrow>
    writer_step hash path jobs s (set_writer i pc (wr_disk s) s)"
| replace: "writer_pc_of s i = WpChecked orc \<Longrightarrow> honest orc path (wr_disk s) \<Longrightarrow>
    write_replace orc path (fst (jobs i)) (wr_disk s) = (err, d') \<Longrightarrow>
    log' = (if err = None \<or> err = Some WriteSyncDir then wr_log s @ [(i, mget (dk_files (wr_disk s)) path)] else wr_log s) \<Longrightarrow>
    writer_step hash path jobs s ((set_writer i (WpUnlock err) d' s)\<lparr>wr_log := log'\<rparr>)"
| unlock: "writer_pc_of s i = WpUnlock err \<Longrightarrow>
    writer_step hash path jobs s
      (set_writer i (WpDone err) ((wr_disk s)\<lparr>dk_lock := unlockFile (dk_lock (wr_disk s))\<rparr>) s)"

inductive writers_reachable ::
  "(string \<Rightarrow> string) \<Rightarrow> string \<Rightarrow> (nat \<Rightarrow> string \<times> string) \<Rightarrow> disk \<Rightarrow> writers \<Rightarrow> bool" for hash path jobs d0 where
  init: "writers_reachable hash path jobs d0 \<lparr>wr_disk = d0, wr_pcs = [], wr_log = []\<rparr>"
| step: "writers_reachable hash path jobs d0 s \<Longrightarrow> writer_step hash path jobs s s' \<Longrightarrow> writers_reachable hash path jobs d0 s'"

fun holds_lock :: "writer_pc \<Rightarrow> bool" where
  "holds_lock (WpLocked _) = True"
| "holds_lock (WpChecked _) = True"
| "holds_lock (WpUnlock _) = True"
| "holds_lock _ = False"

lemma set_writer_fields [simp]:
  "wr_disk (set_writer i pc d s) = d" "wr_log (set_writer i pc d s) = wr_log s"
  "writer_pc_of (set_writer i pc d s) j = (if j = i then pc else writer_pc_of s j)"
  "writer_pc_of (s\<lparr>wr_log := l\<rparr>) j = writer_pc_of s j"
  by (simp_all add: set_writer_def writer_pc_of_def)

text \<open>
  Mutual exclusion; a writer that has compared still sees the contents it compared with; and every logged replacement
  replaced contents with the digest its writer expected.
\<close>

definition writers_inv :: "(string \<Rightarrow> string) \<Rightarrow> string \<Rightarrow> (nat \<Rightarrow> string \<times> string) \<Rightarrow> writers \<Rightarrow> bool" where
  "writers_inv hash path jobs s \<longleftrightarrow>
     (\<forall>i. holds_lock (writer_pc_of s i) \<longrightarrow> lk_held (dk_lock (wr_disk s))) \<and>
     (\<forall>i j. holds_lock (writer_pc_of s i) \<longrightarrow> holds_lock (writer_pc_of s j) \<longrightarrow> i = j) \<and>
     (\<forall>i orc. writer_pc_of s i = WpChecked orc \<longrightarrow> snd (jobs i) \<noteq> [] \<longrightarrow>
        (\<exists>c. mget (dk_files (wr_disk s)) path = Some c \<and> hash c = snd (jobs i))) \<and>
     (\<forall>(i, old) \<in> set (wr_log s). snd (jobs i) \<noteq> [] \<longrightarrow> (\<exists>c. old = Some c \<and> hash c = snd (jobs i))) \<and>
     (wr_log s \<noteq> [] \<longrightarrow> mget (dk_files (wr_disk s)) path = Some (fst (jobs (fst (last (wr_log s))))))"

lemma writers_inv_init: "writers_inv hash path jobs \<lparr>wr_disk = d0, wr_pcs = [], wr_log = []\<rparr>"
  by (simp add: writers_inv_def writer_pc_of_def)

lemma writers_inv_step:
  assumes "writer_step hash path jobs s s'" and "writers_inv hash path jobs s"
  shows "writers_inv hash path jobs s'"
  using assms(1)
proof cases
  case (acquire i orc err lk pc)
  note fx = AcquireLock_effect [OF acquire(3)]
  show ?thesis
  proof (cases err)
    case None
    with fx(1) have "\<not> lk_held (dk_lock (wr_disk s))" "lk_held lk" by blast+
    with assms(2) acquire None show ?thesis unfolding writers_inv_def by auto
  next
    case (Some e)
    with fx(2) have "lk_held lk = lk_held (dk_lock (wr_disk s))" by simp
    with assms(2) acquire Some show ?thesis unfolding writers_inv_def by auto
  qed
next
  case (check i orc pc)
  have inv: "holds_lock (writer_pc_of s i)" using check(2) by simp
  show ?thesis
  proof (cases "check_cas hash orc path (snd (jobs i)) (wr_disk s)")
    case None
    from check_cas_None [OF this _ check(3)] None check(4) assms(2) inv show ?thesis
      unfolding check(1) writers_inv_def by auto
  next
    case (Some e)
    with check(4) assms(2) inv show ?thesis unfolding check(1) writers_inv_def by auto
  qed
next
  case (replace i orc err d' log')
  note fx = write_replace_effect [OF replace(4,3)]
  have inv: "holds_lock (writer_pc_of s i)" using replace(2) by simp
  have others: "writer_pc_of s j \<noteq> WpChecked o'" if "j \<noteq> i" for j o'
    using assms(2) inv that unfolding writers_inv_def by (metis holds_lock.simps(2))
  have held: "lk_held (dk_lock d')" and excl: "\<And>j. holds_lock (writer_pc_of s j) \<Longrightarrow> j = i"
    using assms(2) inv fx(3) unfolding writers_inv_def by auto
  have cas: "snd (jobs i) \<noteq> [] \<Longrightarrow> \<exists>c. mget (dk_files (wr_disk s)) path = Some c \<and> hash c = snd (jobs i)"
    and log: "\<forall>(i, old) \<in> set (wr_log s). snd (jobs i) \<noteq> [] \<longrightarrow> (\<exists>c. old = Some c \<and> hash c = snd (jobs i))"
    and last: "wr_log s \<noteq> [] \<Longrightarrow> mget (dk_files (wr_disk s)) path = Some (fst (jobs (fst (last (wr_log s)))))"
    using assms(2) replace(2) unfolding writers_inv_def by blast+
  have "\<forall>(i, old) \<in> set log'. snd (jobs i) \<noteq> [] \<longrightarrow> (\<exists>c. old = Some c \<and> hash c = snd (jobs i))"
    unfolding replace(5) using log cas by simp
  moreover have "log' \<noteq> [] \<Longrightarrow> mget (dk_files d') path = Some (fst (jobs (fst (last log'))))"
    unfolding replace(5) using fx(1) last by (auto split: if_splits)
  ultimately show ?thesis using held excl others unfolding replace(1) writers_inv_def by auto
next
  case (unlock i err)
  have "holds_lock (writer_pc_of s i)" using unlock(2) by simp
  with assms(2) have "\<not> holds_lock (writer_pc_of s j)" if "j \<noteq> i" for j
    using that unfolding writers_inv_def by metis
  with assms(2) show ?thesis unfolding unlock(1) writers_inv_def by auto
qed

lemma writers_reachable_inv: "writers_reachable hash path jobs d0 s \<Longrightarrow> writers_inv hash path jobs s"
  by (induction rule: writers_reachable.induct) (auto intro: writers_inv_init writers_inv_step)

lemma writers_log_chain:
  assumes "writers_reachable hash path jobs d0 s"
  shows "\<forall>n < length (wr_log s). n > 0 \<longrightarrow> snd (wr_log s ! n) = Some (fst (jobs (fst (wr_log s ! (n - 1)))))"
  using assms
proof (induction rule: writers_reachable.induct)
  case (step s s')
  from step(2) show ?case
  proof cases
    case (replace i orc err d' log')
    have "wr_log s \<noteq> [] \<Longrightarrow> mget (dk_files (wr_disk s)) path = Some (fst (jobs (fst (last (wr_log s)))))"
      using writers_reachable_inv [OF step(1)] unfolding writers_inv_def by blast
    with step(3) replace(1,5) show ?thesis by (auto simp: nth_append last_conv_nth less_Suc_eq)
  qed (use step(3) in simp_all)
qed simp

text \<open>
  C26. Compare and swap: of any number of processes that all read the same version of the file and write something
  else with that version's digest as the expected one, however their calls interleave, at most one replaces the file.
\<close>

theorem concurrent_writers_single_winner:
  assumes "writers_reachable hash path jobs d0 s" and "e \<noteq> []"
    and "\<forall>i. snd (jobs i) = e \<and> hash (fst (jobs i)) \<noteq> e"
  shows "length (wr_log s) \<le> 1"
proof (rule ccontr)
  assume "\<not> length (wr_log s) \<le> 1"
  then have n: "1 < length (wr_log s)" by simp
  obtain i old where l: "wr_log s ! 1 = (i, old)" by fastforce
  have "\<forall>(i, old) \<in> set (wr_log s). snd (jobs i) \<noteq> [] \<longrightarrow> (\<exists>c. old = Some c \<and> hash c = snd (jobs i))"
    using writers_reachable_inv [OF assms(1)] unfolding writers_inv_def by blast
  from bspec [OF this nth_mem [OF n]] l assms(2,3) obtain c where "old = Some c" "hash c = e" by auto
  moreover have "old = Some (fst (jobs (fst (wr_log s ! 0))))"
    using writers_log_chain [OF assms(1), rule_format, OF n] l by simp
  ultimately show False using assms(3) by auto
qed

section \<open>Witnesses\<close>

definition demo_lock_oracle :: lock_oracle where
  "demo_lock_oracle = \<lparr>lk_openFails = False, lk_flockFails = False, lk_readFails = False, lk_truncateFails = False,
     lk_seekFails = False, lk_writeFails = False, lk_syncFails = False, lk_info = ''pid=1''\<rparr>"

definition demo_oracle :: "string \<Rightarrow> write_oracle" where
  "demo_oracle tmp = \<lparr>wo_mkdirFails = False, wo_lock = demo_lock_oracle,
     wo_opened = (\<lambda>c. Some \<lparr>of_stat = Some (True, length c), of_content = c, of_end = None\<rparr>), wo_temp = Some tmp,
     wo_chmodFails = False, wo_partial = None, wo_syncFails = False, wo_closeFails = False, wo_replaceFails = False,
     wo_syncDirFails = False, wo_removeFails = False\<rparr>"

definition demo_disk :: disk where
  "demo_disk = \<lparr>dk_files = [(''c'', ''old'')], dk_lock = \<lparr>lk_held = False, lk_content = []\<rparr>\<rparr>"

lemma demo_honest: "honest (demo_oracle ''t'') ''c'' demo_disk"
  by (simp add: honest_def demo_oracle_def demo_disk_def)

theorem WriteConfigFileAtomic_atomic_witness:
  "mget (dk_files (snd (WriteConfigFileAtomic (\<lambda>d. d) (demo_oracle ''t'') ''c'' ''new'' ''old'' demo_disk))) ''c'' = Some ''new''"
proof -
  obtain err d' where w: "WriteConfigFileAtomic (\<lambda>d. d) (demo_oracle ''t'') ''c'' ''new'' ''old'' demo_disk = (err, d')"
    by fastforce
  then have "err = None"
    by (simp add: WriteConfigFileAtomic_def write_locked_def write_replace_def check_cas_def fill_temp_def demo_oracle_def
        demo_lock_oracle_def demo_disk_def AcquireLock_def tryLockFile_def writeLockDetails_def ComputeFileDigest_def
        stat_too_large_def read_limited_def MaxConfigFileSize_def replaceFile_def Let_def)
  with WriteConfigFileAtomic_atomic [OF w demo_honest] w show ?thesis by simp
qed

lemma demo_run:
  "\<exists>s. writers_reachable (\<lambda>d. d) ''c'' (\<lambda>_. (''new'', ''old'')) demo_disk s \<and> wr_log s = [(0, Some ''old'')]"
proof -
  let ?J = "\<lambda>_ :: nat. (''new'', ''old'')" and ?o = "demo_oracle ''t''"
  let ?R = "writers_reachable (\<lambda>d. d) ''c'' ?J demo_disk" and ?S = "writer_step (\<lambda>d. d) ''c'' ?J"
  define s0 where "s0 = \<lparr>wr_disk = demo_disk, wr_pcs = [], wr_log = []\<rparr>"
  define d1 where "d1 = demo_disk\<lparr>dk_lock := \<lparr>lk_held = True, lk_content = ''pid=1''\<rparr>\<rparr>"
  define s1 where "s1 = set_writer 0 (WpLocked ?o) d1 s0"
  define s2 where "s2 = set_writer 0 (WpChecked ?o) d1 s1"
  have "?R s0" unfolding s0_def by (rule writers_reachable.init)
  have "?S s0 (set_writer 0 (WpLocked ?o) ((wr_disk s0)\<lparr>dk_lock := \<lparr>lk_held = True, lk_content = ''pid=1''\<rparr>\<rparr>) s0)"
    by (rule writer_step.acquire [where orc = ?o and err = None])
      (simp_all add: s0_def writer_pc_of_def demo_oracle_def demo_lock_oracle_def demo_disk_def AcquireLock_def tryLockFile_def
        writeLockDetails_def)
  then have "?S s0 s1" by (simp add: s1_def d1_def s0_def)
  with \<open>?R s0\<close> have r1: "?R s1" by (rule writers_reachable.step)
  have h: "honest ?o ''c'' (wr_disk s1)" using demo_honest by (simp add: honest_def s1_def d1_def)
  have "?S s1 (set_writer 0 (WpChecked ?o) (wr_disk s1) s1)"
    by (rule writer_step.check [OF _ h])
      (simp_all add: s1_def d1_def check_cas_def demo_disk_def demo_oracle_def ComputeFileDigest_def stat_too_large_def
        read_limited_def MaxConfigFileSize_def)
  then have "?S s1 s2" by (simp add: s2_def s1_def)
  with r1 have r2: "?R s2" by (rule writers_reachable.step)
  obtain err d' where w: "write_replace ?o ''c'' (fst (?J 0)) (wr_disk s2) = (err, d')" by fastforce
  then have err: "err = None"
    by (simp add: s2_def d1_def demo_disk_def write_replace_def demo_oracle_def fill_temp_def replaceFile_def)
  have "?S s2 ((set_writer 0 (WpUnlock err) d' s2)\<lparr>wr_log := wr_log s2 @ [(0, mget (dk_files (wr_disk s2)) ''c'')]\<rparr>)"
    by (rule writer_step.replace [OF _ _ w]) (use h in \<open>simp_all add: s2_def s1_def err\<close>)
  with r2 have "?R ((set_writer 0 (WpUnlock err) d' s2)\<lparr>wr_log := wr_log s2 @ [(0, mget (dk_files (wr_disk s2)) ''c'')]\<rparr>)"
    by (rule writers_reachable.step)
  then show ?thesis by (intro exI conjI) (auto simp: s2_def s1_def s0_def d1_def demo_disk_def)
qed

theorem concurrent_writers_single_winner_witness:
  "\<exists>s. writers_reachable (\<lambda>d. d) ''c'' (\<lambda>_. (''new'', ''old'')) demo_disk s \<and> wr_log s \<noteq> [] \<and> length (wr_log s) \<le> 1"
proof -
  obtain s where "writers_reachable (\<lambda>d. d) ''c'' (\<lambda>_. (''new'', ''old'')) demo_disk s" "wr_log s \<noteq> []"
    using demo_run by auto
  with concurrent_writers_single_winner [OF this(1), of "''old''"] show ?thesis by auto
qed

end
