(* ===== verification/Config_Decode_Properties.thy ===== *)
theory Config_Decode_Properties
  imports Config_Load
begin

text \<open>
  Correctness of the strict decoder: the scan over tokens finds a repeated key exactly when the document has one, the shape
  check accepts exactly the documents whose struct members are spelled as the tags say, and a file is read whole or not at all.
\<close>

section \<open>Repeated keys\<close>

text \<open>The tokens of a document, as \<^verbatim>\<open>Decoder.Token\<close> delivers them.\<close>

fun json_tokens :: "json \<Rightarrow> json_token list"
  and element_tokens :: "json list \<Rightarrow> json_token list"
  and member_tokens :: "(string \<times> json) list \<Rightarrow> json_token list" where
  "json_tokens JNull = [TOther]"
| "json_tokens (JBool _) = [TOther]"
| "json_tokens (JNum _) = [TOther]"
| "json_tokens (JStr s) = [TString s]"
| "json_tokens (JArr xs) = TArrOpen # element_tokens xs @ [TArrClose]"
| "json_tokens (JObj kvs) = TObjOpen # member_tokens kvs @ [TObjClose]"
| "element_tokens [] = []"
| "element_tokens (x # xs) = json_tokens x @ element_tokens xs"
| "member_tokens [] = []"
| "member_tokens ((k, v) # kvs) = TString k # json_tokens v @ member_tokens kvs"

text \<open>The specification: no object of the document repeats a key.\<close>

fun dup_free :: "json \<Rightarrow> bool"
  and elements_dup_free :: "json list \<Rightarrow> bool"
  and members_dup_free :: "(string \<times> json) list \<Rightarrow> bool" where
  "dup_free (JArr xs) = elements_dup_free xs"
| "dup_free (JObj kvs) = (distinct (map fst kvs) \<and> members_dup_free kvs)"
| "dup_free JNull = True"
| "dup_free (JBool _) = True"
| "dup_free (JNum _) = True"
| "dup_free (JStr _) = True"
| "elements_dup_free [] = True"
| "elements_dup_free (x # xs) = (dup_free x \<and> elements_dup_free xs)"
| "members_dup_free [] = True"
| "members_dup_free ((k, v) # kvs) = (dup_free v \<and> members_dup_free kvs)"

text \<open>The scanner expects a value: it is not at the place of a key.\<close>

definition value_next :: "dup_state list \<Rightarrow> bool" where
  "value_next st = (case st of [] \<Rightarrow> True | s # _ \<Rightarrow> ds_isObject s \<longrightarrow> \<not> ds_expectingKey s)"

definition finds_dup :: "json_token list \<Rightarrow> string option \<Rightarrow> dup_state list \<Rightarrow> bool" where
  "finds_dup toks err st \<longleftrightarrow> (\<exists>k. check_tokens toks err st = Some (DuplicateKey k))"

lemma finds_dup_step:
  "check_token tok st = Inr st' \<Longrightarrow> finds_dup (tok # toks) err st = finds_dup toks err st'"
  "check_token tok st = Inl (DuplicateKey k) \<Longrightarrow> finds_dup (tok # toks) err st"
  by (simp_all add: finds_dup_def)

text \<open>
  Running over the tokens of a value, of the elements of an array and of the members of an object whose keys so far are
  \<open>ks\<close>: either a repeated key is found, or the run goes on behind them.
\<close>

abbreviation in_array :: dup_state where
  "in_array \<equiv> \<lparr>ds_isObject = False, ds_expectingKey = False, ds_keys = []\<rparr>"

abbreviation in_object :: "(string, unit) gomap \<Rightarrow> dup_state" where
  "in_object ks \<equiv> \<lparr>ds_isObject = True, ds_expectingKey = True, ds_keys = ks\<rparr>"

lemma run_tokens:
  "value_next st \<Longrightarrow>
     if dup_free j then check_tokens (json_tokens j @ toks) err st = check_tokens toks err (expect_key st)
     else finds_dup (json_tokens j @ toks) err st"
  "if elements_dup_free xs
   then check_tokens (element_tokens xs @ toks) err (in_array # st) = check_tokens toks err (in_array # st)
   else finds_dup (element_tokens xs @ toks) err (in_array # st)"
  "if distinct (map fst kvs) \<and> fst ` set kvs \<inter> fst ` set ks = {} \<and> members_dup_free kvs
   then \<exists>ks'. check_tokens (member_tokens kvs @ toks) err (in_object ks # st) = check_tokens toks err (in_object ks' # st)
   else finds_dup (member_tokens kvs @ toks) err (in_object ks # st)"
proof (induction j and xs and kvs arbitrary: st toks and st toks and st toks ks
    rule: json_tokens_element_tokens_member_tokens.induct)
  case (4 s)
  then show ?case by (auto simp: value_next_def expect_key_def split: list.splits)
next
  case (5 xs)
  show ?case using 5(1) [of "[TArrClose] @ toks" st]
    by (auto simp: finds_dup_def)
next
  case (6 kvs)
  show ?case using 6(1) [of "[]" "[TObjClose] @ toks" st]
    by (auto simp: finds_dup_def)
next
  case (8 x xs)
  have v: "value_next (in_array # st)" by (simp add: value_next_def)
  show ?case using 8(1) [OF v, of "element_tokens xs @ toks"] 8(2) [of toks st]
    by (auto simp: finds_dup_def expect_key_def split: if_splits)
next
  case (10 k v kvs)
  let ?st = "\<lparr>ds_isObject = True, ds_expectingKey = False, ds_keys = mput k () ks\<rparr> # st"
  have v: "value_next ?st" by (simp add: value_next_def)
  show ?case
  proof (cases "k \<in> fst ` set ks")
    case True
    then show ?thesis by (auto simp: finds_dup_def)
  next
    case False
    then have step: "check_token (TString k) (in_object ks # st) = Inr ?st" by simp
    have keys: "fst ` set (mput k () ks) = insert k (fst ` set ks)" by (simp add: AList.dom_update)
    let ?rest = "member_tokens kvs @ toks"
    let ?ok = "distinct (map fst kvs) \<and> fst ` set kvs \<inter> fst ` set (mput k () ks) = {} \<and> members_dup_free kvs"
    have tail: "if ?ok
       then \<exists>ks'. check_tokens ?rest err (in_object (mput k () ks) # st) = check_tokens toks err (in_object ks' # st)
       else finds_dup ?rest err (in_object (mput k () ks) # st)"
      by (rule 10(2))
    have head: "if dup_free v then check_tokens (json_tokens v @ ?rest) err ?st = check_tokens ?rest err (in_object (mput k () ks) # st)
       else finds_dup (json_tokens v @ ?rest) err ?st"
      using 10(1) [OF v, of ?rest] by (simp add: expect_key_def)
    have run: "check_tokens (member_tokens ((k, v) # kvs) @ toks) err (in_object ks # st) = check_tokens (json_tokens v @ ?rest) err ?st"
      using step by simp
    have cond: "distinct (map fst ((k, v) # kvs)) \<and> fst ` set ((k, v) # kvs) \<inter> fst ` set ks = {} \<and> members_dup_free ((k, v) # kvs) \<longleftrightarrow>
        dup_free v \<and> ?ok"
      using False by (auto simp: keys)
    show ?thesis
      using head tail unfolding cond finds_dup_def run by (cases "dup_free v"; cases ?ok) (simp_all only: if_True if_False simp_thms)
  qed
qed (auto simp: value_next_def)

lemma run_documents:
  "if list_all dup_free js then check_tokens (concat (map json_tokens js)) err [] = check_tokens [] err []
   else finds_dup (concat (map json_tokens js)) err []"
proof (induction js)
  case (Cons j js)
  have "value_next []" by (simp add: value_next_def)
  from run_tokens(1) [OF this, of j "concat (map json_tokens js)" err] Cons.IH show ?case
    by (auto simp: finds_dup_def expect_key_def split: if_splits)
qed simp

text \<open>
  The scan for repeated keys is exact: over the tokens of a sequence of documents it finds nothing exactly when no
  object at any depth of any of them repeats a key, and what it finds otherwise is a repeated key.
\<close>

theorem CheckDuplicateKeys_exact:
  assumes "jl_tokens jl (stripUTF8BOM data) = (concat (map json_tokens js), None)"
    and "trim_space (stripUTF8BOM data) \<noteq> []"
  shows "if list_all dup_free js then CheckDuplicateKeys jl data = None
    else \<exists>k. CheckDuplicateKeys jl data = Some (DuplicateKey k)"
  using run_documents [of js None] assms by (auto simp: CheckDuplicateKeys_def Let_def finds_dup_def split: if_splits)

section \<open>Exact field names\<close>

text \<open>The places of a document that the check visits, with their types.\<close>

inductive json_at :: "json \<Rightarrow> go_type \<Rightarrow> json \<Rightarrow> go_type \<Rightarrow> bool" where
  here: "json_at v t v t"
| field: "deref t = GStruct fs \<Longrightarrow> (k, c) \<in> set obj \<Longrightarrow> mget (struct_fields fs) k = Some ft \<Longrightarrow>
    json_at c ft w u \<Longrightarrow> json_at (JObj obj) t w u"
| member: "deref t = GMap e \<Longrightarrow> (k, c) \<in> set obj \<Longrightarrow> json_at c e w u \<Longrightarrow> json_at (JObj obj) t w u"
| element: "deref t = GSlice e \<Longrightarrow> c \<in> set arr \<Longrightarrow> json_at c e w u \<Longrightarrow> json_at (JArr arr) t w u"

text \<open>Somewhere a struct has a member that none of its fields is called.\<close>

definition misnamed :: "json \<Rightarrow> go_type \<Rightarrow> bool" where
  "misnamed v t \<longleftrightarrow>
     (\<exists>obj u fs. json_at v t (JObj obj) u \<and> deref u = GStruct fs \<and> \<not> fst ` set obj \<subseteq> fst ` set (struct_fields fs))"

lemma misnamedI:
  "json_at v t (JObj obj) u \<Longrightarrow> deref u = GStruct fs \<Longrightarrow> k \<in> fst ` set obj \<Longrightarrow> k \<notin> fst ` set (struct_fields fs) \<Longrightarrow>
    misnamed v t"
  unfolding misnamed_def by blast

lemma misnamed_step:
  "deref t = GStruct fs \<Longrightarrow> kc \<in> set obj \<Longrightarrow> mget (struct_fields fs) (fst kc) = None \<Longrightarrow> misnamed (JObj obj) t"
  "deref t = GStruct fs \<Longrightarrow> kc \<in> set obj \<Longrightarrow> mget (struct_fields fs) (fst kc) = Some ft \<Longrightarrow> misnamed (snd kc) ft \<Longrightarrow>
    misnamed (JObj obj) t"
  "deref t = GMap e \<Longrightarrow> kc \<in> set obj \<Longrightarrow> misnamed (snd kc) e \<Longrightarrow> misnamed (JObj obj) t"
  "deref t = GSlice e \<Longrightarrow> c \<in> set arr \<Longrightarrow> misnamed c e \<Longrightarrow> misnamed (JArr arr) t"
proof -
  show "misnamed (JObj obj) t" if "deref t = GStruct fs" "kc \<in> set obj" "mget (struct_fields fs) (fst kc) = None"
    by (rule misnamedI [OF json_at.here that(1), of "fst kc"]) (use that in \<open>simp_all add: map_of_eq_None_iff\<close>)
next
  have down: "misnamed (JObj obj) t" if "misnamed v t'" "\<And>w u. json_at v t' w u \<Longrightarrow> json_at (JObj obj) t w u" for v t' obj
    using that unfolding misnamed_def by blast
  show "deref t = GStruct fs \<Longrightarrow> kc \<in> set obj \<Longrightarrow> mget (struct_fields fs) (fst kc) = Some ft \<Longrightarrow> misnamed (snd kc) ft \<Longrightarrow>
    misnamed (JObj obj) t"
    by (rule down, assumption) (rule json_at.field [where k = "fst kc" and c = "snd kc"], simp_all)
  show "deref t = GMap e \<Longrightarrow> kc \<in> set obj \<Longrightarrow> misnamed (snd kc) e \<Longrightarrow> misnamed (JObj obj) t"
    by (rule down, assumption) (rule json_at.member [where k = "fst kc" and c = "snd kc"], simp_all)
  assume e: "deref t = GSlice e" "c \<in> set arr" and m: "misnamed c e"
  from e have "\<And>w u. json_at c e w u \<Longrightarrow> json_at (JArr arr) t w u" by (rule json_at.element)
  with m show "misnamed (JArr arr) t" unfolding misnamed_def by blast
qed

lemma misnamed_cases:
  assumes "misnamed v t"
  obtains (here) obj fs kc where "v = JObj obj" "deref t = GStruct fs" "kc \<in> set obj" "mget (struct_fields fs) (fst kc) = None"
  | (field) obj fs kc ft where "v = JObj obj" "deref t = GStruct fs" "kc \<in> set obj"
      "mget (struct_fields fs) (fst kc) = Some ft" "misnamed (snd kc) ft"
  | (member) obj e kc where "v = JObj obj" "deref t = GMap e" "kc \<in> set obj" "misnamed (snd kc) e"
  | (element) arr e c where "v = JArr arr" "deref t = GSlice e" "c \<in> set arr" "misnamed c e"
proof -
  from assms obtain obj u fs k where at: "json_at v t (JObj obj) u"
    and bad: "deref u = GStruct fs" "k \<in> fst ` set obj" "k \<notin> fst ` set (struct_fields fs)"
    unfolding misnamed_def by blast
  from at show thesis
  proof (cases rule: json_at.cases)
    case here
    from bad(2) obtain kc where "kc \<in> set obj" "k = fst kc" by blast
    with here bad show thesis by (intro that(1) [of obj fs kc]) (simp_all add: map_of_eq_None_iff)
  next
    case (field fs' k' c obj' ft)
    show thesis
      by (rule that(2) [of obj' fs' "(k', c)" ft]) (use field misnamedI [OF field(5) bad] in simp_all)
  next
    case (member e k' c obj')
    show thesis by (rule that(3) [of obj' e "(k', c)"]) (use member misnamedI [OF member(4) bad] in simp_all)
  next
    case (element e c arr)
    show thesis by (rule that(4) [of arr e c]) (use element misnamedI [OF element(4) bad] in simp_all)
  qed
qed

lemma misnamed_struct:
  assumes "deref t = GStruct fs"
  shows "misnamed (JObj obj) t \<longleftrightarrow>
    (\<exists>kc \<in> set obj. case mget (struct_fields fs) (fst kc) of None \<Rightarrow> True | Some ft \<Rightarrow> misnamed (snd kc) ft)"
proof
  assume "misnamed (JObj obj) t"
  then show "\<exists>kc \<in> set obj. case mget (struct_fields fs) (fst kc) of None \<Rightarrow> True | Some ft \<Rightarrow> misnamed (snd kc) ft"
    by (cases rule: misnamed_cases) (use assms in force)+
qed (use misnamed_step(1,2) [OF assms] in \<open>force split: option.splits\<close>)

lemma misnamed_map:
  assumes "deref t = GMap e"
  shows "misnamed (JObj obj) t \<longleftrightarrow> (\<exists>kc \<in> set obj. misnamed (snd kc) e)"
proof
  assume "misnamed (JObj obj) t"
  then show "\<exists>kc \<in> set obj. misnamed (snd kc) e" by (cases rule: misnamed_cases) (use assms in auto)
qed (use misnamed_step(3) [OF assms] in blast)

lemma misnamed_slice:
  assumes "deref t = GSlice e"
  shows "misnamed (JArr arr) t \<longleftrightarrow> (\<exists>c \<in> set arr. misnamed c e)"
proof
  assume "misnamed (JArr arr) t"
  then show "\<exists>c \<in> set arr. misnamed c e" by (cases rule: misnamed_cases) (use assms in auto)
qed (use misnamed_step(4) [OF assms] in blast)

lemma misnamed_scalar: "deref t = GScalar \<Longrightarrow> \<not> misnamed v t"
  by (rule notI, erule misnamed_cases) auto

lemma misnamed_kind:
  "\<forall>obj. v \<noteq> JObj obj \<Longrightarrow> \<forall>arr. v \<noteq> JArr arr \<Longrightarrow> \<not> misnamed v t"
  "deref t = GSlice e \<Longrightarrow> \<not> misnamed (JObj obj) t"
  "deref t = GStruct fs \<Longrightarrow> \<not> misnamed (JArr arr) t"
  "deref t = GMap e \<Longrightarrow> \<not> misnamed (JArr arr) t"
  by (rule notI, erule misnamed_cases; auto)+

lemma deref_not_GPtr: "deref t \<noteq> GPtr e"
  by (induction t) auto

lemma shape_exact:
  "validateJSONShape v t path = None \<longleftrightarrow> \<not> misnamed v t"
  "shape_fields obj flds path = None \<longleftrightarrow> (\<forall>kc \<in> set obj. \<exists>ft. mget flds (fst kc) = Some ft \<and> \<not> misnamed (snd kc) ft)"
  "shape_members obj e path = None \<longleftrightarrow> (\<forall>kc \<in> set obj. \<not> misnamed (snd kc) e)"
  "shape_elems arr i e path = None \<longleftrightarrow> (\<forall>c \<in> set arr. \<not> misnamed c e)"
proof (induction v t path and obj flds path and obj e path and arr i e path
    rule: validateJSONShape_shape_fields_shape_members_shape_elems.induct)
  case (1 v t path)
  show ?case
  proof (cases "deref t")
    case (GStruct fs)
    show ?thesis
    proof (cases v)
      case (JObj obj)
      with GStruct 1(1) [OF GStruct JObj] show ?thesis
        by (auto simp: validateJSONShape.simps misnamed_struct split: option.splits)
    qed (simp_all add: validateJSONShape.simps misnamed_kind GStruct)
  next
    case (GMap e)
    show ?thesis
    proof (cases v)
      case (JObj obj)
      with GMap 1(2) [OF GMap JObj] show ?thesis by (simp add: validateJSONShape.simps misnamed_map)
    qed (simp_all add: validateJSONShape.simps misnamed_kind GMap)
  next
    case (GSlice e)
    show ?thesis
    proof (cases v)
      case (JArr arr)
      with GSlice 1(3) [OF GSlice JArr] show ?thesis by (simp add: validateJSONShape.simps misnamed_slice)
    qed (simp_all add: validateJSONShape.simps misnamed_kind GSlice)
  qed (simp_all add: validateJSONShape.simps misnamed_scalar deref_not_GPtr)
qed (auto split: option.splits)

section \<open>The strict decoder\<close>

text \<open>
  What the strict decoder accepts: input of at most 1 MiB that holds a document without repeated keys in which every
  member of a struct, at any depth, is spelled exactly as one of its fields, and nothing behind it.
\<close>

theorem DecodeStrict_sound:
  assumes "DecodeStrict jl data target = Inr v"
    and "\<not> has_prefix (stripUTF8BOM data) utf8BOM"
    and "jl_tokens jl (stripUTF8BOM data) = (json_tokens doc @ rest, err)"
    and "jl_any jl (stripUTF8BOM data) = Inr doc"
  shows "length data \<le> 1048576 \<and> dup_free doc \<and> dt_decode target (stripUTF8BOM data) = Inr (v, True) \<and>
    (\<forall>obj u fs. json_at doc (dt_type target) (JObj obj) u \<and> deref u = GStruct fs \<longrightarrow>
       fst ` set obj \<subseteq> fst ` set (struct_fields fs))"
proof -
  let ?d = "stripUTF8BOM data"
  have one: "stripUTF8BOM ?d = ?d" using assms(2) by (simp add: stripUTF8BOM_def)
  from assms(1) have len: "length data \<le> MaxConfigFileSize" and dup: "CheckDuplicateKeys jl ?d = None"
    and ex: "validateExactJSONFieldNames jl ?d (dt_type target) = None" and dec: "dt_decode target ?d = Inr (v, True)"
    by (auto simp: DecodeStrict_def Let_def split: if_splits option.splits sum.splits)
  from ex assms(4) have "\<not> misnamed doc (dt_type target)"
    by (simp add: validateExactJSONFieldNames_def shape_exact)
  moreover have "dup_free doc"
  proof (rule ccontr)
    assume "\<not> dup_free doc"
    then have "finds_dup (json_tokens doc @ rest) err []"
      using run_tokens(1) [of "[]" doc rest err] by (simp add: value_next_def)
    with dup assms(3) one show False
      by (auto simp: CheckDuplicateKeys_def Let_def finds_dup_def split: if_splits)
  qed
  ultimately show ?thesis using len dec unfolding misnamed_def MaxConfigFileSize_def by simp blast
qed

section \<open>Reading a file\<close>

text \<open>
  A configuration file is read whole or not at all: what is returned is everything the file delivered, at most 1 MiB of
  it, with no error on the way; a file that delivers more, whatever \<^verbatim>\<open>Stat\<close> said, is refused.
\<close>

theorem ReadFileLimited_whole:
  "ReadFileLimited opened = Inr data \<longleftrightarrow>
     (\<exists>f. opened = Some f \<and> \<not> stat_too_large f \<and> data = of_content f \<and> of_end f = None \<and> length (of_content f) \<le> 1048576)"
  by (auto simp: ReadFileLimited_def read_limited_def MaxConfigFileSize_def split: option.splits sum.splits if_splits)

section \<open>Witnesses\<close>

definition demo_doc :: json where
  "demo_doc = JObj [(''version'', JNum ''1''), (''mcpServers'', JObj [(''fs'', JObj [(''type'', JStr ''stdio''), (''args'', JArr [JStr ''type''])])])]"

definition demo_json :: json_lib where
  "demo_json = \<lparr>jl_tokens = (\<lambda>_. (json_tokens demo_doc, None)), jl_any = (\<lambda>_. Inr demo_doc)\<rparr>"

lemma trim_space_brace: "trim_space ''{}'' = ''{}''"
  by (simp add: trim_space_def trim_words.simps space_runes_def)

lemma strip_brace: "stripUTF8BOM ''{}'' = ''{}''"
  by (simp add: stripUTF8BOM_def utf8BOM_def)

theorem CheckDuplicateKeys_exact_witness: "CheckDuplicateKeys demo_json ''{}'' = None"
  using CheckDuplicateKeys_exact [of demo_json "''{}''" "[demo_doc]"]
  by (simp add: strip_brace trim_space_brace) (simp add: demo_json_def demo_doc_def)

theorem DecodeStrict_sound_witness:
  "dup_free demo_doc \<and> DecodeStrict demo_json ''{}'' (config_target (\<lambda>_. Inr (demo_raw, True))) = Inr demo_raw"
proof -
  let ?t = "config_target (\<lambda>_. Inr (demo_raw, True))"
  have "CheckDuplicateKeys demo_json ''{}'' = None"
    by (simp add: CheckDuplicateKeys_def strip_brace trim_space_brace) (simp add: demo_json_def demo_doc_def expect_key_def)
  moreover have "validateExactJSONFieldNames demo_json ''{}'' (dt_type ?t) = None"
    by code_simp
  ultimately have dec: "DecodeStrict demo_json ''{}'' ?t = Inr demo_raw"
    by (simp add: DecodeStrict_def strip_brace MaxConfigFileSize_def) (simp add: config_target_def)
  have "jl_tokens demo_json (stripUTF8BOM ''{}'') = (json_tokens demo_doc @ [], None)" "jl_any demo_json (stripUTF8BOM ''{}'') = Inr demo_doc"
    by (simp_all add: demo_json_def)
  from DecodeStrict_sound [OF dec _ this] have "dup_free demo_doc" by (simp add: strip_brace utf8BOM_def)
  with dec show ?thesis by blast
qed

end
