(* ===== verification/Config_Import.thy ===== *)
theory Config_Import
  imports Config_Write Config_Decode_Properties
begin

text \<open>
  Importing servers from the configuration of another client (\<^verbatim>\<open>internal/config/import.go\<close>). The import reads the target,
  merges and writes it back; the two parts are \<open>import_prepare\<close> and \<open>import_commit\<close>, because another process may
  write the target in between.

  \<open>ie_decodeSource\<close> and \<open>ie_decodeConfig\<close> are the decoders of \<^verbatim>\<open>encoding/json\<close> for the two types, \<open>ie_marshal\<close> is
  \<^verbatim>\<open>json.MarshalIndent\<close> and \<open>ie_readFails\<close> an error of \<^verbatim>\<open>os.ReadFile\<close> on a file that exists.
\<close>

record ImportOptions =
  io_RemoteType :: string
  io_DryRun :: bool
  io_Yes :: bool

record ServerPreviewItem =
  pi_ID :: string
  pi_Type :: ServerType
  pi_Command :: string
  pi_ArgCount :: nat
  pi_Cwd :: string
  pi_URL :: string
  pi_HeaderKeys :: "string list"
  pi_EnvKeys :: "string list"
  pi_Enabled :: bool

record ImportPreview =
  ip_TargetConfigPath :: string
  ip_ExistingCount :: nat
  ip_NewCount :: nat
  ip_ServersToAdd :: "ServerPreviewItem list"

datatype import_error =
    ImpSourceTooLarge
  | ImpSource decode_error
  | ImpSourceDecode string
  | ImpTrailing
  | ImpNoServers
  | ImpNeedsRemoteType string
  | ImpNoTransport string
  | ImpSSE string
  | ImpInvalidServer string server_error
  | ImpExclusiveFlags
  | ImpTargetRead
  | ImpTargetDecode decode_error
  | ImpTargetInvalid config_error
  | ImpExists string
  | ImpTooManyServers nat
  | ImpConfirm
  | ImpMarshal
  | ImpWrite write_error

record import_env =
  ie_lib :: go_lib
  ie_json :: json_lib
  ie_decodeSource :: "string \<Rightarrow> string + (string, ServerConfig) gomap \<times> bool"
  ie_decodeConfig :: "string \<Rightarrow> string + Config \<times> bool"
  ie_hash :: "string \<Rightarrow> string"
  ie_marshal :: "Config \<Rightarrow> string option"
  ie_readFails :: bool

section \<open>The source\<close>

definition normalize_type :: "string \<Rightarrow> string \<Rightarrow> ServerConfig \<Rightarrow> import_error + ServerConfig" where
  "normalize_type remoteType sid s =
     (if sc_Type s = [] then
        if sc_Command s \<noteq> [] then Inr (s\<lparr>sc_Type := ServerTypeStdio\<rparr>)
        else if sc_URL s \<noteq> [] then
          if remoteType = ServerTypeStreamableHTTP then Inr (s\<lparr>sc_Type := ServerTypeStreamableHTTP\<rparr>)
          else Inl (ImpNeedsRemoteType sid)
        else Inl (ImpNoTransport sid)
      else if sc_Type s = ''http'' then Inr (s\<lparr>sc_Type := ServerTypeStreamableHTTP\<rparr>)
      else if sc_Type s = ''sse'' then Inl (ImpSSE sid)
      else Inr s)"

definition normalize_server :: "go_lib \<Rightarrow> string \<Rightarrow> string \<times> ServerConfig \<Rightarrow> import_error + string \<times> ServerConfig" where
  "normalize_server lib remoteType e =
     (case normalize_type remoteType (fst e) (snd e) of
        Inl err \<Rightarrow> Inl err
      | Inr s \<Rightarrow>
          (case validateServer lib (fst e) s of
             Some err \<Rightarrow> Inl (ImpInvalidServer (fst e) err)
           | None \<Rightarrow> Inr (fst e, s)))"

definition ParseImportSource :: "import_env \<Rightarrow> string \<Rightarrow> string \<Rightarrow> import_error + (string, ServerConfig) gomap" where
  "ParseImportSource env data remoteType =
     (if length data > MaxConfigFileSize then Inl ImpSourceTooLarge
      else case CheckDuplicateKeys (ie_json env) data of
             Some e \<Rightarrow> Inl (ImpSource e)
           | None \<Rightarrow>
               (case ie_decodeSource env data of
                  Inl e \<Rightarrow> Inl (ImpSourceDecode e)
                | Inr (servers, atEOF) \<Rightarrow>
                    if \<not> atEOF then Inl ImpTrailing
                    else if length servers = 0 then Inl ImpNoServers
                    else try_map (normalize_server (ie_lib env) remoteType) servers))"

definition importPreviewURL :: "go_lib \<Rightarrow> string \<Rightarrow> string" where
  "importPreviewURL lib raw =
     (if raw = [] then []
      else case lib_urlParse lib raw of
             None \<Rightarrow> ''<redacted-url>''
           | Some u \<Rightarrow>
               if url_Scheme u = [] \<or> url_Host u = [] then ''<redacted-url>''
               else url_Scheme u @ ''://'' @ url_Host u)"

section \<open>The import\<close>

definition default_target :: Config where
  "default_target =
     \<lparr>cfg_Version = CurrentVersion,
      cfg_Hub = \<lparr>hub_Listen = DefaultListen, hub_PublicMode = False, hub_PublicURL = [], hub_AllowedHosts = [], hub_TrustedProxies = [],
        hub_Auth = \<lparr>auth_BearerToken = [], auth_BearerTokens = []\<rparr>,
        hub_Admin = \<lparr>adm_Enabled = False, adm_Token = [], adm_SessionTimeout = []\<rparr>\<rparr>,
      cfg_Defaults = \<lparr>def_StartupTimeout = ''20s'', def_CallTimeout = ''60s'', def_MaxConcurrency = DefaultMaxConcurrency\<rparr>,
      cfg_MCPServers = []\<rparr>"

text \<open>The target and its digest; the digest of a missing file is the empty string.\<close>

definition read_target :: "import_env \<Rightarrow> string option \<Rightarrow> import_error + Config \<times> string" where
  "read_target env existing =
     (case existing of
        None \<Rightarrow> Inr (default_target, [])
      | Some data \<Rightarrow>
          if ie_readFails env then Inl ImpTargetRead
          else case DecodeStrict (ie_json env) data (config_target (ie_decodeConfig env)) of
                 Inl e \<Rightarrow> Inl (ImpTargetDecode e)
               | Inr cfg \<Rightarrow>
                   (case Validate (ie_lib env) (Some cfg) of
                      Some e \<Rightarrow> Inl (ImpTargetInvalid e)
                    | None \<Rightarrow> Inr (cfg, ComputeDigest (ie_hash env) data)))"

definition preview_item :: "go_lib \<Rightarrow> string \<times> ServerConfig \<Rightarrow> ServerPreviewItem" where
  "preview_item lib e =
     \<lparr>pi_ID = fst e, pi_Type = sc_Type (snd e), pi_Command = sc_Command (snd e), pi_ArgCount = length (sc_Args (snd e)),
      pi_Cwd = sc_Cwd (snd e), pi_URL = importPreviewURL lib (sc_URL (snd e)), pi_HeaderKeys = sort (mkeys (sc_Headers (snd e))),
      pi_EnvKeys = sort (mkeys (sc_Env (snd e))), pi_Enabled = IsEnabled (snd e)\<rparr>"

definition import_prepare ::
  "import_env \<Rightarrow> string \<Rightarrow> string \<Rightarrow> ImportOptions \<Rightarrow> string option \<Rightarrow>
   import_error + ImportPreview \<times> (string, ServerConfig) gomap \<times> Config \<times> string" where
  "import_prepare env sourceData targetConfigPath opts existing =
     (if io_DryRun opts \<and> io_Yes opts then Inl ImpExclusiveFlags
      else case ParseImportSource env sourceData (io_RemoteType opts) of
             Inl e \<Rightarrow> Inl e
           | Inr newServers \<Rightarrow>
               (case read_target env existing of
                  Inl e \<Rightarrow> Inl e
                | Inr (targetCfg, targetDigest) \<Rightarrow>
                    (case find (\<lambda>(sid, _). mhas (cfg_MCPServers targetCfg) sid) newServers of
                       Some (sid, _) \<Rightarrow> Inl (ImpExists sid)
                     | None \<Rightarrow>
                         let totalServers = length (cfg_MCPServers targetCfg) + length newServers
                         in if totalServers > MaxServers then Inl (ImpTooManyServers totalServers)
                            else Inr (\<lparr>ip_TargetConfigPath = targetConfigPath,
                                       ip_ExistingCount = length (cfg_MCPServers targetCfg), ip_NewCount = length newServers,
                                       ip_ServersToAdd = sort_key pi_ID (map (preview_item (ie_lib env)) newServers)\<rparr>,
                                      newServers, targetCfg, targetDigest))))"

definition import_commit ::
  "import_env \<Rightarrow> write_oracle \<Rightarrow> ImportOptions \<Rightarrow> ImportPreview \<times> (string, ServerConfig) gomap \<times> Config \<times> string \<Rightarrow> disk \<Rightarrow>
   (ImportPreview option \<times> import_error option) \<times> disk" where
  "import_commit env orc opts prepared d =
     (let (preview, newServers, targetCfg, targetDigest) = prepared
      in if io_DryRun opts then ((Some preview, None), d)
         else if \<not> io_Yes opts then ((Some preview, Some ImpConfirm), d)
         else
           let merged = targetCfg\<lparr>cfg_MCPServers := fold (\<lambda>(sid, s). mput sid s) newServers (cfg_MCPServers targetCfg)\<rparr>
           in case ie_marshal env merged of
                None \<Rightarrow> ((None, Some ImpMarshal), d)
              | Some out \<Rightarrow>
                  (case WriteConfigFileAtomic (ie_hash env) orc (ip_TargetConfigPath preview) (out @ [CHR 0x0A]) targetDigest d of
                     (Some e, d') \<Rightarrow> ((None, Some (ImpWrite e)), d')
                   | (None, d') \<Rightarrow> ((Some preview, None), d')))"

definition ImportServers ::
  "import_env \<Rightarrow> write_oracle \<Rightarrow> string \<Rightarrow> string \<Rightarrow> ImportOptions \<Rightarrow> disk \<Rightarrow>
   (ImportPreview option \<times> import_error option) \<times> disk" where
  "ImportServers env orc sourceData targetConfigPath opts d =
     (case import_prepare env sourceData targetConfigPath opts (mget (dk_files d) targetConfigPath) of
        Inl e \<Rightarrow> ((None, Some e), d)
      | Inr prepared \<Rightarrow> import_commit env orc opts prepared d)"

section \<open>Properties\<close>

lemma normalize_server_valid:
  assumes "normalize_server lib rt e = Inr e'"
  shows "fst e' = fst e" and "validateServer lib (fst e') (snd e') = None"
  using assms by (auto simp: normalize_server_def split: sum.splits option.splits)

lemma ParseImportSource_Inr:
  assumes "ParseImportSource env data rt = Inr new"
  obtains servers where "ie_decodeSource env data = Inr (servers, True)" "map fst new = map fst servers"
    "\<forall>e \<in> set new. validateServer (ie_lib env) (fst e) (snd e) = None" "new \<noteq> []"
proof -
  from assms obtain servers where s: "ie_decodeSource env data = Inr (servers, True)" "servers \<noteq> []"
    and all: "list_all2 (\<lambda>e e'. normalize_server (ie_lib env) rt e = Inr e') servers new"
    by (auto simp: ParseImportSource_def try_map_Inr split: if_splits option.splits sum.splits)
  have "map fst new = map fst servers"
    using all by (induction rule: list_all2_induct) (auto simp: normalize_server_valid)
  moreover have "\<forall>e \<in> set new. validateServer (ie_lib env) (fst e) (snd e) = None"
    using list_all2_member2 [OF all] normalize_server_valid(2) by blast
  moreover have "new \<noteq> []" using all s(2) by auto
  ultimately show ?thesis using that s(1) by blast
qed

lemma fold_mput_fresh:
  assumes "wf_map new" and "fst ` set new \<inter> fst ` set m = {}"
  shows "fold (\<lambda>(k, v). mput k v) new m = m @ new"
  using assms
proof (induction new arbitrary: m)
  case (Cons e new)
  then have "mput (fst e) (snd e) m = m @ [e]" by (simp add: mput_fresh)
  with Cons show ?case by (simp add: split_def)
qed simp

lemma Validate_servers:
  assumes "Validate lib (Some c) = None" and "length ss \<le> MaxServers"
    and "\<forall>(sid, s) \<in> set ss. validateServer lib sid s = None"
  shows "Validate lib (Some (c\<lparr>cfg_MCPServers := ss\<rparr>)) = None"
proof -
  have "first_failure (\<lambda>(sid, s). map_option (CfgServer sid) (validateServer lib sid s)) ss = None"
    using assms(3) by (auto simp: first_failure_None)
  moreover obtain c' where "Some c = Some c'" "cfg_Version c' = CurrentVersion"
    "validateListenAddress lib (effective_listen (cfg_Hub c')) (hub_PublicMode (cfg_Hub c')) = None"
    "validateRawBearerTokens (hub_Auth (cfg_Hub c')) = None" "validate_hub lib (cfg_Hub c') = None"
    "validate_defaults lib (cfg_Defaults c') = None"
    using assms(1) by (rule Validate_None)
  ultimately show ?thesis using assms(2) by (simp add: Validate_def)
qed

lemma import_prepare_Inr:
  assumes "import_prepare env src path opts existing = Inr (pv, new, target, dig)"
  shows "ParseImportSource env src (io_RemoteType opts) = Inr new" and "read_target env existing = Inr (target, dig)"
    and "fst ` set new \<inter> fst ` set (cfg_MCPServers target) = {}"
    and "length (cfg_MCPServers target) + length new \<le> MaxServers" and "ip_TargetConfigPath pv = path"
    and "pv = \<lparr>ip_TargetConfigPath = path, ip_ExistingCount = length (cfg_MCPServers target), ip_NewCount = length new,
        ip_ServersToAdd = sort_key pi_ID (map (preview_item (ie_lib env)) new)\<rparr>"
proof -
  from assms have f: "find (\<lambda>(sid, _). mhas (cfg_MCPServers target) sid) new = None"
    and p: "ParseImportSource env src (io_RemoteType opts) = Inr new" "read_target env existing = Inr (target, dig)"
      "length (cfg_MCPServers target) + length new \<le> MaxServers"
    and pv: "pv = \<lparr>ip_TargetConfigPath = path, ip_ExistingCount = length (cfg_MCPServers target), ip_NewCount = length new,
        ip_ServersToAdd = sort_key pi_ID (map (preview_item (ie_lib env)) new)\<rparr>"
    by (auto simp: import_prepare_def Let_def split: if_splits sum.splits option.splits prod.splits)
  from f have "fst ` set new \<inter> fst ` set (cfg_MCPServers target) = {}" by (force simp: find_None_iff)
  with p pv show "ParseImportSource env src (io_RemoteType opts) = Inr new" "read_target env existing = Inr (target, dig)"
    "fst ` set new \<inter> fst ` set (cfg_MCPServers target) = {}" "length (cfg_MCPServers target) + length new \<le> MaxServers"
    "ip_TargetConfigPath pv = path" "pv = \<lparr>ip_TargetConfigPath = path, ip_ExistingCount = length (cfg_MCPServers target), ip_NewCount = length new,
        ip_ServersToAdd = sort_key pi_ID (map (preview_item (ie_lib env)) new)\<rparr>"
    by simp_all
qed

text \<open>
  C27. An import that reports success without \<^verbatim>\<open>--dry-run\<close> has added exactly the servers of the source: the file holds a
  configuration that still validates, in which every server that was there before is unchanged, the new ones are
  normalised and valid, and nothing else differs. An import that is a dry run, is not confirmed, or fails before the write
  leaves the disk alone.
\<close>

theorem ImportServers_merges:
  assumes "ImportServers env orc src path opts d = ((pv, err), d')" and "honest orc path d"
    and "\<forall>data servers b. ie_decodeSource env data = Inr (servers, b) \<longrightarrow> wf_map servers"
    and "Validate (ie_lib env) (Some default_target) = None"
  shows "if err = None \<and> \<not> io_DryRun opts
    then \<exists>target dig new merged out. read_target env (mget (dk_files d) path) = Inr (target, dig) \<and>
      ParseImportSource env src (io_RemoteType opts) = Inr new \<and> ie_marshal env merged = Some out \<and>
      mget (dk_files d') path = Some (out @ [CHR 0x0A]) \<and> Validate (ie_lib env) (Some merged) = None \<and>
      merged\<lparr>cfg_MCPServers := cfg_MCPServers target\<rparr> = target \<and>
      cfg_MCPServers merged = cfg_MCPServers target @ new \<and> fst ` set new \<inter> fst ` set (cfg_MCPServers target) = {}
    else (\<exists>e. err = Some (ImpWrite e)) \<or> d' = d"
proof (cases "import_prepare env src path opts (mget (dk_files d) path)")
  case (Inl e)
  with assms(1) show ?thesis by (auto simp: ImportServers_def)
next
  case (Inr prepared)
  obtain p new target dig where pr: "prepared = (p, new, target, dig)" by (cases prepared) auto
  note prep = import_prepare_Inr [OF Inr [unfolded pr]]
  from prep(1) obtain servers where src: "ie_decodeSource env src = Inr (servers, True)" "map fst new = map fst servers"
    "\<forall>e \<in> set new. validateServer (ie_lib env) (fst e) (snd e) = None"
    by (rule ParseImportSource_Inr)
  have wf: "wf_map new" using src(1,2) assms(3) by metis
  let ?merged = "target\<lparr>cfg_MCPServers := cfg_MCPServers target @ new\<rparr>"
  have merged: "target\<lparr>cfg_MCPServers := fold (\<lambda>(sid, s). mput sid s) new (cfg_MCPServers target)\<rparr> = ?merged"
    by (simp add: fold_mput_fresh [OF wf prep(3)])
  have "Validate (ie_lib env) (Some target) = None"
    using prep(2) assms(4) by (auto simp: read_target_def split: option.splits if_splits sum.splits)
  then have ok: "Validate (ie_lib env) (Some ?merged) = None"
    using prep(4) src(3) by (intro Validate_servers) (auto elim: Validate_None)
  show ?thesis
  proof (cases "io_DryRun opts \<or> \<not> io_Yes opts \<or> ie_marshal env ?merged = None")
    case True
    with assms(1) Inr show ?thesis
      by (auto simp: ImportServers_def import_commit_def pr merged Let_def split: if_splits)
  next
    case False
    then obtain out where out: "ie_marshal env ?merged = Some out" by auto
    obtain we d1 where w: "WriteConfigFileAtomic (ie_hash env) orc path (out @ [CHR 0x0A]) dig d = (we, d1)" by fastforce
    have res: "d' = d1" "err = map_option ImpWrite we"
      using assms(1) Inr False out w
      by (auto simp: ImportServers_def import_commit_def pr merged prep(5) Let_def split: option.splits)
    show ?thesis
    proof (cases we)
      case None
      from WriteConfigFileAtomic_content [OF w [unfolded None] assms(2)] None res out ok prep False pr show ?thesis by auto
    qed (use res in simp)
  qed
qed

text \<open>
  Compare and swap is off for a new file: when the target does not exist while an import is prepared, the import writes
  without a digest. A configuration that another process has created in the meantime is replaced without notice.
\<close>

theorem ImportServers_overwrites_new_file:
  assumes "import_prepare env src path opts None = Inr (pv, new, target, dig)" and "io_Yes opts" and "\<not> io_DryRun opts"
    and "mget (dk_files d) path = Some other" and "honest orc path d"
    and "import_commit env orc opts (pv, new, target, dig) d = ((Some pv, None), d')"
  shows "dig = [] \<and> (\<exists>out. mget (dk_files d') path = Some (out @ [CHR 0x0A]) \<and>
    ie_marshal env (default_target\<lparr>cfg_MCPServers := fold (\<lambda>(sid, s). mput sid s) new []\<rparr>) = Some out)"
proof -
  note prep = import_prepare_Inr [OF assms(1)]
  have t: "target = default_target" "dig = []" using prep(2) by (simp_all add: read_target_def)
  from assms(2,3,6) obtain out where out:
    "ie_marshal env (target\<lparr>cfg_MCPServers := fold (\<lambda>(sid, s). mput sid s) new (cfg_MCPServers target)\<rparr>) = Some out"
    and w: "WriteConfigFileAtomic (ie_hash env) orc path (out @ [CHR 0x0A]) dig d = (None, d')"
    by (auto simp: import_commit_def Let_def prep(5) split: option.splits prod.splits)
  from WriteConfigFileAtomic_content [OF w assms(5)] out t show ?thesis by (auto simp: default_target_def)
qed

section \<open>Witnesses\<close>

definition demo_import_server :: ServerConfig where
  "demo_import_server =
     \<lparr>sc_Enabled = None, sc_Type = [], sc_Command = ''run'', sc_Args = [], sc_Cwd = [], sc_Env = [], sc_URL = [], sc_Headers = [],
      sc_Disabled = [], sc_StartupTimeout = [], sc_CallTimeout = [], sc_MaxConcurrency = 0\<rparr>"

definition demo_import_env :: import_env where
  "demo_import_env =
     \<lparr>ie_lib = demo_lib\<lparr>lib_ParseDuration := (\<lambda>s. if s = ''20s'' \<or> s = ''60s'' then Some second else None)\<rparr>,
      ie_json = demo_json, ie_decodeSource = (\<lambda>_. Inr ([(''git'', demo_import_server)], True)),
      ie_decodeConfig = (\<lambda>_. Inl ''unused''), ie_hash = (\<lambda>d. d), ie_marshal = (\<lambda>_. Some ''merged''), ie_readFails = False\<rparr>"

abbreviation demo_yes :: ImportOptions where
  "demo_yes \<equiv> \<lparr>io_RemoteType = [], io_DryRun = False, io_Yes = True\<rparr>"

definition demo_prepared :: "ImportPreview \<times> (string, ServerConfig) gomap \<times> Config \<times> string" where
  "demo_prepared = projr (import_prepare demo_import_env ''{}'' ''c'' demo_yes None)"

lemma demo_prepares: "import_prepare demo_import_env ''{}'' ''c'' demo_yes None = Inr demo_prepared"
proof -
  have "\<not> isl (import_prepare demo_import_env ''{}'' ''c'' demo_yes None)" by code_simp
  then show ?thesis by (simp add: demo_prepared_def)
qed

definition demo_empty_disk :: disk where
  "demo_empty_disk = demo_disk\<lparr>dk_files := []\<rparr>"

lemma demo_empty_honest: "honest (demo_oracle ''t'') ''c'' demo_empty_disk"
  by (simp add: honest_def demo_oracle_def demo_empty_disk_def)

theorem ImportServers_merges_witness:
  "\<exists>out. mget (dk_files (snd (ImportServers demo_import_env (demo_oracle ''t'') ''{}'' ''c'' demo_yes demo_empty_disk))) ''c'' =
     Some (out @ [CHR 0x0A])"
proof -
  obtain pv err d' where i: "ImportServers demo_import_env (demo_oracle ''t'') ''{}'' ''c'' demo_yes demo_empty_disk = ((pv, err), d')"
    by (metis surj_pair)
  have "snd (fst (ImportServers demo_import_env (demo_oracle ''t'') ''{}'' ''c'' demo_yes demo_empty_disk)) = None" by code_simp
  with i have e: "err = None" by simp
  have "Validate (ie_lib demo_import_env) (Some default_target) = None" by code_simp
  moreover have "\<forall>data servers b. ie_decodeSource demo_import_env data = Inr (servers, b) \<longrightarrow> wf_map servers"
    by (simp add: demo_import_env_def)
  ultimately show ?thesis using ImportServers_merges [OF i demo_empty_honest] e i by auto
qed

theorem ImportServers_overwrites_new_file_witness:
  "\<exists>out. mget (dk_files (snd (import_commit demo_import_env (demo_oracle ''t'') demo_yes demo_prepared demo_disk))) ''c'' =
     Some (out @ [CHR 0x0A])"
proof -
  obtain pv new target dig where p: "demo_prepared = (pv, new, target, dig)" by (metis surj_pair)
  note prep = demo_prepares [unfolded p]
  have "snd (fst (import_commit demo_import_env (demo_oracle ''t'') demo_yes demo_prepared demo_disk)) = None" by code_simp
  moreover obtain r d' where c: "import_commit demo_import_env (demo_oracle ''t'') demo_yes (pv, new, target, dig) demo_disk = (r, d')"
    by fastforce
  ultimately have "r = (Some pv, None)" unfolding p by (auto simp: import_commit_def Let_def split: option.splits prod.splits)
  with c have "import_commit demo_import_env (demo_oracle ''t'') demo_yes (pv, new, target, dig) demo_disk = ((Some pv, None), d')" by simp
  from ImportServers_overwrites_new_file [OF prep _ _ _ demo_honest this] c p show ?thesis by (auto simp: demo_disk_def)
qed

end
