(* ===== verification/Admin.thy ===== *)
theory Admin
  imports Config_Write
begin

text \<open>
  The administration API (\<^verbatim>\<open>internal/admin/admin.go\<close>, \<^verbatim>\<open>tokens.go\<close>): sessions and rate limits, the dispatch of a request,
  and the transactions that change the configuration file.

  A request is handled in one piece: the code's mutexes make the accesses to the sessions atomic, and all
  changes of the file run inside the controller's transaction. Other processes may still write the file: \<open>ae_between\<close> is
  what they do to the disk between the two reads of a transaction. Times are nanoseconds; \<open>ae_now1\<close> and \<open>ae_now2\<close> are
  the results of the first and the second \<^verbatim>\<open>time.Now()\<close> of a request. A response is its status, the fixed part of its text
  and what it carries; response headers other than the entity tag and the cookie are left out.
\<close>

section \<open>Requests and responses\<close>

text \<open>\<^verbatim>\<open>Header.Get\<close> of a header that is not there is the empty string.\<close>

record http_request =
  rq_Method :: string
  rq_Path :: string
  rq_Host :: string
  rq_RemoteAddr :: string
  rq_TLS :: bool
  rq_Header :: "(string, string) gomap"
  rq_Cookies :: "(string, string) gomap"
  rq_Body :: "os_file option"

definition header_get :: "http_request \<Rightarrow> string \<Rightarrow> string" where
  "header_get r k = mget_or [] (rq_Header r) k"

record tokenDTO =
  tok_Index :: nat
  tok_Token :: string
  tok_Legacy :: bool

datatype payload =
    NoPayload
  | PayMe string
  | PayOK
  | PayLogin string
  | PayStatus
  | PayStatic string
  | PayConfig Config
  | PayTokens "tokenDTO list"
  | PayDigest string

record cookie =
  ck_Name :: string
  ck_Value :: string
  ck_Secure :: bool
  ck_Expires :: bool

record http_response =
  rp_Status :: nat
  rp_Text :: string
  rp_Payload :: payload
  rp_ETag :: string
  rp_Cookie :: "cookie option"

definition http_error :: "string \<Rightarrow> nat \<Rightarrow> http_response" where
  "http_error text status = \<lparr>rp_Status = status, rp_Text = text, rp_Payload = NoPayload, rp_ETag = [], rp_Cookie = None\<rparr>"

definition writeJSON :: "nat \<Rightarrow> payload \<Rightarrow> http_response" where
  "writeJSON status p = \<lparr>rp_Status = status, rp_Text = [], rp_Payload = p, rp_ETag = [], rp_Cookie = None\<rparr>"

text \<open>The value of an \<^verbatim>\<open>ETag\<close> header: the digest in double quotes.\<close>

definition quote_etag :: "string \<Rightarrow> string" where
  "quote_etag dig = [CHR 0x22] @ dig @ [CHR 0x22]"

section \<open>State\<close>

definition cookieName :: string where "cookieName = ''__Host-mcphub_admin''"
definition localCookieName :: string where "localCookieName = ''mcphub_admin''"
definition secretSentinel :: string where "secretSentinel = ''__MCP_HUB_SECRET_SET__''"
definition maxAdminSessions :: nat where "maxAdminSessions = 16"
definition maxLoginWindows :: nat where "maxLoginWindows = 4096"
definition maxAdminBodySize :: nat where "maxAdminBodySize = 1024 * 1024"

text \<open>A zero \<^verbatim>\<open>time.Time\<close> is \<^term>\<open>None\<close>.\<close>

record admin_session =
  as_csrf :: string
  as_createdAt :: int
  as_lastSeen :: int
  as_apiStarted :: "int option"
  as_apiCount :: nat

record loginWindow =
  lw_started :: "int option"
  lw_count :: nat

record admin_options =
  ao_ConfigPath :: string
  ao_AdminToken :: string
  ao_PublicURL :: string
  ao_PublicMode :: bool
  ao_TrustedProxies :: "string list"
  ao_SessionTimeout :: int

text \<open>A network is known by what it contains; an address by its text.\<close>

record Handler =
  ah_opts :: admin_options
  ah_origin :: string
  ah_trusted :: "(string \<Rightarrow> bool) list"
  ah_sessions :: "(string, admin_session) gomap"
  ah_loginLimit :: "(string, loginWindow) gomap"

text \<open>What a request needs of the libraries, of the operating system and of the rest of the program.\<close>

record 'm admin_env =
  ae_ParseIP :: "string \<Rightarrow> string option"
  ae_ParseCIDR :: "string \<Rightarrow> (string \<Rightarrow> bool) option"
  ae_ParseMediaType :: "string \<Rightarrow> string option"
  ae_PathUnescape :: "string \<Rightarrow> string option"
  ae_static :: "string \<Rightarrow> nat"
  ae_now1 :: int
  ae_now2 :: int
  ae_random1 :: "string option"
  ae_random2 :: "string option"
  ae_load :: load_env
  ae_decodeToken :: "string \<Rightarrow> string + string \<times> bool"
  ae_decodeServer :: "string \<Rightarrow> string + ServerConfig \<times> bool"
  ae_marshal :: "Config \<Rightarrow> string option"
  ae_hash :: "string \<Rightarrow> string"
  ae_open :: "string \<Rightarrow> os_file option"
  ae_between :: "disk \<Rightarrow> disk"
  ae_write :: write_oracle
  ae_rollback :: write_oracle
  ae_preflight :: "(ResolvedConfig \<Rightarrow> 'm \<Rightarrow> string option) option"
  ae_reload :: "(disk \<Rightarrow> 'm \<Rightarrow> string option \<times> 'm) option"

record 'm admin_world =
  aw_handler :: Handler
  aw_disk :: disk
  aw_mgr :: 'm

definition admin_New :: "go_lib \<Rightarrow> (string \<Rightarrow> (string \<Rightarrow> bool) option) \<Rightarrow> admin_options \<Rightarrow> string + Handler" where
  "admin_New lib parseCIDR opts =
     (if trim_space (ao_ConfigPath opts) = [] \<or> trim_space (ao_AdminToken opts) = []
      then Inl ''admin config path and token are required''
      else
        let opts = (if ao_SessionTimeout opts \<le> 0 then opts\<lparr>ao_SessionTimeout := 30 * minute\<rparr> else opts);
            origin = trim_right_chars ''/'' (ao_PublicURL opts)
        in case (if origin = [] then Inr []
                 else case lib_urlParse lib origin of
                        None \<Rightarrow> Inl ''invalid admin public URL''
                      | Some u \<Rightarrow> if url_Scheme u = [] \<or> url_Host u = [] then Inl ''invalid admin public URL''
                                  else Inr (url_Scheme u @ ''://'' @ url_Host u)) of
             Inl e \<Rightarrow> Inl e
           | Inr origin \<Rightarrow>
               (case try_map (\<lambda>raw. case parseCIDR raw of None \<Rightarrow> Inl ''invalid CIDR'' | Some n \<Rightarrow> Inr n) (ao_TrustedProxies opts) of
                  Inl e \<Rightarrow> Inl e
                | Inr trusted \<Rightarrow>
                    Inr \<lparr>ah_opts = opts, ah_origin = origin, ah_trusted = trusted, ah_sessions = [], ah_loginLimit = []\<rparr>))"

section \<open>The peer\<close>

definition isTrusted :: "Handler \<Rightarrow> string option \<Rightarrow> bool" where
  "isTrusted h ip = (case ip of None \<Rightarrow> False | Some a \<Rightarrow> list_ex (\<lambda>network. network a) (ah_trusted h))"

definition remoteIP :: "'m admin_env \<Rightarrow> string \<Rightarrow> string option" where
  "remoteIP env addr =
     ae_ParseIP env (trim_chars ''[]'' (case SplitHostPort addr of None \<Rightarrow> addr | Some (host, _) \<Rightarrow> host))"

definition forwarded_https :: "http_request \<Rightarrow> bool" where
  "forwarded_https r = equal_fold (trim_space (hd (split_byte (CHR '','') (header_get r ''X-Forwarded-Proto'')))) ''https''"

definition isHTTPS :: "'m admin_env \<Rightarrow> Handler \<Rightarrow> http_request \<Rightarrow> bool" where
  "isHTTPS env h r =
     (if rq_TLS r then True
      else if isTrusted h (remoteIP env (rq_RemoteAddr r)) then forwarded_https r
      else False)"

definition ip_text :: "string option \<Rightarrow> string" where
  "ip_text ip = (case ip of None \<Rightarrow> ''<nil>'' | Some a \<Rightarrow> a)"

definition clientIP :: "'m admin_env \<Rightarrow> Handler \<Rightarrow> http_request \<Rightarrow> string" where
  "clientIP env h r =
     (let peer = remoteIP env (rq_RemoteAddr r)
      in if \<not> isTrusted h peer then ip_text peer
         else case find (\<lambda>ip. ip \<noteq> None \<and> \<not> isTrusted h ip)
                     (map (\<lambda>part. ae_ParseIP env (trim_space part))
                       (rev (split_byte (CHR '','') (header_get r ''X-Forwarded-For'')))) of
                None \<Rightarrow> ip_text peer
              | Some ip \<Rightarrow> ip_text ip)"

definition validOrigin :: "'m admin_env \<Rightarrow> Handler \<Rightarrow> http_request \<Rightarrow> bool" where
  "validOrigin env h r =
     (let origin = header_get r ''Origin''
      in if origin = [] then True
         else
           let expected = (if ah_origin h = []
                 then (if isHTTPS env h r then ''https'' else ''http'') @ ''://'' @ rq_Host r else ah_origin h)
           in trim_right_chars ''/'' origin = expected)"

definition isMutation :: "string \<Rightarrow> bool" where
  "isMutation m \<longleftrightarrow> m = ''POST'' \<or> m = ''PUT'' \<or> m = ''PATCH'' \<or> m = ''DELETE''"

definition matchETag :: "string \<Rightarrow> string \<Rightarrow> bool" where
  "matchETag raw dig \<longleftrightarrow> trim_chars [CHR 0x22] (trim_space raw) = dig"

section \<open>Sessions and limits\<close>

definition window_expired :: "int \<Rightarrow> loginWindow \<Rightarrow> bool" where
  "window_expired now w \<longleftrightarrow> (case lw_started w of None \<Rightarrow> True | Some t \<Rightarrow> now - t > 15 * minute)"

definition prune_windows :: "int \<Rightarrow> (string, loginWindow) gomap \<Rightarrow> (string, loginWindow) gomap" where
  "prune_windows now m = filter (\<lambda>(_, w). \<not> window_expired now w) m"

definition pruneLocked :: "int \<Rightarrow> Handler \<Rightarrow> Handler" where
  "pruneLocked now h =
     h\<lparr>ah_sessions := filter (\<lambda>(_, s). \<not> (now - as_lastSeen s > ao_SessionTimeout (ah_opts h) \<or>
                                         now - as_createdAt s > 24 * 60 * minute)) (ah_sessions h),
       ah_loginLimit := prune_windows now (ah_loginLimit h)\<rparr>"

definition allowLogin :: "int \<Rightarrow> string \<Rightarrow> Handler \<Rightarrow> bool \<times> Handler" where
  "allowLogin now ip h =
     (let h = h\<lparr>ah_loginLimit := prune_windows now (ah_loginLimit h)\<rparr>;
          window = mget_or \<lparr>lw_started = None, lw_count = 0\<rparr> (ah_loginLimit h) ip
      in if lw_started window = None \<and> length (ah_loginLimit h) \<ge> maxLoginWindows then (False, h)
         else
           let window = (if window_expired now window then \<lparr>lw_started = Some now, lw_count = 0\<rparr> else window);
               window = window\<lparr>lw_count := lw_count window + 1\<rparr>
           in (lw_count window \<le> 5, h\<lparr>ah_loginLimit := mput ip window (ah_loginLimit h)\<rparr>))"

definition allowAPI :: "int \<Rightarrow> string \<Rightarrow> Handler \<Rightarrow> bool \<times> Handler" where
  "allowAPI now sid h =
     (case mget (ah_sessions h) sid of
        None \<Rightarrow> (False, h)
      | Some sess \<Rightarrow>
          let sess = (if (case as_apiStarted sess of None \<Rightarrow> True | Some t \<Rightarrow> now - t \<ge> minute)
                      then sess\<lparr>as_apiStarted := Some now, as_apiCount := 0\<rparr> else sess);
              sess = sess\<lparr>as_apiCount := as_apiCount sess + 1\<rparr>
          in (as_apiCount sess \<le> 120, h\<lparr>ah_sessions := mput sid sess (ah_sessions h)\<rparr>))"

definition session_cookie :: "'m admin_env \<Rightarrow> Handler \<Rightarrow> http_request \<Rightarrow> string" where
  "session_cookie env h r = (if isHTTPS env h r then cookieName else localCookieName)"

definition setCookie :: "'m admin_env \<Rightarrow> Handler \<Rightarrow> http_request \<Rightarrow> string \<Rightarrow> http_response \<Rightarrow> http_response" where
  "setCookie env h r v rp =
     rp\<lparr>rp_Cookie := Some \<lparr>ck_Name = session_cookie env h r, ck_Value = v, ck_Secure = isHTTPS env h r, ck_Expires = False\<rparr>\<rparr>"

definition clearCookie :: "'m admin_env \<Rightarrow> Handler \<Rightarrow> http_request \<Rightarrow> http_response \<Rightarrow> http_response" where
  "clearCookie env h r rp =
     rp\<lparr>rp_Cookie := Some \<lparr>ck_Name = session_cookie env h r, ck_Value = [], ck_Secure = isHTTPS env h r, ck_Expires = True\<rparr>\<rparr>"

definition authenticate :: "'m admin_env \<Rightarrow> http_request \<Rightarrow> Handler \<Rightarrow> (string \<times> admin_session) option \<times> Handler" where
  "authenticate env r h =
     (case mget (rq_Cookies r) (session_cookie env h r) of
        None \<Rightarrow> (None, h)
      | Some v \<Rightarrow>
          if v = [] then (None, h)
          else
            let now = ae_now1 env; h = pruneLocked now h
            in case mget (ah_sessions h) v of
                 None \<Rightarrow> (None, h\<lparr>ah_sessions := mdel v (ah_sessions h)\<rparr>)
               | Some sess \<Rightarrow>
                   if now - as_lastSeen sess > ao_SessionTimeout (ah_opts h)
                   then (None, h\<lparr>ah_sessions := mdel v (ah_sessions h)\<rparr>)
                   else
                     let sess = sess\<lparr>as_lastSeen := now\<rparr>
                     in (Some (v, sess), h\<lparr>ah_sessions := mput v sess (ah_sessions h)\<rparr>))"

section \<open>Bodies\<close>

definition decodeJSONBody :: "json_lib \<Rightarrow> http_request \<Rightarrow> 'v decode_target \<Rightarrow> 'v option" where
  "decodeJSONBody jl r target =
     (case rq_Body r of
        None \<Rightarrow> None
      | Some body \<Rightarrow>
          (case read_limited (maxAdminBodySize + 1) body of
             Inl _ \<Rightarrow> None
           | Inr data \<Rightarrow>
               if length data > maxAdminBodySize then None
               else let trimmed = trim_space data
                    in if length trimmed = 0 \<or> hd trimmed \<noteq> CHR ''{'' then None
                       else case DecodeStrict jl data target of Inl _ \<Rightarrow> None | Inr v \<Rightarrow> Some v))"

definition TokenBody_type :: go_type where
  "TokenBody_type = GStruct [jfield ''Token'' ''token'' GScalar]"

definition token_body :: "'m admin_env \<Rightarrow> http_request \<Rightarrow> string option" where
  "token_body env r =
     decodeJSONBody (le_json (ae_load env)) r \<lparr>dt_type = GPtr TokenBody_type, dt_decode = ae_decodeToken env\<rparr>"

definition server_body :: "'m admin_env \<Rightarrow> http_request \<Rightarrow> ServerConfig option" where
  "server_body env r =
     decodeJSONBody (le_json (ae_load env)) r \<lparr>dt_type = GPtr ServerConfig_type, dt_decode = ae_decodeServer env\<rparr>"

section \<open>Configuration transactions\<close>

definition admin_read :: "'m admin_env \<Rightarrow> string \<Rightarrow> disk \<Rightarrow> file_error + string" where
  "admin_read env path d =
     ReadFileLimited (case mget (dk_files d) path of None \<Rightarrow> None | Some content \<Rightarrow> ae_open env content)"

definition readRawConfig :: "'m admin_env \<Rightarrow> string \<Rightarrow> disk \<Rightarrow> (Config \<times> string) option" where
  "readRawConfig env path d =
     (case admin_read env path d of
        Inl _ \<Rightarrow> None
      | Inr data \<Rightarrow>
          (case DecodeStrict (le_json (ae_load env)) data (config_target (le_decode (ae_load env))) of
             Inl _ \<Rightarrow> None
           | Inr cfg \<Rightarrow> Some (cfg, ComputeDigest (ae_hash env) data)))"

text \<open>The end of the transaction: reload, and roll back when that fails.\<close>

definition reload_or_rollback ::
  "'m admin_env \<Rightarrow> string \<Rightarrow> string \<Rightarrow> string \<Rightarrow> disk \<times> 'm \<Rightarrow> http_response \<times> disk \<times> 'm" where
  "reload_or_rollback env path previous newDigest st =
     (let (d, m) = st; ok = (writeJSON 200 (PayDigest newDigest))\<lparr>rp_ETag := quote_etag newDigest\<rparr>
      in case ae_reload env of
           None \<Rightarrow> (ok, d, m)
         | Some reload \<Rightarrow>
             (case reload d m of
                (None, m) \<Rightarrow> (ok, d, m)
              | (Some _, m) \<Rightarrow>
                  (case WriteConfigFileAtomic (ae_hash env) (ae_rollback env) path previous newDigest d of
                     (Some _, d) \<Rightarrow> (http_error ''configuration reload failed and rollback could not be completed'' 500, d, m)
                   | (None, d) \<Rightarrow>
                       (case reload d m of
                          (Some _, m) \<Rightarrow> (http_error ''configuration change was rolled back but runtime restoration failed'' 503, d, m)
                        | (None, m) \<Rightarrow> (http_error ''configuration reload failed; change was rolled back'' 503, d, m)))))"

definition writeConfigLocked ::
  "'m admin_env \<Rightarrow> string \<Rightarrow> Config \<Rightarrow> string \<Rightarrow> disk \<times> 'm \<Rightarrow> http_response \<times> disk \<times> 'm" where
  "writeConfigLocked env path cfg dig st =
     (let (d, m) = st; le = ae_load env
      in case Validate (le_lib le) (Some cfg) of
           Some _ \<Rightarrow> (http_error ''configuration validation failed'' 400, d, m)
         | None \<Rightarrow>
             (case Resolve (le_lib le) (le_environ le) (le_isWindows le) (Some cfg) (le_Dir le path) (le_lookup le) of
                Inl _ \<Rightarrow> (http_error ''configuration resolution failed'' 400, d, m)
              | Inr resolved \<Rightarrow>
                  (case ae_marshal env cfg of
                     None \<Rightarrow> (http_error ''configuration encoding failed'' 500, d, m)
                   | Some out \<Rightarrow>
                       let data = out @ [CHR 0x0A]
                       in case admin_read env path d of
                            Inl _ \<Rightarrow> (http_error ''configuration unavailable'' 500, d, m)
                          | Inr previous \<Rightarrow>
                              if ComputeDigest (ae_hash env) previous \<noteq> dig then (http_error ''configuration changed'' 409, d, m)
                              else if (case ae_preflight env of None \<Rightarrow> False | Some pf \<Rightarrow> pf resolved m \<noteq> None)
                              then (http_error ''configuration preflight failed'' 400, d, m)
                              else
                                (case WriteConfigFileAtomic (ae_hash env) (ae_write env) path data dig d of
                                   (Some (WriteMismatch _ _), d) \<Rightarrow> (http_error ''configuration changed'' 409, d, m)
                                 | (Some _, d) \<Rightarrow> (http_error ''configuration write failed'' 500, d, m)
                                 | (None, d) \<Rightarrow>
                                     reload_or_rollback env path previous (ComputeDigest (ae_hash env) data) (d, m)))))"

text \<open>
  What all transactions begin with: read, compare the entity tag, edit, write. An edit answers with an error or with the
  new configuration.
\<close>

definition config_transaction ::
  "'m admin_env \<Rightarrow> http_request \<Rightarrow> string \<Rightarrow> (Config \<Rightarrow> http_response + Config) \<Rightarrow> disk \<times> 'm \<Rightarrow> http_response \<times> disk \<times> 'm" where
  "config_transaction env r path edit st =
     (let (d, m) = st
      in case readRawConfig env path d of
           None \<Rightarrow> (http_error ''configuration unavailable'' 500, d, m)
         | Some (cfg, dig) \<Rightarrow>
             if \<not> matchETag (header_get r ''If-Match'') dig then (http_error ''configuration changed'' 409, d, m)
             else case edit cfg of
                    Inl rp \<Rightarrow> (rp, d, m)
                  | Inr cfg' \<Rightarrow> writeConfigLocked env path cfg' dig (ae_between env d, m))"

section \<open>Editing servers\<close>

definition redact_values :: "(string, string) gomap \<Rightarrow> (string, string) gomap" where
  "redact_values m = map (\<lambda>(k, _). (k, secretSentinel)) m"

definition redactConfig :: "Config \<Rightarrow> Config" where
  "redactConfig cfg =
     (let auth = hub_Auth (cfg_Hub cfg); admin = hub_Admin (cfg_Hub cfg);
          auth = auth\<lparr>auth_BearerToken := (if auth_BearerToken auth \<noteq> [] then secretSentinel else []),
                      auth_BearerTokens := map (\<lambda>_. secretSentinel) (auth_BearerTokens auth)\<rparr>;
          admin = admin\<lparr>adm_Token := (if adm_Token admin \<noteq> [] then secretSentinel else [])\<rparr>
      in cfg\<lparr>cfg_Hub := (cfg_Hub cfg)\<lparr>hub_Auth := auth, hub_Admin := admin\<rparr>,
             cfg_MCPServers := map (\<lambda>(sid, s). (sid, s\<lparr>sc_Env := redact_values (sc_Env s), sc_Headers := redact_values (sc_Headers s)\<rparr>))
                                 (cfg_MCPServers cfg)\<rparr>)"

definition mergeSecrets :: "(string, string) gomap \<Rightarrow> (string, string) gomap \<Rightarrow> (string, string) gomap" where
  "mergeSecrets existing incoming =
     List.map_filter (\<lambda>(k, v). if v = secretSentinel then map_option (\<lambda>old. (k, old)) (mget existing k) else Some (k, v)) incoming"

definition hasSecretSentinel :: "(string, string) gomap \<Rightarrow> bool" where
  "hasSecretSentinel values = list_ex (\<lambda>(_, v). v = secretSentinel) values"

definition put_edit :: "string \<Rightarrow> ServerConfig \<Rightarrow> Config \<Rightarrow> http_response + Config" where
  "put_edit sid incoming cfg =
     (case mget (cfg_MCPServers cfg) sid of
        Some existing \<Rightarrow>
          Inr (cfg\<lparr>cfg_MCPServers :=
            mput sid (incoming\<lparr>sc_Env := mergeSecrets (sc_Env existing) (sc_Env incoming),
                               sc_Headers := mergeSecrets (sc_Headers existing) (sc_Headers incoming)\<rparr>) (cfg_MCPServers cfg)\<rparr>)
      | None \<Rightarrow>
          if hasSecretSentinel (sc_Env incoming) \<or> hasSecretSentinel (sc_Headers incoming)
          then Inl (http_error ''secret sentinel cannot be used for a new server'' 400)
          else Inr (cfg\<lparr>cfg_MCPServers := mput sid incoming (cfg_MCPServers cfg)\<rparr>))"

definition delete_edit :: "string \<Rightarrow> Config \<Rightarrow> http_response + Config" where
  "delete_edit sid cfg =
     (if \<not> mhas (cfg_MCPServers cfg) sid then Inl (http_error ''404 page not found'' 404)
      else Inr (cfg\<lparr>cfg_MCPServers := mdel sid (cfg_MCPServers cfg)\<rparr>))"

definition putServer :: "'m admin_env \<Rightarrow> http_request \<Rightarrow> string \<Rightarrow> string \<Rightarrow> disk \<times> 'm \<Rightarrow> http_response \<times> disk \<times> 'm" where
  "putServer env r path sid st =
     (case server_body env r of
        None \<Rightarrow> (http_error ''invalid server configuration'' 400, st)
      | Some incoming \<Rightarrow> config_transaction env r path (put_edit sid incoming) st)"

definition deleteServer :: "'m admin_env \<Rightarrow> http_request \<Rightarrow> string \<Rightarrow> string \<Rightarrow> disk \<times> 'm \<Rightarrow> http_response \<times> disk \<times> 'm" where
  "deleteServer env r path sid st = config_transaction env r path (delete_edit sid) st"

definition getConfig :: "'m admin_env \<Rightarrow> string \<Rightarrow> disk \<Rightarrow> http_response" where
  "getConfig env path d =
     (case readRawConfig env path d of
        None \<Rightarrow> http_error ''configuration unavailable'' 500
      | Some (cfg, dig) \<Rightarrow> (writeJSON 200 (PayConfig (redactConfig cfg)))\<lparr>rp_ETag := quote_etag dig\<rparr>)"

section \<open>Editing tokens\<close>

definition appendTokenValues :: "HubAuthConfig \<Rightarrow> string list" where
  "appendTokenValues auth =
     (if trim_space (auth_BearerToken auth) \<noteq> [] then [auth_BearerToken auth] else []) @ auth_BearerTokens auth"

fun token_dtos :: "(string \<Rightarrow> string option) \<Rightarrow> nat \<Rightarrow> string list \<Rightarrow> tokenDTO list option" where
  "token_dtos lookup i [] = Some []"
| "token_dtos lookup i (raw # rest) =
     (case ExpandEnv raw lookup of
        Inl _ \<Rightarrow> None
      | Inr v \<Rightarrow> map_option (\<lambda>ts. \<lparr>tok_Index = i, tok_Token = v, tok_Legacy = False\<rparr> # ts) (token_dtos lookup (i + 1) rest))"

definition resolvedTokenDTOs :: "(string \<Rightarrow> string option) \<Rightarrow> HubAuthConfig \<Rightarrow> tokenDTO list option" where
  "resolvedTokenDTOs lookup auth =
     (if trim_space (auth_BearerToken auth) \<noteq> [] then
        (case ExpandEnv (auth_BearerToken auth) lookup of
           Inl _ \<Rightarrow> None
         | Inr v \<Rightarrow>
             map_option (\<lambda>ts. \<lparr>tok_Index = 0, tok_Token = v, tok_Legacy = True\<rparr> # ts) (token_dtos lookup 1 (auth_BearerTokens auth)))
      else token_dtos lookup 0 (auth_BearerTokens auth))"

definition getTokens :: "'m admin_env \<Rightarrow> string \<Rightarrow> disk \<Rightarrow> http_response" where
  "getTokens env path d =
     (case readRawConfig env path d of
        None \<Rightarrow> http_error ''configuration unavailable'' 500
      | Some (cfg, dig) \<Rightarrow>
          (case resolvedTokenDTOs (le_lookup (ae_load env)) (hub_Auth (cfg_Hub cfg)) of
             None \<Rightarrow> http_error ''MCP access tokens unavailable'' 500
           | Some ts \<Rightarrow> (writeJSON 200 (PayTokens ts))\<lparr>rp_ETag := quote_etag dig\<rparr>))"

definition set_auth :: "(HubAuthConfig \<Rightarrow> HubAuthConfig) \<Rightarrow> Config \<Rightarrow> Config" where
  "set_auth f cfg = cfg\<lparr>cfg_Hub := (cfg_Hub cfg)\<lparr>hub_Auth := f (hub_Auth (cfg_Hub cfg))\<rparr>\<rparr>"

definition post_edit :: "(string \<Rightarrow> string option) \<Rightarrow> string \<Rightarrow> Config \<Rightarrow> http_response + Config" where
  "post_edit lookup candidate cfg =
     (if list_ex (\<lambda>existing. ExpandEnv existing lookup = Inr candidate) (appendTokenValues (hub_Auth (cfg_Hub cfg)))
      then Inl (http_error ''MCP token already exists'' 409)
      else Inr (set_auth (\<lambda>auth. auth\<lparr>auth_BearerTokens := auth_BearerTokens auth @ [candidate]\<rparr>) cfg))"

definition postToken :: "'m admin_env \<Rightarrow> http_request \<Rightarrow> string \<Rightarrow> disk \<times> 'm \<Rightarrow> http_response \<times> disk \<times> 'm" where
  "postToken env r path st =
     (case token_body env r of
        None \<Rightarrow> (http_error ''invalid token request'' 400, st)
      | Some token \<Rightarrow>
          let candidate = trim_space token
          in case (if candidate = [] then ae_random1 env else Some candidate) of
               None \<Rightarrow> (http_error ''token generation failed'' 500, st)
             | Some candidate \<Rightarrow>
                 if length candidate < MinAuthTokenLength
                 then (http_error ''MCP token must be at least 32 characters'' 400, st)
                 else if contains_any candidate [CHR 0x0D, CHR 0x0A]
                 then (http_error ''MCP token must be a single line'' 400, st)
                 else config_transaction env r path (post_edit (le_lookup (ae_load env)) candidate) st)"

definition delete_token_edit :: "int \<Rightarrow> Config \<Rightarrow> http_response + Config" where
  "delete_token_edit index cfg =
     (let auth = hub_Auth (cfg_Hub cfg);
          legacyCount = (if trim_space (auth_BearerToken auth) \<noteq> [] then 1 else 0 :: int);
          total = legacyCount + int (length (auth_BearerTokens auth))
      in if index < 0 \<or> index \<ge> total then Inl (http_error ''MCP token not found'' 404)
         else if total = 1
         then Inl (http_error ''cannot remove the final MCP token; add a replacement before deleting this token'' 400)
         else if legacyCount = 1 \<and> index = 0 then Inr (set_auth (\<lambda>a. a\<lparr>auth_BearerToken := []\<rparr>) cfg)
         else
           let i = nat (index - legacyCount); ts = auth_BearerTokens auth
           in Inr (set_auth (\<lambda>a. a\<lparr>auth_BearerTokens := take i ts @ drop (i + 1) ts\<rparr>) cfg))"

definition deleteToken :: "'m admin_env \<Rightarrow> http_request \<Rightarrow> string \<Rightarrow> int \<Rightarrow> disk \<times> 'm \<Rightarrow> http_response \<times> disk \<times> 'm" where
  "deleteToken env r path index st = config_transaction env r path (delete_token_edit index) st"

section \<open>Dispatch\<close>

definition trim_prefix :: "string \<Rightarrow> string \<Rightarrow> string" where
  "trim_prefix s p = (if has_prefix s p then drop (length p) s else s)"

text \<open>The switch of \<^verbatim>\<open>serveAPI\<close>, for an authenticated request.\<close>

definition api_route ::
  "'m admin_env \<Rightarrow> http_request \<Rightarrow> string \<Rightarrow> admin_session \<Rightarrow> 'm admin_world \<Rightarrow> http_response \<times> 'm admin_world" where
  "api_route env r sid sess w =
     (let p = rq_Path r; m = rq_Method r; h = aw_handler w; cpath = ao_ConfigPath (ah_opts h); st = (aw_disk w, aw_mgr w);
          done = (\<lambda>(rp, d, mg). (rp, w\<lparr>aw_disk := d, aw_mgr := mg\<rparr>))
      in if p = ''/api/admin/v1/auth/me'' \<and> m = ''GET'' then (writeJSON 200 (PayMe (as_csrf sess)), w)
         else if p = ''/api/admin/v1/auth/logout'' \<and> m = ''POST''
         then (clearCookie env h r (writeJSON 200 PayOK), w\<lparr>aw_handler := h\<lparr>ah_sessions := mdel sid (ah_sessions h)\<rparr>\<rparr>)
         else if p = ''/api/admin/v1/status'' \<and> m = ''GET'' then (writeJSON 200 PayStatus, w)
         else if p \<in> {''/api/admin/v1/agent-prompt'', ''/api/admin/v1/agent-skill.zip'', ''/api/admin/v1/client-prompt'',
                      ''/api/admin/v1/client-skill.zip''} \<and> m = ''GET'' then (writeJSON 200 (PayStatic p), w)
         else if p = ''/api/admin/v1/config'' \<and> m = ''GET'' then (getConfig env cpath (aw_disk w), w)
         else if p = ''/api/admin/v1/tokens'' \<and> m = ''GET'' then (getTokens env cpath (aw_disk w), w)
         else if p = ''/api/admin/v1/tokens'' \<and> m = ''POST'' then done (postToken env r cpath st)
         else if has_prefix p ''/api/admin/v1/tokens/'' \<and> m = ''DELETE'' then
           (case atoi (trim_prefix p ''/api/admin/v1/tokens/'') of
              None \<Rightarrow> (http_error ''invalid token index'' 400, w)
            | Some index \<Rightarrow> if index < 0 then (http_error ''invalid token index'' 400, w)
                            else done (deleteToken env r cpath index st))
         else if has_prefix p ''/api/admin/v1/servers/'' then
           (case ae_PathUnescape env (trim_prefix p ''/api/admin/v1/servers/'') of
              None \<Rightarrow> (http_error ''invalid server id'' 400, w)
            | Some srv \<Rightarrow>
                if srv = [] \<or> CHR ''/'' \<in> set srv then (http_error ''invalid server id'' 400, w)
                else if m = ''PUT'' then done (putServer env r cpath srv st)
                else if m = ''DELETE'' then done (deleteServer env r cpath srv st)
                else (http_error ''method not allowed'' 405, w))
         else (http_error ''404 page not found'' 404, w))"

definition json_media :: "'m admin_env \<Rightarrow> http_request \<Rightarrow> bool" where
  "json_media env r \<longleftrightarrow> ae_ParseMediaType env (header_get r ''Content-Type'') = Some ''application/json''"

definition admin_login :: "'m admin_env \<Rightarrow> http_request \<Rightarrow> Handler \<Rightarrow> http_response \<times> Handler" where
  "admin_login env r h =
     (if rq_Method r \<noteq> ''POST'' then (http_error ''method not allowed'' 405, h)
      else if \<not> json_media env r then (http_error ''application/json required'' 415, h)
      else
        let ip = clientIP env h r; (allowed, h) = allowLogin (ae_now1 env) ip h
        in if \<not> allowed then (http_error ''too many login attempts'' 429, h)
           else case token_body env r of
                  None \<Rightarrow> (http_error ''invalid request'' 400, h)
                | Some token \<Rightarrow>
                    if token \<noteq> ao_AdminToken (ah_opts h) then (http_error ''invalid credentials'' 401, h)
                    else case (ae_random1 env, ae_random2 env) of
                           (Some sid, Some csrf) \<Rightarrow>
                             let now = ae_now2 env; h = pruneLocked now h
                             in if length (ah_sessions h) \<ge> maxAdminSessions then (http_error ''session capacity reached'' 503, h)
                                else
                                  let h = h\<lparr>ah_sessions := mput sid \<lparr>as_csrf = csrf, as_createdAt = now, as_lastSeen = now,
                                              as_apiStarted = None, as_apiCount = 0\<rparr> (ah_sessions h),
                                            ah_loginLimit := mdel ip (ah_loginLimit h)\<rparr>
                                  in (setCookie env h r sid (writeJSON 200 (PayLogin csrf)), h)
                         | _ \<Rightarrow> (http_error ''session initialization failed'' 500, h))"

definition serveAPI :: "'m admin_env \<Rightarrow> http_request \<Rightarrow> 'm admin_world \<Rightarrow> http_response \<times> 'm admin_world" where
  "serveAPI env r w =
     (let h = aw_handler w
      in if \<not> validOrigin env h r then (http_error ''invalid origin'' 403, w)
         else if rq_Path r = ''/api/admin/v1/auth/login''
         then let (rp, h) = admin_login env r h in (rp, w\<lparr>aw_handler := h\<rparr>)
         else
           case authenticate env r h of
             (None, h) \<Rightarrow> (http_error ''unauthorized'' 401, w\<lparr>aw_handler := h\<rparr>)
           | (Some (sid, sess), h) \<Rightarrow>
               (case allowAPI (ae_now2 env) sid h of
                  (False, h) \<Rightarrow> (http_error ''rate limit exceeded'' 429, w\<lparr>aw_handler := h\<rparr>)
                | (True, h) \<Rightarrow>
                    if isMutation (rq_Method r) \<and> \<not> json_media env r
                    then (http_error ''application/json required'' 415, w\<lparr>aw_handler := h\<rparr>)
                    else if isMutation (rq_Method r) \<and> header_get r ''X-CSRF-Token'' \<noteq> as_csrf sess
                    then (http_error ''invalid CSRF token'' 403, w\<lparr>aw_handler := h\<rparr>)
                    else api_route env r sid sess (w\<lparr>aw_handler := h\<rparr>)))"

text \<open>\<^verbatim>\<open>path.Ext\<close>: from the last dot of the last element on.\<close>

definition path_ext :: "string \<Rightarrow> string" where
  "path_ext p =
     (let base = last (split_byte (CHR ''/'') p)
      in case last_index_byte base (CHR ''.'') of None \<Rightarrow> [] | Some i \<Rightarrow> drop i base)"

text \<open>The static files of the console: \<open>ae_static\<close> is the status with which the file server answers a path.\<close>

definition serve_static :: "'m admin_env \<Rightarrow> string \<Rightarrow> http_response" where
  "serve_static env p =
     (let p = trim_prefix p ''/admin''; p = (if p = ''/'' \<or> path_ext p = [] then ''/'' else p)
      in writeJSON (ae_static env p) (PayStatic p))"

definition admin_ServeHTTP :: "'m admin_env \<Rightarrow> http_request \<Rightarrow> 'm admin_world \<Rightarrow> http_response \<times> 'm admin_world" where
  "admin_ServeHTTP env r w =
     (if ao_PublicMode (ah_opts (aw_handler w)) \<and> \<not> isHTTPS env (aw_handler w) r then (http_error ''HTTPS required'' 426, w)
      else if has_prefix (rq_Path r) ''/api/admin/v1/'' then serveAPI env r w
      else if rq_Method r \<noteq> ''GET'' \<and> rq_Method r \<noteq> ''HEAD'' then (http_error ''method not allowed'' 405, w)
      else if rq_Path r = ''/admin'' then (http_error ''/admin/'' 301, w)
      else if \<not> has_prefix (rq_Path r) ''/admin/'' then (http_error ''404 page not found'' 404, w)
      else (serve_static env (rq_Path r), w))"

end
