(* ===== verification/Router.thy ===== *)
theory Router
  imports Publisher Generation
begin

text \<open>
  Routing of a tool call (\<^verbatim>\<open>internal/router/router.go\<close>): name check, route lookup, lease, the downstream
  call under the generation's and the call's deadline, classification of the outcome, release of the
  lease and the call record.

  The route table and the lease provider are the interfaces the code has: a lookup function and
  a record of operations on an abstract state \<open>'m\<close>, whose laws are the locale \<open>lease_provider\<close>. What
  happens while the downstream call runs is an observation (\<open>call_obs\<close>): the answer, the errors of the
  two contexts when the call returns, and the effect of concurrent work on the provider's state.
\<close>

section \<open>Data\<close>

definition CategoryUnavailable :: string where "CategoryUnavailable = ''unavailable''"
definition CategoryBusy :: string where "CategoryBusy = ''busy''"
definition CategoryTimeout :: string where "CategoryTimeout = ''timeout''"
definition CategoryDownstreamError :: string where "CategoryDownstreamError = ''downstream_error''"
definition CategoryInternalError :: string where "CategoryInternalError = ''internal_error''"

record CallRecord =
  call_RequestID :: string
  call_Time :: int
  call_Duration :: int
  call_Tool :: string
  call_ServerID :: string
  call_Outcome :: string
  call_ErrorCategory :: string

record ('m, 'l) lease_ops =
  lo_AcquireLease :: "string \<Rightarrow> 'm \<Rightarrow> (lease_error + 'l) \<times> 'm"
  lo_Release :: "'l \<Rightarrow> 'm \<Rightarrow> 'm"
  lo_Session :: "'l \<Rightarrow> nat option"
  lo_CallTimeout :: "'l \<Rightarrow> 'm \<Rightarrow> int"

datatype ctx_error = Canceled | DeadlineExceeded

fun ctx_error_text :: "ctx_error \<Rightarrow> string" where
  "ctx_error_text Canceled = ''context canceled''"
| "ctx_error_text DeadlineExceeded = ''context deadline exceeded''"

record 'm call_obs =
  obs_answer :: "string + CallToolResult option"
  obs_ctxErr :: "ctx_error option"
  obs_callCtxErr :: "ctx_error option"
  obs_effect :: "'m \<Rightarrow> 'm"

record ('m, 'l) Router =
  rt_routes :: "(string \<Rightarrow> RouteEntry option) option"
  rt_leases :: "('m, 'l) lease_ops option"

text \<open>
  What a call reads of its surroundings: the identifier drawn for it, the clock at its start and
  end, the caller's context when the deferred record is written and, for a call that is
  forwarded, the observation. \<open>fmt_duration\<close> is \<^verbatim>\<open>time.Duration.String\<close>.
\<close>

record 'm call_env =
  ce_reqID :: string
  ce_startedAt :: int
  ce_duration :: int
  ce_ctxErrAtEnd :: "ctx_error option"
  ce_obs :: "'m call_obs"
  ce_fmt_duration :: "int \<Rightarrow> string"

datatype 'l call_event =
    EvAcquired 'l
  | EvCallTool nat string string
  | EvReleased 'l
  | EvRecord CallRecord

section \<open>Request identifiers\<close>

fun hex_byte :: "nat \<Rightarrow> string" where
  "hex_byte b =
     map (\<lambda>d. if d < 10 then char_of (48 + d) else char_of (87 + d :: nat)) [b div 16 mod 16, b mod 16]"

fun dec_digits :: "nat \<Rightarrow> string" where
  "dec_digits n =
     (if n < 10 then [char_of (48 + n)] else dec_digits (n div 10) @ [char_of (48 + n mod 10)])"

declare dec_digits.simps [simp del]

text \<open>\<open>rnd\<close>: the eight bytes that \<^verbatim>\<open>rand.Read\<close> gave, \<^term>\<open>None\<close> for its error.\<close>

definition GenerateRequestID :: "nat list option \<Rightarrow> nat \<Rightarrow> string" where
  "GenerateRequestID rnd unixNano =
     (case rnd of None \<Rightarrow> ''req-'' @ dec_digits unixNano
      | Some bs \<Rightarrow> ''req-'' @ concat (map hex_byte bs))"

section \<open>Routing\<close>

text \<open>\<^verbatim>\<open>%q\<close> for the names used here, which are printable ASCII without quotes or backslashes.\<close>

definition quoted :: "string \<Rightarrow> string" where
  "quoted s = [CHR 0x22] @ s @ [CHR 0x22]"

definition error_result :: "string \<Rightarrow> string \<Rightarrow> string \<Rightarrow> CallToolResult" where
  "error_result category text reqID =
     \<lparr>res_IsError = True,
      res_Text = ''['' @ category @ ''] '' @ text @ '' (request_id: '' @ reqID @ '')''\<rparr>"

text \<open>
  The part after the lease was acquired, up to the return: the outcome, the error category, the result
  and the call event.
\<close>

definition call_downstream ::
  "'m call_env \<Rightarrow> ('m, 'l) lease_ops \<Rightarrow> RouteEntry \<Rightarrow> string \<Rightarrow> 'l \<Rightarrow> 'm \<Rightarrow>
   (string \<times> string \<times> call_outcome \<times> 'l call_event list) \<times> 'm" where
  "call_downstream env ops route args lease m =
     (let reqID = ce_reqID env; obs = ce_obs env; callTimeout = lo_CallTimeout ops lease m;
          server = ''server '' @ quoted (route_ServerID route)
      in case lo_Session ops lease of
           None \<Rightarrow>
             ((''error'', CategoryUnavailable,
               Inr (error_result CategoryUnavailable (server @ '' session is nil'') reqID), []), m)
         | Some session \<Rightarrow>
             let m = obs_effect obs m; ev = [EvCallTool session (route_OriginalName route) args]
             in case obs_ctxErr obs of
                  Some e \<Rightarrow> ((''error'', ''cancelled'', Inl (RpcContextError (ctx_error_text e)), ev), m)
                | None \<Rightarrow>
                    (case obs_callCtxErr obs of
                       Some DeadlineExceeded \<Rightarrow>
                         ((''error'', CategoryTimeout,
                           Inr (error_result CategoryTimeout
                             (''tool call timed out after '' @ ce_fmt_duration env callTimeout) reqID), ev), m)
                     | Some Canceled \<Rightarrow>
                         ((''error'', CategoryUnavailable,
                           Inr (error_result CategoryUnavailable (server @ '' generation stopped'') reqID), ev), m)
                     | None \<Rightarrow>
                         (case obs_answer obs of
                            Inl err \<Rightarrow>
                              ((''error'', CategoryDownstreamError,
                                Inr (error_result CategoryDownstreamError
                                  ''downstream tool execution failed'' reqID), ev), m)
                          | Inr None \<Rightarrow>
                              ((''success'', [], Inr \<lparr>res_IsError = False, res_Text = []\<rparr>, ev), m)
                          | Inr (Some res) \<Rightarrow>
                              (if res_IsError res
                               then ((''tool_error'', CategoryDownstreamError, Inr res, ev), m)
                               else ((''success'', [], Inr res, ev), m)))))"

text \<open>
  The body between the name check and the deferred record: outcome, category, server identifier,
  result and events. The deferred \<^verbatim>\<open>lease.Release()\<close> runs when this part returns, before the record.
\<close>

definition route_body ::
  "('m, 'l) Router \<Rightarrow> 'm call_env \<Rightarrow> string \<Rightarrow> string \<Rightarrow> 'm \<Rightarrow>
   (string \<times> string \<times> string \<times> call_outcome \<times> 'l call_event list) \<times> 'm" where
  "route_body r env publicName args m =
     (case rt_routes r of
        None \<Rightarrow>
          ((''error'', CategoryInternalError, [],
            Inl (RpcInternalError ''router: route lookup not configured''), []), m)
      | Some lookup \<Rightarrow>
          (case lookup publicName of
             None \<Rightarrow>
               ((''error'', CategoryUnavailable, [],
                 Inl (RpcInvalidParams (''unknown tool '' @ quoted publicName)), []), m)
           | Some route \<Rightarrow>
               let serverID = route_ServerID route; reqID = ce_reqID env
               in case rt_leases r of
                    None \<Rightarrow>
                      ((''error'', CategoryInternalError, serverID,
                        Inr (error_result CategoryInternalError ''lease provider not configured'' reqID), []), m)
                  | Some ops \<Rightarrow>
                      (case lo_AcquireLease ops serverID m of
                         (Inl err, m') \<Rightarrow>
                           (if err = ErrConcurrencyLimit
                            then ((''error'', CategoryBusy, serverID,
                                   Inr (error_result CategoryBusy
                                     (''server '' @ quoted serverID @ '' concurrency limit reached'') reqID), []), m')
                            else ((''error'', CategoryUnavailable, serverID,
                                   Inr (error_result CategoryUnavailable
                                     (''server '' @ quoted serverID @ '' is unavailable'') reqID), []), m'))
                       | (Inr lease, m') \<Rightarrow>
                           let ((outcome, cat, res, evs), m'') = call_downstream env ops route args lease m'
                           in ((outcome, cat, serverID, res,
                                [EvAcquired lease] @ evs @ [EvReleased lease]),
                               lo_Release ops lease m''))))"

text \<open>
  \<open>name\<close> is \<^term>\<open>None\<close> for a nil request or nil parameters.
\<close>

definition RouteTool ::
  "('m, 'l) Router \<Rightarrow> 'm call_env \<Rightarrow> string option \<Rightarrow> string \<Rightarrow> 'm \<Rightarrow>
   (call_outcome \<times> 'l call_event list) \<times> 'm" where
  "RouteTool r env name args m =
     (if name = None \<or> name = Some [] then
        ((Inl (RpcInvalidParams ''invalid params: tool name is required''), []), m)
      else if \<not> IsValidPublicToolName (the name) then
        ((Inl (RpcInvalidParams ''invalid params: tool name is not a valid public tool name''), []), m)
      else
        let ((outcome, cat, serverID, res, evs), m') = route_body r env (the name) args m;
            cat = (if ce_ctxErrAtEnd env \<noteq> None \<and> cat = CategoryInternalError then ''cancelled'' else cat);
            rec = \<lparr>call_RequestID = ce_reqID env, call_Time = ce_startedAt env,
                   call_Duration = ce_duration env, call_Tool = the name, call_ServerID = serverID,
                   call_Outcome = outcome, call_ErrorCategory = cat\<rparr>
        in ((res, evs @ [EvRecord rec]), m'))"

section \<open>The interface of the lease provider\<close>

text \<open>
  What the router relies on: an acquired lease counts one among the outstanding ones and is held;
  a failed acquisition changes nothing; releasing a held lease gives its place back.
\<close>

locale lease_provider =
  fixes acquire_lease :: "string \<Rightarrow> 'm \<Rightarrow> (lease_error + 'l) \<times> 'm"
    and release_lease :: "'l \<Rightarrow> 'm \<Rightarrow> 'm"
    and outstanding :: "'m \<Rightarrow> int"
    and holds :: "'l \<Rightarrow> 'm \<Rightarrow> bool"
    and valid :: "'m \<Rightarrow> bool"
  assumes acquire_ok: "valid m \<Longrightarrow> acquire_lease sid m = (Inr l, m') \<Longrightarrow>
      valid m' \<and> holds l m' \<and> outstanding m' = outstanding m + 1"
    and acquire_error: "valid m \<Longrightarrow> acquire_lease sid m = (Inl e, m') \<Longrightarrow> m' = m"
    and release_held: "valid m \<Longrightarrow> holds l m \<Longrightarrow>
      valid (release_lease l m) \<and> outstanding (release_lease l m) = outstanding m - 1"
begin

text \<open>Concurrent work that keeps held leases held and changes the outstanding ones by \<open>d\<close>.\<close>

definition effect_ok :: "('m \<Rightarrow> 'm) \<Rightarrow> int \<Rightarrow> bool" where
  "effect_ok eff d \<longleftrightarrow>
     (\<forall>m. valid m \<longrightarrow> valid (eff m) \<and> outstanding (eff m) = outstanding m + d \<and>
          (\<forall>l. holds l m \<longrightarrow> holds l (eff m)))"

lemma route_body_balanced:
  assumes "rt_leases r = Some ops" and "lo_AcquireLease ops = acquire_lease"
    and "lo_Release ops = release_lease" and "valid m" and "effect_ok (obs_effect (ce_obs env)) d"
    and "route_body r env n args m = ((oc, cat, sid, res, evs), m')"
  shows "valid m' \<and> outstanding m' = outstanding m + (if \<exists>s t a. EvCallTool s t a \<in> set evs then d else 0)"
proof -
  show ?thesis
  proof (cases "rt_routes r = None \<or> (\<exists>f. rt_routes r = Some f \<and> f n = None)")
    case True
    with assms(4,6) show ?thesis by (auto simp: route_body_def)
  next
    case False
    then obtain f route where f: "rt_routes r = Some f" "f n = Some route" by auto
    obtain res' m1 where a: "acquire_lease (route_ServerID route) m = (res', m1)" by fastforce
    show ?thesis
    proof (cases res')
      case (Inl e)
      with a acquire_error [OF assms(4)] have "m1 = m" by blast
      with Inl a f assms show ?thesis by (auto simp: route_body_def Let_def split: if_splits)
    next
      case (Inr l)
      with a acquire_ok [OF assms(4)] have m1: "valid m1" "holds l m1" "outstanding m1 = outstanding m + 1"
        by blast+
      obtain oc' cat' res'' evs' m2 where c: "call_downstream env ops route args l m1 = ((oc', cat', res'', evs'), m2)"
        by (metis prod.collapse)
      have out: "evs = [EvAcquired l] @ evs' @ [EvReleased l]" "m' = release_lease l m2"
        using assms(1,2,3,6) f a Inr c by (auto simp: route_body_def Let_def)
      have "(m2 = m1 \<and> evs' = []) \<or> (m2 = obs_effect (ce_obs env) m1 \<and> (\<exists>s t a. evs' = [EvCallTool s t a]))"
        using c by (auto simp: call_downstream_def Let_def
            split: option.splits ctx_error.splits sum.splits if_splits)
      then show ?thesis
        using out m1 assms(5) release_held [of m2 l] by (auto simp: effect_ok_def)
    qed
  qed
qed

lemma RouteTool_balanced:
  assumes "rt_leases r = Some ops" and "lo_AcquireLease ops = acquire_lease"
    and "lo_Release ops = release_lease" and "valid m" and "effect_ok (obs_effect (ce_obs env)) d"
    and "RouteTool r env name args m = ((res, evs), m')"
  shows "valid m' \<and> outstanding m' = outstanding m + (if \<exists>s t a. EvCallTool s t a \<in> set evs then d else 0)"
proof (cases "name = None \<or> name = Some [] \<or> \<not> IsValidPublicToolName (the name)")
  case True
  then have "m' = m \<and> evs = []" using assms(6) by (auto simp: RouteTool_def split: if_splits)
  with assms(4) show ?thesis by simp
next
  case False
  obtain oc cat sid res' evs' m1 where b: "route_body r env (the name) args m = ((oc, cat, sid, res', evs'), m1)"
    by (metis prod.collapse)
  with False assms(6) have "m' = m1" "\<exists>rec. evs = evs' @ [EvRecord rec]"
    by (auto simp: RouteTool_def Let_def)
  with route_body_balanced [OF assms(1-5) b] show ?thesis by auto
qed

end

section \<open>Events and outcomes of the body\<close>

lemma call_downstream_shape:
  assumes "call_downstream env ops route args l m = ((oc, cat, res, evs), m')"
  shows "evs = [] \<or> (\<exists>session. lo_Session ops l = Some session \<and>
      evs = [EvCallTool session (route_OriginalName route) args])"
    and "(oc = ''success'' \<longleftrightarrow> (\<exists>x. res = Inr x \<and> \<not> res_IsError x)) \<and> (oc = ''success'' \<longleftrightarrow> cat = []) \<and>
      (oc = ''tool_error'' \<longrightarrow> (\<exists>x. obs_answer (ce_obs env) = Inr (Some x) \<and> res = Inr x)) \<and>
      (oc = ''success'' \<longrightarrow> obs_answer (ce_obs env) = Inr None \<or>
         (\<exists>x. obs_answer (ce_obs env) = Inr (Some x) \<and> res = Inr x))"
  using assms
  by (auto simp: call_downstream_def Let_def error_result_def CategoryUnavailable_def
      CategoryTimeout_def CategoryDownstreamError_def
      split: option.splits ctx_error.splits sum.splits if_splits)

lemma route_body_cases:
  assumes "route_body r env n args m = ((oc, cat, sid, res, pre), m')"
  obtains (early) "pre = []" "oc = ''error''" "cat \<noteq> []" "\<forall>x. res = Inr x \<longrightarrow> res_IsError x"
  | (leased) lookup route ops lease m1 evs m2 where "rt_routes r = Some lookup" "lookup n = Some route"
      "rt_leases r = Some ops" "lo_AcquireLease ops (route_ServerID route) m = (Inr lease, m1)"
      "sid = route_ServerID route" "call_downstream env ops route args lease m1 = ((oc, cat, res, evs), m2)"
      "pre = [EvAcquired lease] @ evs @ [EvReleased lease]" "m' = lo_Release ops lease m2"
proof (cases "\<exists>lookup route ops lease m1. rt_routes r = Some lookup \<and> lookup n = Some route \<and>
    rt_leases r = Some ops \<and> lo_AcquireLease ops (route_ServerID route) m = (Inr lease, m1)")
  case True
  then obtain lookup route ops lease m1 where *: "rt_routes r = Some lookup" "lookup n = Some route"
    "rt_leases r = Some ops" "lo_AcquireLease ops (route_ServerID route) m = (Inr lease, m1)"
    by blast
  obtain oc' cat' res' evs m2 where c: "call_downstream env ops route args lease m1 = ((oc', cat', res', evs), m2)"
    by (metis prod.collapse)
  with * assms have "oc' = oc" "cat' = cat" "res' = res" "sid = route_ServerID route"
    "pre = [EvAcquired lease] @ evs @ [EvReleased lease]" "m' = lo_Release ops lease m2"
    by (auto simp: route_body_def Let_def)
  with * c show ?thesis by (intro leased [OF *(1) *(2) *(3) *(4)]) auto
next
  case False
  with assms show ?thesis
    by (intro early) (auto simp: route_body_def Let_def error_result_def CategoryUnavailable_def
        CategoryInternalError_def CategoryBusy_def split: option.splits prod.splits sum.splits if_splits)
qed

lemma route_body_events:
  assumes "route_body r env n args m = ((oc, cat, sid, res, pre), m')"
  shows "pre = [] \<or>
       (\<exists>lookup route ops lease m1. rt_routes r = Some lookup \<and> lookup n = Some route \<and>
          rt_leases r = Some ops \<and> lo_AcquireLease ops (route_ServerID route) m = (Inr lease, m1) \<and>
          sid = route_ServerID route \<and>
          (pre = [EvAcquired lease, EvReleased lease] \<or>
           (\<exists>session. lo_Session ops lease = Some session \<and>
              pre = [EvAcquired lease, EvCallTool session (route_OriginalName route) args, EvReleased lease])))"
  using assms
proof (cases rule: route_body_cases)
  case early
  then show ?thesis by simp
next
  case (leased lookup route ops lease m1 evs m2)
  with call_downstream_shape(1) [OF leased(6)] show ?thesis by auto
qed

lemma route_body_outcome:
  assumes "route_body r env n args m = ((oc, cat, sid, res, pre), m')"
  shows "(oc = ''success'' \<longleftrightarrow> (\<exists>x. res = Inr x \<and> \<not> res_IsError x)) \<and> (oc = ''success'' \<longleftrightarrow> cat = []) \<and>
      (oc = ''tool_error'' \<longrightarrow> (\<exists>x. obs_answer (ce_obs env) = Inr (Some x) \<and> res = Inr x)) \<and>
      (oc = ''success'' \<longrightarrow> obs_answer (ce_obs env) = Inr None \<or>
         (\<exists>x. obs_answer (ce_obs env) = Inr (Some x) \<and> res = Inr x))"
  using assms
proof (cases rule: route_body_cases)
  case early
  then show ?thesis by auto
next
  case (leased lookup route ops lease m1 evs m2)
  from call_downstream_shape(2) [OF leased(6)] show ?thesis .
qed

section \<open>Properties\<close>

text \<open>
  C10. The protocol of a routed call. A request without a valid public name has no effect at all. Any
  other one ends with exactly one call record; a lease that is acquired is released exactly once, before
  the record; the downstream session is called at most once, between the two, with the original name
  of the route that the public name resolves to, on that route's server.
\<close>

theorem RouteTool_protocol:
  assumes "RouteTool r env name args m = ((res, evs), m')"
  shows "if name = None \<or> \<not> IsValidPublicToolName (the name) then evs = [] \<and> m' = m
    else \<exists>rec pre. evs = pre @ [EvRecord rec] \<and> call_Tool rec = the name \<and>
      (pre = [] \<or>
       (\<exists>lookup route ops lease m1. rt_routes r = Some lookup \<and> lookup (the name) = Some route \<and>
          rt_leases r = Some ops \<and> lo_AcquireLease ops (route_ServerID route) m = (Inr lease, m1) \<and>
          call_ServerID rec = route_ServerID route \<and>
          (pre = [EvAcquired lease, EvReleased lease] \<or>
           (\<exists>session. lo_Session ops lease = Some session \<and>
              pre = [EvAcquired lease, EvCallTool session (route_OriginalName route) args, EvReleased lease]))))"
proof (cases "name = None \<or> \<not> IsValidPublicToolName (the name)")
  case True
  then show ?thesis using assms by (auto simp: RouteTool_def split: if_splits)
next
  case False
  then obtain n where n: "name = Some n" "IsValidPublicToolName n" "n \<noteq> []"
    by (auto simp: IsValidPublicToolName_def split: if_splits)
  obtain oc cat sid res' pre m1 where b: "route_body r env n args m = ((oc, cat, sid, res', pre), m1)"
    by (metis prod.collapse)
  obtain rec where rec: "evs = pre @ [EvRecord rec]" "call_Tool rec = n" "call_ServerID rec = sid"
    using assms n b by (auto simp: RouteTool_def Let_def)
  have "pre = [] \<or>
       (\<exists>lookup route ops lease m1. rt_routes r = Some lookup \<and> lookup n = Some route \<and>
          rt_leases r = Some ops \<and> lo_AcquireLease ops (route_ServerID route) m = (Inr lease, m1) \<and>
          sid = route_ServerID route \<and>
          (pre = [EvAcquired lease, EvReleased lease] \<or>
           (\<exists>session. lo_Session ops lease = Some session \<and>
              pre = [EvAcquired lease, EvCallTool session (route_OriginalName route) args, EvReleased lease])))"
    using b by (rule route_body_events)
  with n rec show ?thesis by simp
qed

text \<open>
  The recorded outcome is right: \<^verbatim>\<open>success\<close> is recorded, with an empty error category, exactly when the
  caller gets a result that is not an error; every error result the router makes itself carries its
  category; a result of the downstream server is handed on unchanged.
\<close>

theorem RouteTool_outcome:
  assumes "RouteTool r env name args m = ((res, evs), m')" and "EvRecord rec \<in> set evs"
  shows "(call_Outcome rec = ''success'' \<longleftrightarrow> (\<exists>x. res = Inr x \<and> \<not> res_IsError x)) \<and>
    (call_Outcome rec = ''success'' \<longleftrightarrow> call_ErrorCategory rec = []) \<and>
    (call_Outcome rec = ''tool_error'' \<longrightarrow> (\<exists>x. obs_answer (ce_obs env) = Inr (Some x) \<and> res = Inr x)) \<and>
    (call_Outcome rec = ''success'' \<longrightarrow> obs_answer (ce_obs env) = Inr None \<or>
       (\<exists>x. obs_answer (ce_obs env) = Inr (Some x) \<and> res = Inr x))"
proof -
  from assms have v: "name \<noteq> None" "name \<noteq> Some []" "IsValidPublicToolName (the name)"
    by (auto simp: RouteTool_def split: if_splits)
  obtain oc cat sid res' pre m1 where b: "route_body r env (the name) args m = ((oc, cat, sid, res', pre), m1)"
    by (metis prod.collapse)
  have pre: "EvRecord x \<notin> set pre" for x
    using route_body_events [OF b] by auto
  from assms v b pre have rec: "call_Outcome rec = oc" "res = res'"
    "call_ErrorCategory rec = (if ce_ctxErrAtEnd env \<noteq> None \<and> cat = CategoryInternalError then ''cancelled'' else cat)"
    by (auto simp: RouteTool_def Let_def)
  from route_body_outcome [OF b] show ?thesis
    by (auto simp: rec CategoryInternalError_def)
qed

text \<open>
  The text of a downstream failure never reaches the caller, the call record or the lease provider:
  two runs that differ only in the error text of the downstream call are the same.
\<close>

theorem RouteTool_hides_downstream_error:
  assumes "obs_answer (ce_obs env) = Inl err"
  shows "RouteTool r (env\<lparr>ce_obs := (ce_obs env)\<lparr>obs_answer := Inl err'\<rparr>\<rparr>) name args m =
    RouteTool r env name args m"
proof -
  have "call_downstream (env\<lparr>ce_obs := (ce_obs env)\<lparr>obs_answer := Inl err'\<rparr>\<rparr>) ops route args l m =
      call_downstream env ops route args l m" for ops :: "('a, 'b) lease_ops" and route l m
    using assms by (auto simp: call_downstream_def Let_def split: option.split ctx_error.split)
  then have "route_body r (env\<lparr>ce_obs := (ce_obs env)\<lparr>obs_answer := Inl err'\<rparr>\<rparr>) n args m =
      route_body r env n args m" for n
    by (simp add: route_body_def Let_def split: option.split prod.split sum.split)
  then show ?thesis by (simp add: RouteTool_def)
qed

section \<open>Witnesses\<close>

text \<open>A provider that counts its leases and a route table with one tool.\<close>

definition counting_ops :: "(nat, string) lease_ops" where
  "counting_ops =
     \<lparr>lo_AcquireLease = (\<lambda>sid m. (Inr sid, m + 1)), lo_Release = (\<lambda>l m. m - 1),
      lo_Session = (\<lambda>l. Some 7), lo_CallTimeout = (\<lambda>l m. 60 * second)\<rparr>"

definition demo_router :: "(nat, string) Router" where
  "demo_router =
     \<lparr>rt_routes = Some (\<lambda>n. if n = ''fs__read''
        then Some \<lparr>route_PublicName = n, route_ServerID = ''fs'', route_OriginalName = ''read''\<rparr> else None),
      rt_leases = Some counting_ops\<rparr>"

definition demo_call :: "(string + CallToolResult option) \<Rightarrow> nat call_env" where
  "demo_call answer =
     \<lparr>ce_reqID = GenerateRequestID (Some [0, 255, 16, 1, 2, 3, 4, 5]) 0, ce_startedAt = 0, ce_duration = 3,
      ce_ctxErrAtEnd = None,
      ce_obs = \<lparr>obs_answer = answer, obs_ctxErr = None, obs_callCtxErr = None, obs_effect = (\<lambda>m. m)\<rparr>,
      ce_fmt_duration = (\<lambda>_. ''1m0s'')\<rparr>"

definition demo_answer :: "CallToolResult" where
  "demo_answer = \<lparr>res_IsError = False, res_Text = ''hello''\<rparr>"

lemma demo_route_success:
  "RouteTool demo_router (demo_call (Inr (Some demo_answer))) (Some ''fs__read'') ''{}'' 4 =
     ((Inr demo_answer,
       [EvAcquired ''fs'', EvCallTool 7 ''read'' ''{}'', EvReleased ''fs'',
        EvRecord \<lparr>call_RequestID = ''req-00ff100102030405'', call_Time = 0, call_Duration = 3,
          call_Tool = ''fs__read'', call_ServerID = ''fs'', call_Outcome = ''success'', call_ErrorCategory = []\<rparr>]), 4)"
  by code_simp

theorem RouteTool_protocol_witness:
  "\<exists>rec pre. snd (fst (RouteTool demo_router (demo_call (Inr (Some demo_answer))) (Some ''fs__read'') ''{}'' 4)) =
     pre @ [EvRecord rec] \<and> call_Tool rec = ''fs__read''"
proof -
  have "IsValidPublicToolName ''fs__read''" by code_simp
  then show ?thesis using RouteTool_protocol [OF demo_route_success] unfolding demo_route_success by auto
qed

theorem RouteTool_outcome_witness:
  "\<exists>rec. EvRecord rec \<in> set (snd (fst (RouteTool demo_router (demo_call (Inr (Some demo_answer)))
      (Some ''fs__read'') ''{}'' 4))) \<and> call_Outcome rec = ''success'' \<and> call_ErrorCategory rec = []"
  unfolding demo_route_success using RouteTool_outcome [OF demo_route_success]
  by (auto simp: demo_answer_def)

theorem RouteTool_hides_downstream_error_witness:
  "RouteTool demo_router (demo_call (Inl ''token=abc'')) (Some ''fs__read'') ''{}'' 0 =
   RouteTool demo_router (demo_call (Inl ''dial failed'')) (Some ''fs__read'') ''{}'' 0"
  using RouteTool_hides_downstream_error [of "demo_call (Inl ''dial failed'')" "''dial failed''" demo_router
      "''token=abc''" "Some ''fs__read''" "''{}''" 0]
  by (simp add: demo_call_def)

end
