(* ===== verification/Coordinator_Invariants.thy ===== *)
theory Coordinator_Invariants
  imports Coordinator
begin

text \<open>
  What holds in every reachable state of a coordinator: a result of an older discovery is never
  committed, a ready coordinator without a pending reconciliation runs a connection with the
  current connection settings and has last published its tools with the current filter, and a
  stopped coordinator publishes nothing.

  To state what was published, the publisher is wrapped so that it keeps the list of calls
  (\<open>log_ops\<close>); the wrapped operations behave as before.
\<close>

definition log_ops :: "'p pub_ops \<Rightarrow> ('p \<times> pub_op list) pub_ops" where
  "log_ops ops =
     \<lparr>po_PublishServer = (\<lambda>sid tools dis (p, l).
        let (r, p') = po_PublishServer ops sid tools dis p
        in (r, (p', l @ [OpPublish sid (map Some tools) dis]))),
      po_RemoveServer = (\<lambda>sid (p, l).
        let (r, p') = po_RemoveServer ops sid p in (r, (p', l @ [OpRemove sid]))),
      po_error = po_error ops\<rparr>"

text \<open>The publisher takes the tools of this server: it fails for invalid identifiers only.\<close>

definition publisher_accepts :: "'p pub_ops \<Rightarrow> string \<Rightarrow> bool" where
  "publisher_accepts ops sid \<longleftrightarrow> (\<forall>tools dis p. snd (fst (po_PublishServer ops sid tools dis p)) = None)"

section \<open>Comparison of configurations\<close>

definition same_connection :: "ResolvedServer \<Rightarrow> ResolvedServer \<Rightarrow> bool" where
  "same_connection a b \<longleftrightarrow> diffConfig a b \<noteq> changeConnection"

lemma slicesEqual_eq [simp]: "slicesEqual a b \<longleftrightarrow> a = b"
  by (induction a b rule: slicesEqual.induct) auto

lemma mapsEqual_refl: "wf_map a \<Longrightarrow> mapsEqual a a"
  by (auto simp: mapsEqual_def list_all_iff)

lemma mapsEqual_trans: "mapsEqual a b \<Longrightarrow> mapsEqual b c \<Longrightarrow> mapsEqual a c"
  by (fastforce simp: mapsEqual_def list_all_iff dest: map_of_SomeD)

lemma toolSetsEqual_iff:
  assumes "wf_map a" and "wf_map b"
  shows "toolSetsEqual a b \<longleftrightarrow> set (mkeys a) = set (mkeys b)"
proof -
  have "length a = card (set (mkeys a))" "length b = card (set (mkeys b))"
    using assms by (metis distinct_card length_map)+
  moreover have "list_all (\<lambda>(k, _). mhas b k) a \<longleftrightarrow> set (mkeys a) \<subseteq> set (mkeys b)"
    by (force simp: list_all_iff)
  ultimately show ?thesis
    by (metis List.finite_set card_subset_eq order_refl toolSetsEqual_def)
qed

lemma mapsEqual_iff:
  assumes "wf_map a" and "wf_map b"
  shows "mapsEqual a b \<longleftrightarrow> map_of a = map_of b"
proof
  assume eq: "mapsEqual a b"
  then have "set a \<subseteq> set b" by (auto simp: mapsEqual_def list_all_iff dest: map_of_SomeD)
  moreover have "card (set a) = card (set b)"
    using eq assms by (simp add: mapsEqual_def distinct_card distinct_map)
  ultimately have "set a = set b" by (simp add: card_subset_eq)
  with assms show "map_of a = map_of b" by (simp add: map_of_inject_set)
next
  assume "map_of a = map_of b"
  with assms have "set a = set b" by (simp add: map_of_inject_set)
  moreover from this have "length a = length b"
    using assms by (metis distinct_card distinct_map)
  ultimately show "mapsEqual a b" using assms by (auto simp: mapsEqual_def list_all_iff)
qed

lemma same_connection_refl: "wf_server a \<Longrightarrow> same_connection a a"
  by (simp add: same_connection_def diffConfig_def wf_server_def mapsEqual_refl Let_def)

lemma same_connection_trans:
  "same_connection a b \<Longrightarrow> same_connection b c \<Longrightarrow> same_connection a c"
  by (auto simp: same_connection_def diffConfig_def Let_def split: if_splits
      dest: mapsEqual_trans)

lemma diffConfig_tools:
  assumes "wf_server a" and "wf_server b" and "diffConfig a b \<in> {changeNone, changeTimeoutOnly}"
  shows "set (mkeys (rs_DisabledTools a)) = set (mkeys (rs_DisabledTools b))"
  using assms toolSetsEqual_iff [of "rs_DisabledTools a" "rs_DisabledTools b"]
  by (auto simp: diffConfig_def Let_def wf_server_def split: if_splits)

section \<open>The invariant\<close>

fun pc_target :: "coord_pc \<Rightarrow> (int \<times> ResolvedServer) option" where
  "pc_target (PcOldGen rv cfg _) = Some (rv, cfg)"
| "pc_target (PcDial rv cfg _) = Some (rv, cfg)"
| "pc_target (PcDiscover rv cfg _ _ _) = Some (rv, cfg)"
| "pc_target (PcCommit rv cfg _ _ _ _) = Some (rv, cfg)"
| "pc_target (PcRefresh _ _ _ rv cfg) = Some (rv, cfg)"
| "pc_target (PcRefreshCommit _ _ _ rv cfg _) = Some (rv, cfg)"
| "pc_target (PcDrain _ pc) = pc_target pc"
| "pc_target _ = None"

fun ready_pc :: "coord_pc \<Rightarrow> bool" where
  "ready_pc (PcReady _ _ _) = True"
| "ready_pc (PcRefresh _ _ _ _ _) = True"
| "ready_pc (PcRefreshCommit _ _ _ _ _ _) = True"
| "ready_pc _ = False"

fun exit_pc :: "coord_pc \<Rightarrow> bool" where
  "exit_pc (PcDrain _ pc) = exit_pc pc"
| "exit_pc (PcFinish _ _) = True"
| "exit_pc PcLoop = True"
| "exit_pc PcReturned = True"
| "exit_pc _ = False"

definition pc_ok :: "Coordinator \<Rightarrow> coord_pc \<Rightarrow> bool" where
  "pc_ok c pc \<longleftrightarrow>
     (\<forall>rv cfg. pc_target pc = Some (rv, cfg) \<longrightarrow>
        rv \<le> co_rev c \<and> (rv = co_rev c \<longrightarrow> cfg = co_cfg c)) \<and>
     (co_state c = StateReady \<longrightarrow> ready_pc pc \<or> co_cancelled c \<and> exit_pc pc)"

definition connection_ok :: "(int, ResolvedServer) gomap \<Rightarrow> 'p coord_world \<Rightarrow> bool" where
  "connection_ok hist w \<longleftrightarrow>
     (co_state (cw_co w) = StateReady \<longrightarrow>
        (\<exists>ref g cfg. co_currentGen (cw_co w) = Some ref \<and> mget (cw_gens w) ref = Some g \<and>
           mget hist (gen_revision g) = Some cfg \<and>
           (co_reconcileCh (cw_co w) \<or> same_connection cfg (co_cfg (cw_co w)))))"

definition filter_ok :: "('p \<times> pub_op list) coord_world \<Rightarrow> bool" where
  "filter_ok w \<longleftrightarrow>
     (co_state (cw_co w) = StateReady \<and> \<not> co_reconcileCh (cw_co w) \<and> co_cachedTools (cw_co w) \<noteq> [] \<longrightarrow>
        (\<exists>l dis. snd (cw_pub w) = l @ [OpPublish (co_serverID (cw_co w)) (map Some (co_cachedTools (cw_co w))) dis] \<and>
           set dis = set (mkeys (rs_DisabledTools (co_cfg (cw_co w))))))"

definition history_ok :: "(int, ResolvedServer) gomap \<Rightarrow> 'p coord_world \<Rightarrow> bool" where
  "history_ok hist w \<longleftrightarrow>
     mget hist (co_rev (cw_co w)) = Some (co_cfg (cw_co w)) \<and> wf_server (co_cfg (cw_co w)) \<and>
     (\<forall>ref g. mget (cw_gens w) ref = Some g \<longrightarrow> gen_revision g \<le> co_rev (cw_co w))"

definition co_inv :: "string \<Rightarrow> (int, ResolvedServer) gomap \<Rightarrow> ('p \<times> pub_op list) coord_world \<Rightarrow> coord_pc \<Rightarrow> bool" where
  "co_inv sid hist w pc \<longleftrightarrow>
     co_serverID (cw_co w) = sid \<and> pc_ok (cw_co w) pc \<and> connection_ok hist w \<and> filter_ok w \<and> history_ok hist w"

lemmas co_inv_defs = co_inv_def pc_ok_def connection_ok_def filter_ok_def history_ok_def

section \<open>Updates of the generation store\<close>

lemma update_gen_co [simp]:
  "cw_co (update_gen ref f w) = cw_co w" "cw_pub (update_gen ref f w) = cw_pub w"
  by (simp_all add: update_gen_def split: option.splits)

lemma update_gen_get:
  "mget (cw_gens (update_gen ref f w)) r =
     (if r = ref then map_option f (mget (cw_gens w) r) else mget (cw_gens w) r)"
  by (auto simp: update_gen_def split: option.splits)

lemma co_inv_update_gen:
  assumes "co_inv sid hist w pc" and "\<And>g. gen_revision (f g) = gen_revision g"
  shows "co_inv sid hist (update_gen ref f w) pc"
proof -
  have "connection_ok hist (update_gen ref f w)"
    using assms by (fastforce simp: co_inv_def connection_ok_def update_gen_get)
  moreover have "history_ok hist (update_gen ref f w)"
    using assms by (auto simp: co_inv_def history_ok_def update_gen_get split: if_splits)
  ultimately show ?thesis using assms(1) by (auto simp: co_inv_def filter_ok_def)
qed

lemma newGeneration_revision [simp]:
  "gen_revision (newGeneration gid sid sess proc maxC timeout rv) = rv"
  by (simp add: newGeneration_def)

lemma close_revision [simp]: "gen_revision (gen_Close g) = gen_revision g"
  by (simp add: gen_Close_def)

lemma drain_revision [simp]: "gen_revision (snd (drain_start g)) = gen_revision g"
  by (simp add: drain_start_def Let_def)

lemma release_revision [simp]: "gen_revision (release g) = gen_revision g"
  by (simp add: release_def Let_def)

lemma drain_and_close_opt_co [simp]:
  "cw_co (drain_and_close_opt ref w) = cw_co w" "cw_pub (drain_and_close_opt ref w) = cw_pub w"
  by (simp_all add: drain_and_close_opt_def drain_and_close_def split: option.splits)

lemma co_inv_drain: "co_inv sid hist w pc \<Longrightarrow> co_inv sid hist (drain_and_close_opt ref w) pc"
  by (auto simp: drain_and_close_opt_def drain_and_close_def intro!: co_inv_update_gen split: option.splits)

lemma cancel_op_fields [simp]:
  "cw_co (cancel_op oper w) = cw_co w" "cw_pub (cancel_op oper w) = cw_pub w"
  "cw_gens (cancel_op oper w) = cw_gens w" "cw_closed (cancel_op oper w) = cw_closed w"
  by (simp_all add: cancel_op_def split: option.splits)

lemma closeAttempt_fields [simp]:
  "cw_co (closeAttempt sess proc w) = cw_co w" "cw_pub (closeAttempt sess proc w) = cw_pub w"
  "cw_gens (closeAttempt sess proc w) = cw_gens w"
  by (simp_all add: closeAttempt_def)

text \<open>The invariant reads the coordinator, the publisher and the generations only.\<close>

lemma co_inv_cong:
  "cw_co w = cw_co w' \<Longrightarrow> cw_pub w = cw_pub w' \<Longrightarrow> cw_gens w = cw_gens w' \<Longrightarrow>
   co_inv sid hist w pc = co_inv sid hist w' pc"
  by (simp add: co_inv_defs)

section \<open>The steps of the goroutine\<close>

lemma publish_log:
  assumes "publisher_accepts ops sid"
  obtains snap p' where "po_PublishServer (log_ops ops) sid tools dis q =
    ((snap, None), (p', snd q @ [OpPublish sid (map Some tools) dis]))"
proof -
  obtain r p' where r: "po_PublishServer ops sid tools dis (fst q) = (r, p')" by fastforce
  moreover have "snd r = None" using assms r unfolding publisher_accepts_def by (metis fst_conv)
  ultimately show ?thesis
    by (intro that [of "fst r" p']) (simp add: log_ops_def split_def, metis prod.collapse)
qed

text \<open>
  A change that leaves the server, the desired configuration, the generations and the
  publisher alone and does not make the coordinator ready keeps the invariant.
\<close>

lemma co_inv_leave:
  assumes "co_inv sid hist w pc" and "w' = w\<lparr>cw_co := c', cw_cancelledOps := ops'\<rparr>"
    and "co_serverID c' = sid" "co_desired c' = co_desired (cw_co w)"
    and "co_state c' \<noteq> StateReady"
    and "pc_target pc' = None \<or> pc_target pc' = pc_target pc \<or>
      pc_target pc' = Some (co_rev (cw_co w), co_cfg (cw_co w))"
  shows "co_inv sid hist w' pc'"
  using assms by (auto simp: co_inv_defs)

text \<open>A change of fields that the invariant does not read.\<close>

lemma co_inv_same:
  assumes "co_inv sid hist w pc" and "w' = w\<lparr>cw_co := c'\<rparr>"
    and "co_serverID c' = sid" "co_desired c' = co_desired (cw_co w)" "co_state c' = co_state (cw_co w)"
    and "co_currentGen c' = co_currentGen (cw_co w)" "co_cachedTools c' = co_cachedTools (cw_co w)"
    and "co_cancelled c' = co_cancelled (cw_co w)" "co_reconcileCh c' = co_reconcileCh (cw_co w)"
    and "pc_ok (cw_co w) pc'"
  shows "co_inv sid hist w' pc'"
  using assms by (auto simp: co_inv_defs)

lemma co_inv_commit:
  assumes inv: "co_inv sid hist w (PcCommit rv cfg oper sess proc tools)"
    and acc: "publisher_accepts ops sid"
    and com: "commit_connect (log_ops ops) now rv cfg oper sess proc tools w = (pc', w')"
  shows "co_inv sid hist w' pc'"
proof (cases "targetCurrent (cw_co w) rv")
  case False
  with com have "pc' = PcFinish rv oper" "w' = closeAttempt sess proc w"
    by (simp_all add: commit_connect_def Let_def)
  moreover have "co_state (cw_co w) \<noteq> StateReady" using inv by (auto simp: co_inv_def pc_ok_def)
  ultimately show ?thesis using inv by (auto simp: co_inv_defs)
next
  case True
  have sid: "co_serverID (cw_co w) = sid" and "rv = co_rev (cw_co w)" "cfg = co_cfg (cw_co w)"
    using inv True by (auto simp: co_inv_def pc_ok_def targetCurrent_def)
  note eqs = this(2,3)
  obtain snap p' where pub: "po_PublishServer (log_ops ops) sid tools (disabledNames (rs_DisabledTools cfg)) (cw_pub w) =
      ((snap, None), (p', snd (cw_pub w) @ [OpPublish sid (map Some tools) (disabledNames (rs_DisabledTools cfg))]))"
    by (rule publish_log [OF acc])
  have hist: "history_ok hist w" using inv by (simp add: co_inv_def)
  then have "same_connection (co_cfg (cw_co w)) (co_cfg (cw_co w))"
    by (intro same_connection_refl) (simp add: history_ok_def)
  with com pub True sid eqs hist show ?thesis
    by (auto simp: commit_connect_def Let_def targetCurrent_def co_inv_defs disabledNames_def split: if_splits)
qed

lemma co_inv_refresh:
  assumes inv: "co_inv sid hist w (PcRefreshCommit ref rv oper trev cfg tools)"
    and acc: "publisher_accepts ops sid"
  shows "co_inv sid hist (refresh_commit (log_ops ops) ref trev cfg tools w) (PcReady ref rv oper)"
proof -
  let ?c = "cw_co w"
  have base: "co_inv sid hist w (PcReady ref rv oper)" using inv by (auto simp: co_inv_defs)
  show ?thesis
  proof (cases "co_stopped ?c \<or> co_currentGen ?c \<noteq> Some ref \<or> co_state ?c \<noteq> StateReady \<or> co_rev ?c \<noteq> trev")
    case True
    with base show ?thesis by (simp add: refresh_commit_def Let_def)
  next
    case False
    then have sid: "co_serverID ?c = sid" and cfg: "cfg = co_cfg ?c"
      using inv by (auto simp: co_inv_def pc_ok_def)
    obtain snap p' where pub: "po_PublishServer (log_ops ops) sid tools (disabledNames (rs_DisabledTools cfg)) (cw_pub w) =
      ((snap, None), (p', snd (cw_pub w) @ [OpPublish sid (map Some tools) (disabledNames (rs_DisabledTools cfg))]))"
      by (rule publish_log [OF acc])
    with False sid cfg base show ?thesis
      by (auto simp: refresh_commit_def Let_def co_inv_defs disabledNames_def)
  qed
qed

lemma co_inv_move:
  assumes inv: "co_inv sid hist w pc" and acc: "publisher_accepts ops sid"
    and mv: "co_move (log_ops ops) w pc w' pc'"
  shows "co_inv sid hist w' pc'"
  using mv
proof cases
  case (top oper)
  then show ?thesis
    using inv by (auto simp: run_top_def handleDisabled_begin_def handleConnecting_begin_def Let_def co_inv_defs
        split: if_splits)
next
  case (disable ref)
  then have "co_state (cw_co w) \<noteq> StateReady" using inv by (auto simp: co_inv_def pc_ok_def)
  with disable inv show ?thesis by (auto simp: handleDisabled_remove_def co_inv_defs)
next
  case (drained ref)
  then have "co_inv sid hist w pc'" using inv by (auto simp: co_inv_defs)
  then show ?thesis using drained co_inv_drain by blast
next
  case (commit now rv cfg oper sess proc tools)
  with inv acc show ?thesis by (auto intro: co_inv_commit)
next
  case (refresh_publish ref rv oper trev cfg tools)
  with inv acc show ?thesis by (auto intro: co_inv_refresh)
next
  case (dialed rv cfg oper result)
  then have "co_state (cw_co w) \<noteq> StateReady" using inv by (auto simp: co_inv_def pc_ok_def)
  with dialed inv show ?thesis
    by (auto simp: session_created_def co_inv_defs split: sum.splits if_splits)
next
  case (discovered rv cfg oper sess proc result)
  then have "co_state (cw_co w) \<noteq> StateReady" using inv by (auto simp: co_inv_def pc_ok_def)
  with discovered inv show ?thesis
    by (auto simp: tools_listed_def Let_def co_inv_defs split: sum.splits if_splits)
qed (use inv in \<open>auto simp: co_inv_defs take_old_gen_def finish_attempt_def Let_def ready_reset_def
      ready_reconcile_def ready_disconnected_def refresh_begin_def failure_record_def failure_backoff_def
      split: if_splits\<close>)

section \<open>The steps of other goroutines\<close>

lemma republish_cached_fields [simp]:
  "cw_gens (republish_cached ops d w) = cw_gens w"
  "co_serverID (cw_co (republish_cached ops d w)) = co_serverID (cw_co w)"
  "co_desired (cw_co (republish_cached ops d w)) = co_desired (cw_co w)"
  "co_state (cw_co (republish_cached ops d w)) = co_state (cw_co w)"
  "co_currentGen (cw_co (republish_cached ops d w)) = co_currentGen (cw_co w)"
  "co_cachedTools (cw_co (republish_cached ops d w)) = co_cachedTools (cw_co w)"
  "co_cancelled (cw_co (republish_cached ops d w)) = co_cancelled (cw_co w)"
  "co_reconcileCh (cw_co (republish_cached ops d w)) = co_reconcileCh (cw_co w)"
  "co_stopped (cw_co (republish_cached ops d w)) = co_stopped (cw_co w)"
  by (auto simp: republish_cached_def Let_def split_def)

lemma republish_cached_log:
  assumes "publisher_accepts ops (co_serverID (cw_co w))"
    and "co_state (cw_co w) = StateReady" and "co_cachedTools (cw_co w) \<noteq> []"
  shows "snd (cw_pub (republish_cached (log_ops ops) d w)) = snd (cw_pub w) @
    [OpPublish (co_serverID (cw_co w)) (map Some (co_cachedTools (cw_co w)))
       (disabledNames (rs_DisabledTools (des_ResolvedConfig d)))]"
proof -
  obtain snap p' where "po_PublishServer (log_ops ops) (co_serverID (cw_co w)) (co_cachedTools (cw_co w))
      (disabledNames (rs_DisabledTools (des_ResolvedConfig d))) (cw_pub w) =
    ((snap, None), (p', snd (cw_pub w) @ [OpPublish (co_serverID (cw_co w))
       (map Some (co_cachedTools (cw_co w))) (disabledNames (rs_DisabledTools (des_ResolvedConfig d)))]))"
    by (rule publish_log [OF assms(1)])
  with assms(2,3) show ?thesis by (simp add: republish_cached_def Let_def)
qed

text \<open>What \<^verbatim>\<open>UpdateConfig\<close> does, by the kind of change.\<close>

definition timeout_world :: "DesiredServer \<Rightarrow> 'p coord_world \<Rightarrow> 'p coord_world" where
  "timeout_world new w =
     (case co_currentGen (cw_co w) of None \<Rightarrow> w
      | Some ref \<Rightarrow> update_gen ref (\<lambda>g. SetCallTimeout g (rs_CallTimeout (des_ResolvedConfig new))) w)"

definition desired_world :: "DesiredServer \<Rightarrow> 'p coord_world \<Rightarrow> 'p coord_world" where
  "desired_world new w =
     cancel_op (if co_operationRevision (cw_co w) \<noteq> des_Revision new then co_operation (cw_co w) else None)
       (w\<lparr>cw_co := (cw_co w)\<lparr>co_desired := new\<rparr>\<rparr>)"

lemma UpdateConfig_eq:
  "snd (UpdateConfig ops new w) =
     (case diffConfig (co_cfg (cw_co w)) (des_ResolvedConfig new) of
        changeNone \<Rightarrow> w
      | changeToolsOnly \<Rightarrow> republish_cached ops new (desired_world new w)
      | changeTimeoutOnly \<Rightarrow> timeout_world new (desired_world new w)
      | changeToolsAndTimeout \<Rightarrow> republish_cached ops new (timeout_world new (desired_world new w))
      | changeConnection \<Rightarrow> set_co (\<lambda>c. c\<lparr>co_reconcileCh := True\<rparr>) (desired_world new w))"
  by (simp add: UpdateConfig_def timeout_world_def desired_world_def Let_def
      split: configChangeType.split option.split)

lemma desired_world_fields [simp]:
  "cw_co (desired_world new w) = (cw_co w)\<lparr>co_desired := new\<rparr>"
  "cw_pub (desired_world new w) = cw_pub w" "cw_gens (desired_world new w) = cw_gens w"
  by (simp_all add: desired_world_def)

lemma timeout_world_fields [simp]:
  "cw_co (timeout_world new w) = cw_co w" "cw_pub (timeout_world new w) = cw_pub w"
  by (simp_all add: timeout_world_def split: option.splits)

lemma timeout_world_revision:
  "mget (cw_gens (timeout_world new w)) ref = Some g \<Longrightarrow>
     \<exists>g'. mget (cw_gens w) ref = Some g' \<and> gen_revision g = gen_revision g'"
  "mget (cw_gens w) ref = Some g' \<Longrightarrow>
     \<exists>g. mget (cw_gens (timeout_world new w)) ref = Some g \<and> gen_revision g = gen_revision g'"
  by (auto simp: timeout_world_def update_gen_get SetCallTimeout_def split: option.splits if_splits)

text \<open>
  The invariant after a change of the desired configuration to a later revision: the history
  grows, the generations keep their revisions, and the rest depends on the kind of change.
\<close>

lemma co_inv_desired:
  assumes inv: "co_inv sid hist w pc" and rv: "des_Revision new > co_rev (cw_co w)"
    and wf: "wf_server (des_ResolvedConfig new)"
    and c': "co_desired (cw_co w') = new" "co_serverID (cw_co w') = sid"
      "co_state (cw_co w') = co_state (cw_co w)" "co_currentGen (cw_co w') = co_currentGen (cw_co w)"
      "co_cancelled (cw_co w') = co_cancelled (cw_co w)"
      "co_cachedTools (cw_co w') = co_cachedTools (cw_co w)"
    and gens: "\<And>ref g. mget (cw_gens w') ref = Some g \<Longrightarrow> \<exists>g'. mget (cw_gens w) ref = Some g' \<and> gen_revision g = gen_revision g'"
      "\<And>ref g'. mget (cw_gens w) ref = Some g' \<Longrightarrow> \<exists>g. mget (cw_gens w') ref = Some g \<and> gen_revision g = gen_revision g'"
    and conn: "co_reconcileCh (cw_co w') \<or>
      \<not> co_reconcileCh (cw_co w) \<and> same_connection (co_cfg (cw_co w)) (des_ResolvedConfig new)"
    and fil: "filter_ok w'"
  shows "co_inv sid (mput (des_Revision new) (des_ResolvedConfig new) hist) w' pc"
proof -
  let ?h = "mput (des_Revision new) (des_ResolvedConfig new) hist"
  have pc: "pc_ok (cw_co w') pc"
    using inv rv c' by (fastforce simp: co_inv_def pc_ok_def)
  have hist: "history_ok ?h w'"
    using inv rv wf c' by (fastforce simp: co_inv_def history_ok_def dest!: gens(1))
  have "connection_ok ?h w'"
    unfolding connection_ok_def
  proof
    assume "co_state (cw_co w') = StateReady"
    then obtain ref g cfg where g: "co_currentGen (cw_co w) = Some ref" "mget (cw_gens w) ref = Some g"
      "mget hist (gen_revision g) = Some cfg" "co_reconcileCh (cw_co w) \<or> same_connection cfg (co_cfg (cw_co w))"
      using inv c' by (auto simp: co_inv_def connection_ok_def)
    from gens(2) [OF g(2)] obtain g1 where g1: "mget (cw_gens w') ref = Some g1" "gen_revision g1 = gen_revision g"
      by blast
    have "gen_revision g \<le> co_rev (cw_co w)" using inv g(2) by (auto simp: co_inv_def history_ok_def)
    then have "mget ?h (gen_revision g1) = Some cfg" using rv g(3) g1(2) by simp
    moreover have "co_reconcileCh (cw_co w') \<or> same_connection cfg (co_cfg (cw_co w'))"
      using conn g(4) c'(1) same_connection_trans by auto
    ultimately show "\<exists>ref g cfg. co_currentGen (cw_co w') = Some ref \<and> mget (cw_gens w') ref = Some g \<and>
        mget ?h (gen_revision g) = Some cfg \<and>
        (co_reconcileCh (cw_co w') \<or> same_connection cfg (co_cfg (cw_co w')))"
      using g(1) c'(4) g1(1) by auto
  qed
  with pc hist fil c' show ?thesis by (simp add: co_inv_def)
qed

lemma same_connection_change:
  "diffConfig a b \<noteq> changeConnection \<Longrightarrow> same_connection a b"
  by (simp add: same_connection_def)

lemma co_inv_config:
  assumes inv: "co_inv sid hist w pc" and acc: "publisher_accepts ops sid"
    and rv: "des_Revision new > co_rev (cw_co w)" and wf: "wf_server (des_ResolvedConfig new)"
    and upd: "UpdateConfig (log_ops ops) new w = (b, w')"
  shows "co_inv sid (if co_desired (cw_co w') = new
      then mput (des_Revision new) (des_ResolvedConfig new) hist else hist) w' pc"
proof -
  let ?a = "co_cfg (cw_co w)" and ?b = "des_ResolvedConfig new"
  have w': "w' = snd (UpdateConfig (log_ops ops) new w)" using upd by simp
  have sid: "co_serverID (cw_co w) = sid" and wfa: "wf_server ?a" and fil: "filter_ok w"
    using inv by (simp_all add: co_inv_def history_ok_def)
  have acc': "publisher_accepts ops (co_serverID (cw_co w))" using acc sid by simp
  show ?thesis
  proof (cases "diffConfig ?a ?b")
    case changeNone
    have "co_desired (cw_co w) \<noteq> new" using rv by auto
    then show ?thesis using changeNone inv by (simp add: w' UpdateConfig_eq)
  next
    case changeToolsOnly
    let ?w = "republish_cached (log_ops ops) new (desired_world new w)"
    have eq: "w' = ?w" using changeToolsOnly by (simp add: w' UpdateConfig_eq)
    have "filter_ok ?w"
      using republish_cached_log [of ops "desired_world new w" new] acc' by (auto simp: filter_ok_def disabledNames_def)
    then have "co_inv sid (mput (des_Revision new) ?b hist) ?w pc"
      using changeToolsOnly sid
      by (intro co_inv_desired [OF inv rv wf]) (auto simp: same_connection_def)
    then show ?thesis by (simp add: eq)
  next
    case changeTimeoutOnly
    let ?w = "timeout_world new (desired_world new w)"
    have eq: "w' = ?w" using changeTimeoutOnly by (simp add: w' UpdateConfig_eq)
    have "set (mkeys (rs_DisabledTools ?a)) = set (mkeys (rs_DisabledTools ?b))"
      using changeTimeoutOnly by (intro diffConfig_tools [OF wfa wf]) simp
    then have "filter_ok ?w" using fil by (auto simp: filter_ok_def)
    then have "co_inv sid (mput (des_Revision new) ?b hist) ?w pc"
      using changeTimeoutOnly sid timeout_world_revision [where new = new and w = "desired_world new w"]
      by (intro co_inv_desired [OF inv rv wf]) (auto simp: same_connection_def)
    then show ?thesis by (simp add: eq)
  next
    case changeToolsAndTimeout
    let ?t = "timeout_world new (desired_world new w)"
    let ?w = "republish_cached (log_ops ops) new ?t"
    have eq: "w' = ?w" using changeToolsAndTimeout by (simp add: w' UpdateConfig_eq)
    have "filter_ok ?w"
      using republish_cached_log [of ops ?t new] acc' by (auto simp: filter_ok_def disabledNames_def)
    then have "co_inv sid (mput (des_Revision new) ?b hist) ?w pc"
      using changeToolsAndTimeout sid timeout_world_revision [where new = new and w = "desired_world new w"]
      by (intro co_inv_desired [OF inv rv wf]) (auto simp: same_connection_def)
    then show ?thesis by (simp add: eq)
  next
    case changeConnection
    let ?w = "set_co (\<lambda>c. c\<lparr>co_reconcileCh := True\<rparr>) (desired_world new w)"
    have eq: "w' = ?w" using changeConnection by (simp add: w' UpdateConfig_eq)
    have "co_inv sid (mput (des_Revision new) ?b hist) ?w pc"
      using sid by (intro co_inv_desired [OF inv rv wf]) (auto simp: filter_ok_def)
    then show ?thesis by (simp add: eq)
  qed
qed

lemma co_inv_stop:
  assumes "co_inv sid hist w pc"
  shows "co_inv sid hist (snd (stop_begin w)) pc" and "co_inv sid hist (stop_end ref w) pc"
proof -
  show "co_inv sid hist (snd (stop_begin w)) pc"
    using assms by (auto simp: stop_begin_def Let_def co_inv_defs)
  have "co_inv sid hist (drain_and_close_opt ref w) pc" using assms by (rule co_inv_drain)
  then show "co_inv sid hist (stop_end ref w) pc"
    by (auto simp: stop_end_def Let_def co_inv_defs)
qed

lemma acquire_revision: "acquire g = (r, g') \<Longrightarrow> gen_revision g' = gen_revision g"
  by (auto simp: acquire_def split: if_splits)

lemma co_AcquireLease_world:
  assumes "co_AcquireLease w = (r, w')"
  shows "w' = w \<or> (\<exists>ref g g'. r = Inr ref \<and> co_state (cw_co w) = StateReady \<and> co_currentGen (cw_co w) = Some ref \<and>
    mget (cw_gens w) ref = Some g \<and> acquire g = (Inr (), g') \<and> w' = update_gen ref (\<lambda>_. g') w)"
  using assms
  by (auto simp: co_AcquireLease_def Let_def update_gen_def split: if_splits option.splits prod.splits sum.splits)

lemma co_inv_lease:
  assumes inv: "co_inv sid hist w pc" and "co_AcquireLease w = (r, w')"
  shows "co_inv sid hist w' pc"
proof -
  consider "w' = w" | ref g g' where "mget (cw_gens w) ref = Some g" "acquire g = (Inr (), g')"
      "w' = update_gen ref (\<lambda>_. g') w"
    using co_AcquireLease_world [OF assms(2)] by blast
  then show ?thesis
  proof cases
    case 1
    with inv show ?thesis by simp
  next
    case 2
    have "update_gen ref (\<lambda>_. g') w = update_gen ref (\<lambda>h. h\<lparr>gen_active := gen_active g'\<rparr>) w"
      using 2 by (auto simp: update_gen_def acquire_def split: if_splits)
    then show ?thesis using 2 co_inv_update_gen [OF inv, of "\<lambda>h. h\<lparr>gen_active := gen_active g'\<rparr>" ref] by simp
  qed
qed

lemma co_inv_step:
  assumes "coord_step (log_ops ops) s s'" and acc: "publisher_accepts ops sid"
    and inv: "co_inv sid (cy_history s) (cy_world s) (cy_pc s)"
  shows "co_inv sid (cy_history s') (cy_world s') (cy_pc s')"
  using assms(1)
proof cases
  case (move w' pc')
  with co_inv_move [OF inv acc] show ?thesis by simp
next
  case (config new b w')
  with co_inv_config [OF inv acc] show ?thesis by simp
next
  case (stop ref w')
  with co_inv_stop(1) [OF inv] show ?thesis by simp
next
  case (stopped ref refs)
  with co_inv_stop(2) [OF inv] show ?thesis by simp
next
  case notify
  with inv show ?thesis by (auto simp: onToolListChanged_def co_inv_defs)
next
  case (lease r w')
  with co_inv_lease [OF inv] show ?thesis by simp
next
  case (lease_late ref)
  have "gen_revision (snd (acquire g)) = gen_revision g" for g by (metis acquire_revision prod.collapse)
  with lease_late co_inv_update_gen [OF inv, of "\<lambda>g. snd (acquire g)" ref] show ?thesis by simp
next
  case (lease_release ref)
  with co_inv_update_gen [OF inv, of release ref] show ?thesis by simp
qed

lemma co_inv_init:
  "wf_server (des_ResolvedConfig desired) \<Longrightarrow>
   co_inv sid [(des_Revision desired, des_ResolvedConfig desired)]
     \<lparr>cw_co = newCoordinator sid desired delays rst drain, cw_pub = p, cw_gens = [],
      cw_nextRef = 0, cw_closed = [], cw_cancelledOps = []\<rparr> PcLoop"
  by (auto simp: co_inv_defs newCoordinator_def)

lemma serverID_step:
  "coord_step ops s s' \<Longrightarrow> co_serverID (cy_co s') = co_serverID (cy_co s)"
proof (induction rule: coord_step.induct)
  case (move s w' pc')
  then show ?case
    by (cases rule: co_move.cases)
      (auto simp: run_top_def handleDisabled_begin_def handleConnecting_begin_def handleDisabled_remove_def
        take_old_gen_def session_created_def tools_listed_def commit_connect_def finish_attempt_def Let_def
        ready_reset_def ready_reconcile_def ready_disconnected_def refresh_commit_def failure_record_def
        failure_backoff_def split_def split: if_splits sum.splits)
next
  case (config new s b w')
  then have "w' = snd (UpdateConfig ops new (cy_world s))" by simp
  then show ?case by (simp add: UpdateConfig_eq split: configChangeType.split)
next
  case (stop s ref w')
  then show ?case by (auto simp: stop_begin_def Let_def split: if_splits)
next
  case (lease s r w')
  then show ?case using co_AcquireLease_world [of "cy_world s"] by fastforce
qed (simp_all add: stop_end_def Let_def onToolListChanged_def)

lemma coord_reachable_inv:
  assumes "coord_reachable (log_ops ops) s" and "publisher_accepts ops (co_serverID (cy_co s))"
  shows "co_inv (co_serverID (cy_co s)) (cy_history s) (cy_world s) (cy_pc s)"
  using assms
proof (induction rule: coord_reachable.induct)
  case (init desired sid delays rst drain p)
  then show ?case using co_inv_init [of desired sid delays rst drain p] by (simp add: newCoordinator_def)
next
  case (step s s')
  note eq = serverID_step [OF step.hyps(2)]
  with step co_inv_step [OF step.hyps(2)] show ?case by simp
qed

end
