(* ===== verification/Coordinator_Properties.thy ===== *)
theory Coordinator_Properties
  imports Coordinator_Invariants
begin

text \<open>
  The correctness of the coordinator: which discoveries may be committed, what a ready coordinator
  serves, what a stopped one does not do, that an enabled one gets ready, and the pure functions for
  configuration differences, error categories and back-off.
\<close>

section \<open>Commits\<close>


section \<open>A ready coordinator\<close>

text \<open>
  C12. Whenever a coordinator is ready and no reconciliation is pending, its current generation was connected
  with settings that equal the desired connection settings, and if it has tools, its last request to
  the publisher was to publish exactly these tools with exactly the desired set of disabled names,
  whatever configuration changes, refreshes, notifications, leases and stops were interleaved.
\<close>

theorem ready_serves_desired:
  assumes "coord_reachable (log_ops ops) s" and "publisher_accepts ops (co_serverID (cy_co s))"
    and "co_state (cy_co s) = StateReady" and "\<not> co_reconcileCh (cy_co s)"
  shows "(\<exists>ref g cfg. co_currentGen (cy_co s) = Some ref \<and> mget (cw_gens (cy_world s)) ref = Some g \<and>
       mget (cy_history s) (gen_revision g) = Some cfg \<and> diffConfig cfg (co_cfg (cy_co s)) \<noteq> changeConnection) \<and>
    (co_cachedTools (cy_co s) \<noteq> [] \<longrightarrow>
       (\<exists>l dis. snd (cw_pub (cy_world s)) =
            l @ [OpPublish (co_serverID (cy_co s)) (map Some (co_cachedTools (cy_co s))) dis] \<and>
          set dis = set (disabledNames (rs_DisabledTools (co_cfg (cy_co s))))))"
  using coord_reachable_inv [OF assms(1,2)] assms(3,4)
  by (auto simp: co_inv_defs same_connection_def disabledNames_def)

section \<open>A stopped coordinator\<close>

lemma republish_not_ready:
  "co_state (cw_co w) \<noteq> StateReady \<Longrightarrow> republish_cached ops d w = w"
  by (simp add: republish_cached_def Let_def)

lemma stopped_move:
  assumes "co_move ops w pc w' pc'" and "co_stopped (cw_co w)" and "co_state (cw_co w) \<noteq> StateReady"
  shows "co_stopped (cw_co w') \<and> co_state (cw_co w') \<noteq> StateReady \<and>
    (cw_pub w' = cw_pub w \<or> cw_pub w' = snd (po_RemoveServer ops (co_serverID (cw_co w)) (cw_pub w)))"
  using assms
  by (cases rule: co_move.cases)
    (auto simp: run_top_def handleDisabled_begin_def handleConnecting_begin_def handleDisabled_remove_def
      take_old_gen_def session_created_def tools_listed_def commit_connect_def targetCurrent_def
      finish_attempt_def Let_def ready_reset_def ready_reconcile_def ready_disconnected_def
      refresh_commit_def failure_record_def failure_backoff_def split: if_splits sum.splits)

lemma not_stopped_move:
  assumes "co_move ops w pc w' pc'" and "\<not> co_stopped (cw_co w)"
  shows "\<not> co_stopped (cw_co w')"
  using assms
  by (cases rule: co_move.cases)
    (auto simp: run_top_def handleDisabled_begin_def handleConnecting_begin_def handleDisabled_remove_def
      take_old_gen_def session_created_def tools_listed_def commit_connect_def
      finish_attempt_def Let_def ready_reset_def ready_reconcile_def ready_disconnected_def
      refresh_commit_def failure_record_def failure_backoff_def split_def split: if_splits sum.splits)

lemma config_stopped:
  "co_stopped (cw_co (snd (UpdateConfig ops new w))) = co_stopped (cw_co w)"
  "co_state (cw_co (snd (UpdateConfig ops new w))) = co_state (cw_co w)"
  "co_state (cw_co w) \<noteq> StateReady \<Longrightarrow> cw_pub (snd (UpdateConfig ops new w)) = cw_pub w"
  by (simp_all add: UpdateConfig_eq republish_not_ready split: configChangeType.split)

lemma stopped_not_ready:
  assumes "coord_reachable ops s" and "co_stopped (cy_co s)"
  shows "co_state (cy_co s) \<noteq> StateReady"
  using assms
proof (induction rule: coord_reachable.induct)
  case (init desired sid delays rst drain p)
  then show ?case by (simp add: newCoordinator_def)
next
  case (step s s')
  from step.hyps(2) show ?case
  proof cases
    case (move w' pc')
    then show ?thesis
      using step stopped_move [OF move(2)] not_stopped_move [OF move(2)] by auto
  next
    case (config new b w')
    then show ?thesis using step config_stopped(1,2) [where ops = ops and new = new and w = "cy_world s"] by auto
  next
    case (lease r w')
    then show ?thesis using step co_AcquireLease_world [OF lease(2)] by auto
  qed (use step in \<open>auto simp: stop_begin_def stop_end_def Let_def onToolListChanged_def split: if_splits\<close>)
qed

text \<open>
  A stopped coordinator publishes nothing: no step that follows a stop asks the publisher to publish
  tools; the only request that may still be made is the removal of the server.
\<close>

theorem stopped_never_publishes:
  assumes "coord_reachable (log_ops ops) s" and "co_stopped (cy_co s)" and "coord_step (log_ops ops) s s'"
  shows "snd (cw_pub (cy_world s')) \<in>
    {snd (cw_pub (cy_world s)), snd (cw_pub (cy_world s)) @ [OpRemove (co_serverID (cy_co s))]}"
proof -
  note nr = stopped_not_ready [OF assms(1,2)]
  have rem: "snd (snd (po_RemoveServer (log_ops ops) sid q)) = snd q @ [OpRemove sid]" for sid q
    by (simp add: log_ops_def split_def Let_def)
  from assms(3) show ?thesis
  proof cases
    case (move w' pc')
    with stopped_move [OF move(2) assms(2) nr] show ?thesis
      by (auto simp: rem [of "co_serverID (cy_co s)" "cw_pub (cy_world s)"])
  next
    case (config new b w')
    with config_stopped(3) [OF nr, of "log_ops ops" new] show ?thesis by simp
  next
    case (lease r w')
    with co_AcquireLease_world [OF lease(2)] show ?thesis by auto
  qed (auto simp: stop_begin_def stop_end_def Let_def cancel_op_def split: if_splits option.splits)
qed

section \<open>Getting ready\<close>

lemma coord_move_reachable:
  assumes "coord_reachable ops s" and "co_move ops (cy_world s) (cy_pc s) w' pc'"
  shows "coord_reachable ops (s\<lparr>cy_world := w', cy_pc := pc'\<rparr>)"
  using assms coord_step.move coord_reachable.step by blast

lemma connect_run:
  assumes "coord_reachable ops s" and "cy_pc s = PcLoop" and acc: "publisher_accepts ops (co_serverID (cy_co s))"
    and "rs_Enabled (co_cfg (cy_co s))" and "\<not> co_stopped (cy_co s)" and "\<not> co_cancelled (cy_co s)"
  shows "\<exists>s'. coord_reachable ops s' \<and> cy_history s' = cy_history s \<and> co_state (cy_co s') = StateReady \<and>
    co_cachedTools (cy_co s') = tools \<and> co_desired (cy_co s') = co_desired (cy_co s) \<and>
    co_reconcileCh (cy_co s') = co_reconcileCh (cy_co s) \<and> co_serverID (cy_co s') = co_serverID (cy_co s) \<and>
    (\<exists>ref g. co_currentGen (cy_co s') = Some ref \<and> mget (cw_gens (cy_world s')) ref = Some g \<and>
       gen_revision g = co_rev (cy_co s) \<and> IsAdmitting g \<and> gen_active g < gen_maxConcurrency g)"
proof -
  let ?c = "cy_co s" and ?w = "cy_world s" and ?rv = "co_rev (cy_co s)" and ?cfg = "co_cfg (cy_co s)"
  let ?w1 = "?w\<lparr>cw_co := ?c\<lparr>co_state := StateConnecting, co_operation := Some 0, co_operationRevision := ?rv\<rparr>\<rparr>"
  let ?w2 = "drain_and_close_opt (co_currentGen ?c) (snd (take_old_gen ?w1))"
  have m1: "co_move ops ?w PcLoop ?w1 (PcOldGen ?rv ?cfg 0)"
    using assms by (intro co_move.top [of 0]) (simp add: run_top_def handleConnecting_begin_def Let_def)
  have m2: "co_move ops ?w1 (PcOldGen ?rv ?cfg 0) (snd (take_old_gen ?w1)) (PcDrain (co_currentGen ?c) (PcDial ?rv ?cfg 0))"
    by (rule co_move.old_gen) (simp add: take_old_gen_def)
  have m3: "co_move ops (snd (take_old_gen ?w1)) (PcDrain (co_currentGen ?c) (PcDial ?rv ?cfg 0)) ?w2 (PcDial ?rv ?cfg 0)"
    by (rule co_move.drained)
  have cur: "targetCurrent (cw_co ?w2) ?rv" using assms by (simp add: targetCurrent_def take_old_gen_def)
  have m4: "co_move ops ?w2 (PcDial ?rv ?cfg 0) ?w2 (PcDiscover ?rv ?cfg 0 0 None)"
    using cur by (intro co_move.dialed [of _ _ _ "Inr (0, None)"]) (simp add: session_created_def)
  have m5: "co_move ops ?w2 (PcDiscover ?rv ?cfg 0 0 None) ?w2 (PcCommit ?rv ?cfg 0 0 None tools)"
    by (intro co_move.discovered [of _ _ _ _ _ "Inr tools"]) (simp add: tools_listed_def)
  obtain snap err p' where pub: "po_PublishServer ops (co_serverID ?c) tools
      (disabledNames (rs_DisabledTools ?cfg)) (cw_pub ?w2) = ((snap, err), p')"
    by (metis prod.collapse)
  have "err = None" using acc pub unfolding publisher_accepts_def by (metis fst_conv snd_conv)
  obtain pc' w' where com: "commit_connect ops 0 ?rv ?cfg 0 0 None tools ?w2 = (pc', w')" by fastforce
  then have m6: "co_move ops ?w2 (PcCommit ?rv ?cfg 0 0 None tools) w' pc'" by (rule co_move.commit)
  have next_reachable: "coord_reachable ops (s\<lparr>cy_world := w2, cy_pc := pc2\<rparr>)"
    if "coord_reachable ops (s\<lparr>cy_world := w1, cy_pc := pc1\<rparr>)" "co_move ops w1 pc1 w2 pc2" for w1 pc1 w2 pc2
    using coord_move_reachable [OF that(1), of w2 pc2] that(2) by simp
  have "s\<lparr>cy_world := ?w, cy_pc := PcLoop\<rparr> = s" using assms(2) by simp
  then have "coord_reachable ops (s\<lparr>cy_world := ?w, cy_pc := PcLoop\<rparr>)" using assms(1) by simp
  then have r: "coord_reachable ops (s\<lparr>cy_world := w', cy_pc := pc'\<rparr>)"
    by (rule next_reachable [OF next_reachable [OF next_reachable [OF next_reachable [OF next_reachable
          [OF next_reachable [OF _ m1] m2] m3] m4] m5] m6])
  from com pub cur \<open>err = None\<close> have "co_state (cw_co w') = StateReady" "co_cachedTools (cw_co w') = tools"
    "co_desired (cw_co w') = co_desired ?c" "co_reconcileCh (cw_co w') = co_reconcileCh ?c"
    "co_serverID (cw_co w') = co_serverID ?c"
    "\<exists>ref g. co_currentGen (cw_co w') = Some ref \<and> mget (cw_gens w') ref = Some g \<and>
       gen_revision g = ?rv \<and> IsAdmitting g \<and> gen_active g < gen_maxConcurrency g"
    by (auto simp: commit_connect_def Let_def targetCurrent_def take_old_gen_def IsAdmitting_def newGeneration_def
        DefaultMaxConcurrency_def)
  with r show ?thesis by (intro exI [of _ "s\<lparr>cy_world := w', cy_pc := pc'\<rparr>"]) simp
qed


section \<open>Configuration differences\<close>

text \<open>
  \<^verbatim>\<open>diffConfig\<close> classifies a change correctly, with Go maps compared as maps: a reconnection is
  demanded exactly when a connection setting differs; otherwise the tool filter is republished exactly
  when the set of disabled names differs and the timeout is updated exactly when it differs.
\<close>

theorem diffConfig_exact:
  assumes "wf_server a" and "wf_server b"
  shows "(diffConfig a b = changeConnection \<longleftrightarrow>
      \<not> (rs_Enabled a = rs_Enabled b \<and> rs_Type a = rs_Type b \<and> rs_Command a = rs_Command b \<and>
         rs_Cwd a = rs_Cwd b \<and> rs_URL a = rs_URL b \<and> rs_MaxConcurrency a = rs_MaxConcurrency b \<and>
         rs_StartupTimeout a = rs_StartupTimeout b \<and> rs_Args a = rs_Args b \<and>
         map_of (rs_Env a) = map_of (rs_Env b) \<and> map_of (rs_Headers a) = map_of (rs_Headers b))) \<and>
    (diffConfig a b \<noteq> changeConnection \<longrightarrow>
      (diffConfig a b \<in> {changeToolsOnly, changeToolsAndTimeout} \<longleftrightarrow>
         set (disabledNames (rs_DisabledTools a)) \<noteq> set (disabledNames (rs_DisabledTools b))) \<and>
      (diffConfig a b \<in> {changeTimeoutOnly, changeToolsAndTimeout} \<longleftrightarrow>
         rs_CallTimeout a \<noteq> rs_CallTimeout b))"
proof -
  have "mapsEqual (rs_Env a) (rs_Env b) \<longleftrightarrow> map_of (rs_Env a) = map_of (rs_Env b)"
    "mapsEqual (rs_Headers a) (rs_Headers b) \<longleftrightarrow> map_of (rs_Headers a) = map_of (rs_Headers b)"
    "toolSetsEqual (rs_DisabledTools a) (rs_DisabledTools b) \<longleftrightarrow>
      set (disabledNames (rs_DisabledTools a)) = set (disabledNames (rs_DisabledTools b))"
    using assms by (simp_all only: wf_server_def mapsEqual_iff toolSetsEqual_iff disabledNames_def)
  then show ?thesis by (auto simp: diffConfig_def Let_def simp del: set_map)
qed

section \<open>Errors and back-off\<close>

text \<open>
  Operators see one of eleven fixed categories: no text of a downstream error, so no command line, URL or
  secret in it, is stored in the coordinator's status.
\<close>

theorem sanitizeError_range:
  "sanitizeError (Some e) \<in> {''timeout'', ''canceled'', ''process_not_found'', ''permission_denied'',
     ''network_error'', ''connection_refused'', ''dns_error'', ''initialize_failed'',
     ''process_start_failed'', ''session_closed'', ''downstream_error''}"
proof -
  let ?m = "contains_str (to_lower (err_text e))"
  have if_in: "a \<in> S \<Longrightarrow> b \<in> S \<Longrightarrow> (if P then a else b) \<in> S" for P and a b :: string and S by simp
  show ?thesis
    unfolding sanitizeError_def Let_def option.case
    by (cases "err_asNetTimeout e"; simp only: option.case; intro if_in; simp)
qed

lemma floor_percent:
  fixes x :: rat
  assumes "rat_of_int b * (8 / 10) \<le> x" and "x \<le> rat_of_int b * (12 / 10)"
  shows "8 * b \<le> 10 * \<lfloor>x\<rfloor> + 10" and "10 * \<lfloor>x\<rfloor> \<le> 12 * b"
proof -
  have "rat_of_int \<lfloor>x\<rfloor> \<le> x" "x < rat_of_int \<lfloor>x\<rfloor> + 1" by linarith+
  with assms have "8 * rat_of_int b \<le> 10 * rat_of_int \<lfloor>x\<rfloor> + 10" "10 * rat_of_int \<lfloor>x\<rfloor> \<le> 12 * rat_of_int b"
    by linarith+
  then have "rat_of_int (8 * b) \<le> rat_of_int (10 * \<lfloor>x\<rfloor> + 10)"
    "rat_of_int (10 * \<lfloor>x\<rfloor>) \<le> rat_of_int (12 * b)"
    by simp_all
  then show "8 * b \<le> 10 * \<lfloor>x\<rfloor> + 10" and "10 * \<lfloor>x\<rfloor> \<le> 12 * b" by (simp_all only: of_int_le_iff)
qed

text \<open>
  The back-off delay lies within twenty percent of the entry for the number of failures, the last
  entry counting for all later failures, and the index is always inside the table.
\<close>

theorem computeBackoff_bounds:
  assumes "delays \<noteq> []" and "\<forall>d \<in> set delays. d \<ge> 0" and "0 \<le> rnd" and "rnd < 1"
  shows "\<exists>base \<in> set delays. base = delays ! min (nat (max 1 n) - 1) (length delays - 1) \<and>
    8 * base \<le> 10 * computeBackoff delays n rnd + 10 \<and> 10 * computeBackoff delays n rnd \<le> 12 * base"
proof -
  let ?i = "min (nat (max 1 n) - 1) (length delays - 1)"
  let ?base = "delays ! ?i"
  have len: "length delays > 0" using assms(1) by simp
  then have i: "?i < length delays" by linarith
  then have mem: "?base \<in> set delays" by simp
  with assms(2) have b: "0 \<le> ?base" by blast
  have idx: "nat (if max 1 n - 1 \<ge> int (length delays) then int (length delays) - 1 else max 1 n - 1) = ?i"
    using len by (auto simp: min_def max_def nat_diff_distrib split: if_splits)
  have eq: "computeBackoff delays n rnd = \<lfloor>rat_of_int ?base * (8 / 10 + 4 / 10 * rnd)\<rfloor>" (is "_ = \<lfloor>?x\<rfloor>")
    unfolding idx [symmetric] by (simp add: computeBackoff_def Let_def max_def)
  have "rat_of_int ?base * (8 / 10) \<le> ?x"
    using b assms(3) by (intro mult_left_mono) auto
  moreover have "?x \<le> rat_of_int ?base * (12 / 10)"
    using b assms(4) by (intro mult_left_mono) auto
  ultimately have "8 * ?base \<le> 10 * \<lfloor>?x\<rfloor> + 10" "10 * \<lfloor>?x\<rfloor> \<le> 12 * ?base"
    by (rule floor_percent)+
  then show ?thesis unfolding eq by (intro bexI [OF _ mem] conjI refl)
qed

section \<open>The manager's default publisher\<close>

text \<open>The operations of \<^verbatim>\<open>CatalogPublisherAdapter\<close> as the coordinator calls them, with non-nil tools.\<close>

definition adapter_ops :: "catalog_env \<Rightarrow> (catalog_error \<Rightarrow> go_error) \<Rightarrow> CatalogPublisherAdapter pub_ops" where
  "adapter_ops env err_of =
     \<lparr>po_PublishServer = (\<lambda>sid tools dis a. the (ada_PublishServer env a sid (map Some tools) dis)),
      po_RemoveServer = (\<lambda>sid a. ada_RemoveServer a sid), po_error = err_of\<rparr>"

lemma UpdateServerTools_total: "UpdateServerTools env c sid (map Some ts) dis \<noteq> None"
proof -
  have "None \<notin> set (fst (FilterDisabledTools (map Some ts) dis))"
    by (auto simp: FilterDisabledTools_eq)
  then show ?thesis
    by (auto simp: UpdateServerTools_def Let_def split_def split: option.splits)
qed

lemma adapter_accepts:
  assumes "serverIDRegex sid"
  shows "publisher_accepts (adapter_ops env err_of) sid"
  unfolding publisher_accepts_def
proof (intro allI)
  fix tools dis and a :: CatalogPublisherAdapter
  obtain x y s e c' where u: "UpdateServerTools env (ada_cat a) sid (map Some tools) dis = Some ((x, y, s, e), c')"
    using UpdateServerTools_total [of env "ada_cat a" sid tools dis] by (metis option.exhaust prod.collapse)
  with update_error(2) [OF u] assms show "snd (fst (po_PublishServer (adapter_ops env err_of) sid tools dis a)) = None"
    by (simp add: adapter_ops_def ada_PublishServer_def)
qed

lemma log_accepts: "publisher_accepts ops sid \<Longrightarrow> publisher_accepts (log_ops ops) sid"
  by (simp add: publisher_accepts_def log_ops_def split_def Let_def)

section \<open>Witnesses\<close>

definition demo_server :: "string \<Rightarrow> ResolvedServer" where
  "demo_server sid =
     \<lparr>rs_ID = sid, rs_Enabled = True, rs_Type = ServerTypeStdio, rs_Command = ''run'', rs_Args = [''-x''],
      rs_Cwd = ''/srv'', rs_Env = [(''PATH'', ''/bin'')], rs_URL = [], rs_Headers = [],
      rs_DisabledTools = [(''rm'', ())], rs_StartupTimeout = 20 * second, rs_CallTimeout = 60 * second,
      rs_MaxConcurrency = 8\<rparr>"

definition demo_desired :: DesiredServer where
  "demo_desired = \<lparr>des_Revision = 1, des_ResolvedConfig = demo_server ''fs''\<rparr>"

definition demo_world :: "'p \<Rightarrow> 'p coord_world" where
  "demo_world p = \<lparr>cw_co = newCoordinator ''fs'' demo_desired [] 0 0, cw_pub = p, cw_gens = [],
     cw_nextRef = 0, cw_closed = [], cw_cancelledOps = []\<rparr>"

definition demo_coord :: "'p \<Rightarrow> 'p coord_sys" where
  "demo_coord p = \<lparr>cy_world = demo_world p, cy_pc = PcLoop, cy_stopping = [],
     cy_history = [(des_Revision demo_desired, des_ResolvedConfig demo_desired)]\<rparr>"

lemma demo_wf: "wf_server (des_ResolvedConfig demo_desired)" "wf_server (demo_server sid)"
  by (simp_all add: wf_server_def demo_desired_def demo_server_def)

lemma demo_coord_reachable: "coord_reachable ops (demo_coord p)"
  unfolding demo_coord_def demo_world_def by (rule coord_reachable.init [OF demo_wf(1)])

lemma demo_coord_fields [simp]:
  "cy_pc (demo_coord p) = PcLoop" "co_serverID (cy_co (demo_coord p)) = ''fs''"
  "rs_Enabled (co_cfg (cy_co (demo_coord p)))" "\<not> co_stopped (cy_co (demo_coord p))"
  "\<not> co_cancelled (cy_co (demo_coord p))" "\<not> co_reconcileCh (cy_co (demo_coord p))"
  "co_rev (cy_co (demo_coord p)) = 1" "co_cfg (cy_co (demo_coord p)) = demo_server ''fs''"
  by (simp_all add: demo_coord_def demo_world_def newCoordinator_def demo_desired_def demo_server_def)

lemma fs_valid: "serverIDRegex ''fs''"
  by code_simp

abbreviation demo_ops :: "CatalogPublisherAdapter pub_ops" where
  "demo_ops \<equiv> adapter_ops demo_env (\<lambda>_. plain_error ''invalid server ID'')"

lemma demo_accepts: "publisher_accepts demo_ops ''fs''"
  by (rule adapter_accepts [OF fs_valid])


abbreviation demo_pub :: "CatalogPublisherAdapter \<times> pub_op list" where
  "demo_pub \<equiv> (NewCatalogPublisher None, [])"

lemma demo_connect_run:
  "\<exists>s. coord_reachable (log_ops demo_ops) s \<and> co_state (cy_co s) = StateReady \<and>
    co_cachedTools (cy_co s) = [demo_tool ''read'' ''x''] \<and>
    co_desired (cy_co s) = co_desired (cy_co (demo_coord demo_pub)) \<and>
    \<not> co_reconcileCh (cy_co s) \<and> co_serverID (cy_co s) = ''fs''"
proof -
  have "publisher_accepts (log_ops demo_ops) (co_serverID (cy_co (demo_coord demo_pub)))"
    using log_accepts [OF demo_accepts] by simp
  from connect_run [where tools = "[demo_tool ''read'' ''x'']", OF demo_coord_reachable demo_coord_fields(1) this
      demo_coord_fields(3-5)]
  show ?thesis by (simp only: demo_coord_fields) blast
qed

theorem ready_serves_desired_witness:
  "\<exists>s. coord_reachable (log_ops demo_ops) s \<and> co_cachedTools (cy_co s) = [demo_tool ''read'' ''x''] \<and>
     (\<exists>l dis. snd (cw_pub (cy_world s)) = l @ [OpPublish ''fs'' [Some (demo_tool ''read'' ''x'')] dis] \<and>
        set dis = {''rm''})"
proof -
  obtain s where s: "coord_reachable (log_ops demo_ops) s" "co_state (cy_co s) = StateReady"
    "co_cachedTools (cy_co s) = [demo_tool ''read'' ''x'']"
    "co_desired (cy_co s) = co_desired (cy_co (demo_coord demo_pub))"
    "\<not> co_reconcileCh (cy_co s)" "co_serverID (cy_co s) = ''fs''"
    using demo_connect_run by blast
  have "publisher_accepts demo_ops (co_serverID (cy_co s))" using demo_accepts s(6) by simp
  from ready_serves_desired [OF s(1) this s(2,5)] s
  have "\<exists>l dis. snd (cw_pub (cy_world s)) = l @ [OpPublish ''fs'' [Some (demo_tool ''read'' ''x'')] dis] \<and>
      set dis = {''rm''}"
    by (simp add: disabledNames_def demo_server_def)
  with s(1,3) show ?thesis by (intro exI [of _ s] conjI)
qed

theorem stopped_never_publishes_witness:
  "\<exists>s s'. coord_step (log_ops demo_ops) s s' \<and> co_stopped (cy_co s) \<and>
     snd (cw_pub (cy_world s')) \<in> {[], [OpRemove ''fs'']}"
proof -
  let ?s0 = "demo_coord demo_pub"
  let ?s = "?s0\<lparr>cy_world := snd (stop_begin (cy_world ?s0)),
    cy_stopping := cy_stopping ?s0 @ [fst (stop_begin (cy_world ?s0))]\<rparr>"
  have r: "coord_reachable (log_ops demo_ops) ?s"
    by (rule coord_reachable.step [OF demo_coord_reachable coord_step.stop]) simp
  have st: "co_stopped (cy_co ?s)" and f: "snd (cw_pub (cy_world ?s)) = []" "co_serverID (cy_co ?s) = ''fs''"
    by (simp_all add: stop_begin_def Let_def demo_coord_def demo_world_def newCoordinator_def)
  have n: "coord_step (log_ops demo_ops) ?s (?s\<lparr>cy_world := set_co onToolListChanged (cy_world ?s)\<rparr>)"
    by (rule coord_step.notify)
  from stopped_never_publishes [OF r st n] n st f show ?thesis
    by (intro exI [of _ ?s] exI [of _ "?s\<lparr>cy_world := set_co onToolListChanged (cy_world ?s)\<rparr>"]) simp
qed


theorem diffConfig_exact_witness:
  "diffConfig (demo_server ''fs'') (demo_server ''fs''\<lparr>rs_CallTimeout := 5\<rparr>) = changeTimeoutOnly \<and>
   set (disabledNames (rs_DisabledTools (demo_server ''fs''))) =
     set (disabledNames (rs_DisabledTools (demo_server ''fs''\<lparr>rs_CallTimeout := 5\<rparr>)))"
proof -
  have "wf_server (demo_server ''fs''\<lparr>rs_CallTimeout := 5\<rparr>)" by (simp add: wf_server_def demo_server_def)
  note exact = diffConfig_exact [OF demo_wf(2) this]
  have d: "diffConfig (demo_server ''fs'') (demo_server ''fs''\<lparr>rs_CallTimeout := 5\<rparr>) = changeTimeoutOnly"
    by code_simp
  with exact show ?thesis by simp
qed

theorem computeBackoff_bounds_witness:
  "8 * second \<le> 10 * computeBackoff defaultBackoffDelays 1 (1 / 2) + 10 \<and>
   10 * computeBackoff defaultBackoffDelays 1 (1 / 2) \<le> 12 * second"
  using computeBackoff_bounds [of defaultBackoffDelays "1 / 2" 1]
  by (simp add: defaultBackoffDelays_def second_def)

end
