(* ===== verification/Manager.thy ===== *)
theory Manager
  imports Router Coordinator_Properties
begin

text \<open>
  The manager (\<^verbatim>\<open>internal/manager/manager.go\<close>, \<^verbatim>\<open>options.go\<close>): construction, start and stop, applying a
  resolved configuration, preflight probes, leases, status and the log of recent calls.

  The coordinators live in a store and share the publisher; the manager's map names them by
  reference, as the code's map of pointers does. Every method that holds \<^verbatim>\<open>m.mu\<close> throughout is one
  definition; \<^verbatim>\<open>Apply\<close>, which goes on after it released the lock, is given by its regions, whose
  sequence is \<open>Apply\<close> and whose interleaving with the coordinators is \<open>mgr_step\<close>.

  The capacity of the dial limiter only delays a coordinator between two of its steps; it is kept as a
  number and plays no other role.
\<close>

section \<open>State\<close>

record RecentCallDTO =
  rc_RequestID :: string
  rc_Time :: string
  rc_DurationMs :: int
  rc_Tool :: string
  rc_ServerID :: string
  rc_Outcome :: string
  rc_ErrorCategory :: string

record ServerStatusDTO =
  ss_ID :: string
  ss_State :: service_state
  ss_PublishedToolCount :: nat
  ss_UnpublishedToolCount :: nat
  ss_ActiveCalls :: int
  ss_DesiredRevision :: int
  ss_ActiveRevision :: int
  ss_ErrorCategory :: string

text \<open>
  A session factory is what it answers: the error of \<^verbatim>\<open>CreateSession\<close>, or a session given by
  what \<^verbatim>\<open>ListAllTools\<close> answers on it.
\<close>

type_synonym session_factory = "ResolvedServer \<Rightarrow> go_error + (go_error + tool list)"

record Manager =
  mg_factory :: session_factory
  mg_coordinators :: "(string, nat) gomap"
  mg_limiter :: int
  mg_revision :: int
  mg_backoffDelays :: "int list"
  mg_readyResetDur :: int
  mg_drainTimeout :: int
  mg_recentCalls :: "RecentCallDTO list"
  mg_maxRecentCalls :: int
  mg_cancelled :: bool
  mg_running :: bool
  mg_stopped :: bool

record 'p mgr_world =
  mw_mgr :: Manager
  mw_pub :: 'p
  mw_store :: "(nat, unit coord_world) gomap"
  mw_next :: nat

text \<open>A coordinator of the store seen together with the publisher it shares.\<close>

definition plug :: "'p \<Rightarrow> unit coord_world \<Rightarrow> 'p coord_world" where
  "plug p w = \<lparr>cw_co = cw_co w, cw_pub = p, cw_gens = cw_gens w, cw_nextRef = cw_nextRef w,
     cw_closed = cw_closed w, cw_cancelledOps = cw_cancelledOps w\<rparr>"

definition unplug :: "'p coord_world \<Rightarrow> unit coord_world" where
  "unplug w = \<lparr>cw_co = cw_co w, cw_pub = (), cw_gens = cw_gens w, cw_nextRef = cw_nextRef w,
     cw_closed = cw_closed w, cw_cancelledOps = cw_cancelledOps w\<rparr>"

definition on_coord :: "nat \<Rightarrow> ('p coord_world \<Rightarrow> 'p coord_world) \<Rightarrow> 'p mgr_world \<Rightarrow> 'p mgr_world" where
  "on_coord ref f m =
     (case mget (mw_store m) ref of None \<Rightarrow> m
      | Some w \<Rightarrow>
          let w' = f (plug (mw_pub m) w)
          in m\<lparr>mw_pub := cw_pub w', mw_store := mput ref (unplug w') (mw_store m)\<rparr>)"

section \<open>Construction\<close>

datatype Option =
    WithSessionFactory "session_factory option"
  | WithBackoffDelays "int list"
  | WithReadyResetDuration int
  | WithDrainTimeout int
  | WithDialConcurrency int

fun apply_option :: "Option \<Rightarrow> Manager \<Rightarrow> Manager" where
  "apply_option (WithSessionFactory f) m =
     (case f of None \<Rightarrow> m | Some f \<Rightarrow> m\<lparr>mg_factory := f\<rparr>)"
| "apply_option (WithBackoffDelays ds) m = (if length ds > 0 then m\<lparr>mg_backoffDelays := ds\<rparr> else m)"
| "apply_option (WithReadyResetDuration d) m = (if d > 0 then m\<lparr>mg_readyResetDur := d\<rparr> else m)"
| "apply_option (WithDrainTimeout d) m = (if d > 0 then m\<lparr>mg_drainTimeout := d\<rparr> else m)"
| "apply_option (WithDialConcurrency n) m = (if n > 0 then m\<lparr>mg_limiter := n\<rparr> else m)"

definition defaultDialConcurrency :: int where "defaultDialConcurrency = 4"
definition defaultReadyResetDuration :: int where "defaultReadyResetDuration = 60 * second"
definition defaultDrainTimeout :: int where "defaultDrainTimeout = 10 * second"

text \<open>\<open>default_factory\<close> stands for \<^verbatim>\<open>NewDefaultSessionFactory()\<close>, \<open>default_pub\<close> for the publisher made when none is given.\<close>

definition NewManager ::
  "session_factory \<Rightarrow> 'p \<Rightarrow> 'p option \<Rightarrow> Option list \<Rightarrow> 'p mgr_world" where
  "NewManager default_factory default_pub pub opts =
     \<lparr>mw_mgr = fold apply_option opts
        \<lparr>mg_factory = default_factory, mg_coordinators = [], mg_limiter = defaultDialConcurrency,
         mg_revision = 0, mg_backoffDelays = defaultBackoffDelays,
         mg_readyResetDur = defaultReadyResetDuration, mg_drainTimeout = defaultDrainTimeout,
         mg_recentCalls = [], mg_maxRecentCalls = 200, mg_cancelled = False, mg_running = False,
         mg_stopped = False\<rparr>,
      mw_pub = (case pub of None \<Rightarrow> default_pub | Some p \<Rightarrow> p), mw_store = [], mw_next = 0\<rparr>"

section \<open>Recent calls\<close>

text \<open>Go's \<^verbatim>\<open>s[len(s)-n:]\<close> for \<open>0 \<le> n \<le> len(s)\<close>.\<close>

definition last_n :: "nat \<Rightarrow> 'a list \<Rightarrow> 'a list" where
  "last_n n xs = drop (length xs - n) xs"

definition SetMaxRecentCalls :: "int \<Rightarrow> Manager \<Rightarrow> Manager" where
  "SetMaxRecentCalls n m =
     (if n \<le> 0 then m
      else
        let n = (if n > MaxRecentCalls then MaxRecentCalls else n);
            m = m\<lparr>mg_maxRecentCalls := n\<rparr>
        in if int (length (mg_recentCalls m)) > n
           then m\<lparr>mg_recentCalls := last_n (nat n) (mg_recentCalls m)\<rparr> else m)"

definition RecordCall :: "RecentCallDTO \<Rightarrow> Manager \<Rightarrow> Manager" where
  "RecordCall call m =
     (let m = (if mg_maxRecentCalls m \<le> 0 then m\<lparr>mg_maxRecentCalls := MaxRecentCalls\<rparr> else m);
          m = m\<lparr>mg_recentCalls := mg_recentCalls m @ [call]\<rparr>;
          m = (if mg_maxRecentCalls m > MaxRecentCalls then m\<lparr>mg_maxRecentCalls := MaxRecentCalls\<rparr> else m)
      in if int (length (mg_recentCalls m)) > mg_maxRecentCalls m
         then m\<lparr>mg_recentCalls := last_n (nat (mg_maxRecentCalls m)) (mg_recentCalls m)\<rparr> else m)"

definition GetRecentCalls :: "Manager \<Rightarrow> RecentCallDTO list" where
  "GetRecentCalls m = mg_recentCalls m"

text \<open>The recorder that \<^verbatim>\<open>NewManager\<close> installs; \<open>fmt_time\<close> is \<^verbatim>\<open>Time.Format(RFC3339Nano)\<close>.\<close>

definition record_dto :: "(int \<Rightarrow> string) \<Rightarrow> CallRecord \<Rightarrow> RecentCallDTO" where
  "record_dto fmt_time call =
     \<lparr>rc_RequestID = call_RequestID call, rc_Time = fmt_time (call_Time call),
      rc_DurationMs = sgn (call_Duration call) * (\<bar>call_Duration call\<bar> div 1000000),
      rc_Tool = call_Tool call, rc_ServerID = call_ServerID call, rc_Outcome = call_Outcome call,
      rc_ErrorCategory = call_ErrorCategory call\<rparr>"

section \<open>Start and stop\<close>

definition mg_Start :: "'p mgr_world \<Rightarrow> (lease_error option) \<times> 'p mgr_world" where
  "mg_Start m =
     (let g = mw_mgr m
      in if mg_stopped g then (Some ErrManagerStopped, m)
         else if mg_running g then (None, m)
         else (None,
               fold (\<lambda>(_, ref). on_coord ref (\<lambda>w. w\<lparr>cw_co := co_Start (cw_co w)\<rparr>)) (mg_coordinators g)
                 (m\<lparr>mw_mgr := g\<lparr>mg_running := True\<rparr>\<rparr>)))"

definition co_Stop :: "'p coord_world \<Rightarrow> 'p coord_world" where
  "co_Stop w = (let (ref, w') = stop_begin w in if co_stopped (cw_co w) then w else stop_end ref w')"

text \<open>
  \<open>completed\<close>: the coordinators whose \<^verbatim>\<open>Stop\<close> has come back when the \<^verbatim>\<open>select\<close> is left; all of them,
  unless the caller's context ends first. The manager's context is cancelled in either case.
\<close>

definition mg_Stop_begin :: "'p mgr_world \<Rightarrow> nat list \<times> 'p mgr_world" where
  "mg_Stop_begin m =
     (let g = mw_mgr m
      in if mg_stopped g then ([], m)
         else (map snd (mg_coordinators g), m\<lparr>mw_mgr := g\<lparr>mg_stopped := True, mg_running := False\<rparr>\<rparr>))"

definition mg_Stop_end :: "nat list \<Rightarrow> 'p mgr_world \<Rightarrow> 'p mgr_world" where
  "mg_Stop_end completed m =
     (let m = fold (\<lambda>ref. on_coord ref co_Stop) completed m
      in m\<lparr>mw_mgr := (mw_mgr m)\<lparr>mg_cancelled := True\<rparr>\<rparr>)"

section \<open>Applying a configuration\<close>

definition removed_servers :: "ResolvedConfig \<Rightarrow> Manager \<Rightarrow> (string, nat) gomap" where
  "removed_servers cfg g = filter (\<lambda>(sid, _). \<not> mhas (rc_Servers cfg) sid) (mg_coordinators g)"

text \<open>The body of the second loop: create the coordinator or hand it the new desired state.\<close>

definition apply_server ::
  "'p pub_ops \<Rightarrow> int \<Rightarrow> string \<times> ResolvedServer \<Rightarrow> 'p mgr_world \<Rightarrow> 'p mgr_world" where
  "apply_server ops rv entry m =
     (let (sid, srv) = entry; desired = \<lparr>des_Revision = rv, des_ResolvedConfig = srv\<rparr>; g = mw_mgr m
      in case mget (mg_coordinators g) sid of
           None \<Rightarrow>
             (let co = newCoordinator sid desired (mg_backoffDelays g) (mg_readyResetDur g) (mg_drainTimeout g);
                  co = (if mg_running g then co_Start co else co);
                  ref = mw_next m
              in m\<lparr>mw_mgr := g\<lparr>mg_coordinators := mput sid ref (mg_coordinators g)\<rparr>,
                   mw_store := mput ref \<lparr>cw_co = co, cw_pub = (), cw_gens = [], cw_nextRef = 0,
                                         cw_closed = [], cw_cancelledOps = []\<rparr> (mw_store m),
                   mw_next := ref + 1\<rparr>)
         | Some ref \<Rightarrow> on_coord ref (\<lambda>w. snd (UpdateConfig ops desired w)) m)"

definition Apply_locked ::
  "'p pub_ops \<Rightarrow> ResolvedConfig \<Rightarrow> 'p mgr_world \<Rightarrow> (lease_error + (string, nat) gomap) \<times> 'p mgr_world" where
  "Apply_locked ops cfg m =
     (let g = mw_mgr m
      in if mg_stopped g then (Inl ErrManagerStopped, m)
         else
           let rv = mg_revision g + 1;
               toRemove = removed_servers cfg g;
               kept = filter (\<lambda>(sid, _). mhas (rc_Servers cfg) sid) (mg_coordinators g);
               m = m\<lparr>mw_mgr := g\<lparr>mg_revision := rv, mg_coordinators := kept\<rparr>\<rparr>
           in (Inr toRemove, fold (apply_server ops rv) (rc_Servers cfg) m))"

definition Apply_unpublish :: "'p pub_ops \<Rightarrow> string \<Rightarrow> 'p mgr_world \<Rightarrow> 'p mgr_world" where
  "Apply_unpublish ops sid m = m\<lparr>mw_pub := snd (po_RemoveServer ops sid (mw_pub m))\<rparr>"

text \<open>
  The whole of \<^verbatim>\<open>Apply\<close> without interruption, \<^term>\<open>None\<close> being the nil configuration, with a caller's context that
  outlives the stops. When it ends earlier, \<^verbatim>\<open>Apply\<close> returns its error and the stops go on by themselves, as in \<open>mgr_step\<close>.
\<close>

datatype apply_error = ErrNilConfig | ErrStopped

definition Apply ::
  "'p pub_ops \<Rightarrow> ResolvedConfig option \<Rightarrow> 'p mgr_world \<Rightarrow> apply_error option \<times> 'p mgr_world" where
  "Apply ops cfg m =
     (case cfg of
        None \<Rightarrow> (Some ErrNilConfig, m)
      | Some c \<Rightarrow>
          (case Apply_locked ops c m of
             (Inl _, m') \<Rightarrow> (Some ErrStopped, m')
           | (Inr toRemove, m') \<Rightarrow>
               (None, fold (\<lambda>(_, ref). on_coord ref co_Stop) toRemove
                        (fold (\<lambda>(sid, _). Apply_unpublish ops sid) toRemove m'))))"

section \<open>Preflight\<close>

datatype preflight_error =
    PreflightNilConfig
  | PreflightStopped
  | PreflightFailed string string
  | PreflightPanic

datatype probe_event = ProbeDial string | ProbeClose string

text \<open>
  The servers to probe with their configurations, in the order of \<^verbatim>\<open>sort.Strings(ids)\<close>. A nil tool in the
  list would make \<^verbatim>\<open>PublishServer\<close> panic; a session lists none.
\<close>

definition preflight_servers ::
  "(string, ResolvedServer) gomap \<Rightarrow> (string, ResolvedServer) gomap \<Rightarrow> (string \<times> ResolvedServer) list" where
  "preflight_servers current servers =
     sort_key fst (filter (\<lambda>(sid, srv). rs_Enabled srv \<and>
       \<not> (case mget current sid of None \<Rightarrow> False | Some old \<Rightarrow> diffConfig old srv \<noteq> changeConnection)) servers)"

fun preflight_loop ::
  "catalog_env \<Rightarrow> session_factory \<Rightarrow> (string \<times> ResolvedServer) list \<Rightarrow> CatalogPublisherAdapter \<Rightarrow>
   preflight_error option \<times> probe_event list" where
  "preflight_loop env factory [] probe = (None, [])"
| "preflight_loop env factory ((sid, srv) # rest) probe =
     (case factory srv of
        Inl err \<Rightarrow> (Some (PreflightFailed sid (sanitizeError (Some err))), [ProbeDial sid])
      | Inr listing \<Rightarrow>
          let evs = [ProbeDial sid, ProbeClose sid]
          in case listing of
               Inl err \<Rightarrow> (Some (PreflightFailed sid (sanitizeError (Some err))), evs)
             | Inr tools \<Rightarrow>
                 if list_ex (\<lambda>t. ValidateTool env (Some t) \<noteq> None) tools
                 then (Some (PreflightFailed sid ''tool_catalog_invalid''), evs)
                 else
                   (case ada_PublishServer env probe sid (map Some tools) (disabledNames (rs_DisabledTools srv)) of
                      None \<Rightarrow> (Some PreflightPanic, evs)
                    | Some ((_, err), probe') \<Rightarrow>
                        if err \<noteq> None then (Some (PreflightFailed sid ''tool_catalog_invalid''), evs)
                        else let (res, evs') = preflight_loop env factory rest probe' in (res, evs @ evs')))"

definition current_configs :: "'p mgr_world \<Rightarrow> (string, ResolvedServer) gomap" where
  "current_configs m =
     List.map_filter (\<lambda>(sid, ref). map_option (\<lambda>w. (sid, co_cfg (cw_co w))) (mget (mw_store m) ref))
       (mg_coordinators (mw_mgr m))"

definition Preflight ::
  "catalog_env \<Rightarrow> ResolvedConfig option \<Rightarrow> 'p mgr_world \<Rightarrow> preflight_error option \<times> probe_event list" where
  "Preflight env cfg m =
     (case cfg of
        None \<Rightarrow> (Some PreflightNilConfig, [])
      | Some c \<Rightarrow>
          let g = mw_mgr m
          in if mg_stopped g then (Some PreflightStopped, [])
             else
               preflight_loop env (mg_factory g) (preflight_servers (current_configs m) (rc_Servers c))
                 (NewCatalogPublisher None))"

section \<open>Leases, status and routing\<close>

definition mg_AcquireLease :: "string \<Rightarrow> 'p mgr_world \<Rightarrow> (lease_error + nat \<times> nat) \<times> 'p mgr_world" where
  "mg_AcquireLease sid m =
     (let g = mw_mgr m
      in if mg_stopped g then (Inl ErrManagerStopped, m)
         else case mget (mg_coordinators g) sid of
                None \<Rightarrow> (Inl ErrServerNotFound, m)
              | Some ref \<Rightarrow>
                  (case mget (mw_store m) ref of
                     None \<Rightarrow> (Inl ErrServerNotFound, m)
                   | Some w \<Rightarrow>
                       (case co_AcquireLease w of
                          (Inl e, _) \<Rightarrow> (Inl e, m)
                        | (Inr gen, w') \<Rightarrow> (Inr (ref, gen), m\<lparr>mw_store := mput ref w' (mw_store m)\<rparr>))))"

definition mg_lease_gen :: "nat \<times> nat \<Rightarrow> 'p mgr_world \<Rightarrow> Generation option" where
  "mg_lease_gen lease m =
     (case mget (mw_store m) (fst lease) of None \<Rightarrow> None | Some w \<Rightarrow> mget (cw_gens w) (snd lease))"

definition mg_ReleaseLease :: "nat \<times> nat \<Rightarrow> 'p mgr_world \<Rightarrow> 'p mgr_world" where
  "mg_ReleaseLease lease m =
     (case mget (mw_store m) (fst lease) of None \<Rightarrow> m
      | Some w \<Rightarrow> m\<lparr>mw_store := mput (fst lease) (update_gen (snd lease) release w) (mw_store m)\<rparr>)"

text \<open>
  The lease provider that the manager is for its router. A lease's session does not change, so it is
  read from the world in which the call starts.
\<close>

definition mg_lease_ops :: "'p mgr_world \<Rightarrow> ('p mgr_world, nat \<times> nat) lease_ops" where
  "mg_lease_ops m0 =
     \<lparr>lo_AcquireLease = mg_AcquireLease, lo_Release = mg_ReleaseLease,
      lo_Session = (\<lambda>l. case mg_lease_gen l m0 of None \<Rightarrow> None | Some g \<Rightarrow> gen_session g),
      lo_CallTimeout = (\<lambda>l m. case mg_lease_gen l m of None \<Rightarrow> 0 | Some g \<Rightarrow> gen_callTimeout g)\<rparr>"

definition mg_router :: "('p \<Rightarrow> string \<Rightarrow> RouteEntry option) \<Rightarrow> 'p mgr_world \<Rightarrow> ('p mgr_world, nat \<times> nat) Router" where
  "mg_router lookup m = \<lparr>rt_routes = Some (lookup (mw_pub m)), rt_leases = Some (mg_lease_ops m)\<rparr>"

fun record_event :: "(int \<Rightarrow> string) \<Rightarrow> 'l call_event \<Rightarrow> Manager \<Rightarrow> Manager" where
  "record_event fmt_time (EvRecord call) g = RecordCall (record_dto fmt_time call) g"
| "record_event fmt_time _ g = g"

definition mg_RouteTool ::
  "(int \<Rightarrow> string) \<Rightarrow> ('p \<Rightarrow> string \<Rightarrow> RouteEntry option) \<Rightarrow> 'p mgr_world call_env \<Rightarrow> string option \<Rightarrow> string \<Rightarrow>
   'p mgr_world \<Rightarrow> call_outcome \<times> 'p mgr_world" where
  "mg_RouteTool fmt_time lookup env name args m =
     (let ((res, evs), m') = RouteTool (mg_router lookup m) env name args m
      in (res, m'\<lparr>mw_mgr := fold (record_event fmt_time) evs (mw_mgr m')\<rparr>))"

definition mg_coords :: "'p mgr_world \<Rightarrow> unit coord_world list" where
  "mg_coords m = List.map_filter (\<lambda>(_, ref). mget (mw_store m) ref) (mg_coordinators (mw_mgr m))"

definition mg_Status :: "'p mgr_world \<Rightarrow> (string, ServiceStatus) gomap" where
  "mg_Status m =
     List.map_filter (\<lambda>(sid, ref). map_option (\<lambda>w. (sid, co_Status w)) (mget (mw_store m) ref))
       (mg_coordinators (mw_mgr m))"

definition IsReady :: "'p mgr_world \<Rightarrow> bool" where
  "IsReady m =
     (let (enabledCount, hasReadyWithTools) =
        fold (\<lambda>w (n, r). let st = co_Status w
                in if st_Enabled st
                   then (n + 1, r \<or> (st_State st = StateReady \<and> st_PublishedTools st > 0))
                   else (n, r))
          (mg_coords m) (0 :: nat, False)
      in enabledCount = 0 \<or> hasReadyWithTools)"

definition GetServerStatuses :: "('p \<Rightarrow> Snapshot) \<Rightarrow> 'p mgr_world \<Rightarrow> ServerStatusDTO list" where
  "GetServerStatuses snapshot m =
     (let snap = snapshot (mw_pub m)
      in sort_key ss_ID (map (\<lambda>w. let st = co_Status w
           in \<lparr>ss_ID = st_ID st, ss_State = st_State st, ss_PublishedToolCount = st_PublishedTools st,
               ss_UnpublishedToolCount = UnpublishedCount snap (st_ID st), ss_ActiveCalls = st_ActiveLeases st,
               ss_DesiredRevision = st_DesiredRevision st, ss_ActiveRevision = st_ActiveRevision st,
               ss_ErrorCategory = st_LastError st\<rparr>) (mg_coords m)))"

section \<open>Interleaving of Apply with the coordinators\<close>

text \<open>
  A call of \<^verbatim>\<open>Apply\<close> that released \<^verbatim>\<open>m.mu\<close> unpublishes the removed servers one by one, then stops their
  coordinators, in goroutines of their own and so in any order. \<open>my_pcs\<close> holds the program points of the
  coordinators' goroutines; one that is not listed is at the top of its loop.
\<close>

datatype apply_pc =
    ApUnpublish "(string, nat) gomap" "(string, nat) gomap"
  | ApStopping "nat list"
  | ApDone

record 'p mgr_sys =
  my_world :: "'p mgr_world"
  my_pcs :: "(nat, coord_pc) gomap"
  my_applies :: "apply_pc list"

definition pc_of :: "'p mgr_sys \<Rightarrow> nat \<Rightarrow> coord_pc" where
  "pc_of s ref = mget_or PcLoop (my_pcs s) ref"

inductive mgr_step :: "'p pub_ops \<Rightarrow> 'p mgr_sys \<Rightarrow> 'p mgr_sys \<Rightarrow> bool" for ops where
  start: "mg_Start (my_world s) = (r, m') \<Longrightarrow> mgr_step ops s (s\<lparr>my_world := m'\<rparr>)"
| apply_lock: "wf_map (rc_Servers cfg) \<Longrightarrow> \<forall>e \<in> set (rc_Servers cfg). wf_server (snd e) \<Longrightarrow>
    Apply_locked ops cfg (my_world s) = (Inr toRemove, m') \<Longrightarrow>
    mgr_step ops s (s\<lparr>my_world := m', my_applies := my_applies s @ [ApUnpublish toRemove toRemove]\<rparr>)"
| apply_unpublish: "i < length (my_applies s) \<Longrightarrow> my_applies s ! i = ApUnpublish ((sid, ref) # rest) gone \<Longrightarrow>
    mgr_step ops s (s\<lparr>my_world := Apply_unpublish ops sid (my_world s),
                     my_applies := (my_applies s)[i := ApUnpublish rest gone]\<rparr>)"
| apply_unpublished: "i < length (my_applies s) \<Longrightarrow> my_applies s ! i = ApUnpublish [] gone \<Longrightarrow>
    mgr_step ops s (s\<lparr>my_applies := (my_applies s)[i := ApStopping (map snd gone)]\<rparr>)"
| apply_stop: "i < length (my_applies s) \<Longrightarrow> my_applies s ! i = ApStopping refs \<Longrightarrow> ref \<in> set refs \<Longrightarrow>
    mgr_step ops s (s\<lparr>my_world := on_coord ref co_Stop (my_world s),
                     my_applies := (my_applies s)[i := ApStopping (remove1 ref refs)]\<rparr>)"
| apply_done: "i < length (my_applies s) \<Longrightarrow> my_applies s ! i = ApStopping [] \<Longrightarrow>
    mgr_step ops s (s\<lparr>my_applies := (my_applies s)[i := ApDone]\<rparr>)"
| coord: "mget (mw_store (my_world s)) ref = Some w \<Longrightarrow> co_started (cw_co w) \<Longrightarrow>
    co_move ops (plug (mw_pub (my_world s)) w) (pc_of s ref) w' pc' \<Longrightarrow>
    mgr_step ops s (s\<lparr>my_world := on_coord ref (\<lambda>_. w') (my_world s), my_pcs := mput ref pc' (my_pcs s)\<rparr>)"
| acquire: "mg_AcquireLease sid (my_world s) = (r, m') \<Longrightarrow> mgr_step ops s (s\<lparr>my_world := m'\<rparr>)"
| release: "mgr_step ops s (s\<lparr>my_world := mg_ReleaseLease lease (my_world s)\<rparr>)"

inductive mgr_reachable :: "'p pub_ops \<Rightarrow> 'p mgr_sys \<Rightarrow> bool" for ops where
  init: "mgr_reachable ops \<lparr>my_world = NewManager factory p pub opts, my_pcs = [], my_applies = []\<rparr>"
| step: "mgr_reachable ops s \<Longrightarrow> mgr_step ops s s' \<Longrightarrow> mgr_reachable ops s'"

end
