(* ===== verification/Manager_Properties.thy ===== *)
theory Manager_Properties
  imports Manager
begin

text \<open>
  Correctness of the manager: its map of coordinators stays well formed, \<^verbatim>\<open>Apply\<close> reconciles it with the
  configuration, the log of recent calls is bounded, readiness and preflight mean what their comments
  say, and a routed call gives its lease back. One theorem shows the interleaving in which a removed
  server stays published.
\<close>

section \<open>The store of coordinators\<close>

lemma plug_fields [simp]:
  "cw_co (plug p w) = cw_co w" "cw_pub (plug p w) = p" "cw_gens (plug p w) = cw_gens w"
  by (simp_all add: plug_def)

lemma unplug_fields [simp]: "cw_co (unplug w) = cw_co w" "cw_gens (unplug w) = cw_gens w"
  by (simp_all add: unplug_def)

lemma on_coord_fields [simp]:
  "mw_mgr (on_coord ref f m) = mw_mgr m" "mw_next (on_coord ref f m) = mw_next m"
  by (simp_all add: on_coord_def Let_def split: option.split)

lemma on_coord_store:
  "mget (mw_store (on_coord ref f m)) r =
     (if r = ref then map_option (\<lambda>w. unplug (f (plug (mw_pub m) w))) (mget (mw_store m) r)
      else mget (mw_store m) r)"
  by (auto simp: on_coord_def Let_def split: option.splits)

text \<open>
  The names in the map, the references in the store, the identity of the coordinators and
  their revisions.
\<close>

definition mgr_inv :: "'p mgr_world \<Rightarrow> bool" where
  "mgr_inv m \<longleftrightarrow>
     wf_map (mg_coordinators (mw_mgr m)) \<and>
     (\<forall>sid ref. mget (mg_coordinators (mw_mgr m)) sid = Some ref \<longrightarrow>
        (\<exists>w. mget (mw_store m) ref = Some w \<and> co_serverID (cw_co w) = sid)) \<and>
     (\<forall>ref w. mget (mw_store m) ref = Some w \<longrightarrow> ref < mw_next m \<and> co_rev (cw_co w) \<le> mg_revision (mw_mgr m))"

text \<open>A change of one coordinator that keeps its name and does not raise its revision.\<close>

lemma mgr_inv_on_coord:
  assumes "mgr_inv m"
    and "\<And>w. mget (mw_store m) ref = Some w \<Longrightarrow>
      co_serverID (cw_co (f (plug (mw_pub m) w))) = co_serverID (cw_co w) \<and>
      co_rev (cw_co (f (plug (mw_pub m) w))) \<le> mg_revision (mw_mgr m)"
  shows "mgr_inv (on_coord ref f m)"
  unfolding mgr_inv_def on_coord_fields
proof (intro conjI allI impI)
  show "wf_map (mg_coordinators (mw_mgr m))" using assms(1) by (simp add: mgr_inv_def)
next
  fix sid r assume "mget (mg_coordinators (mw_mgr m)) sid = Some r"
  with assms(1) obtain w where "mget (mw_store m) r = Some w" "co_serverID (cw_co w) = sid"
    unfolding mgr_inv_def by blast
  with assms(2) [of w] show "\<exists>w. mget (mw_store (on_coord ref f m)) r = Some w \<and> co_serverID (cw_co w) = sid"
    by (cases "r = ref") (auto simp: on_coord_store)
next
  fix r w assume w: "mget (mw_store (on_coord ref f m)) r = Some w"
  then have "mget (mw_store m) r \<noteq> None" by (auto simp: on_coord_store split: if_splits)
  then obtain w0 where w0: "mget (mw_store m) r = Some w0" by blast
  then show "r < mw_next m" using assms(1) unfolding mgr_inv_def by blast
  have "co_rev (cw_co w0) \<le> mg_revision (mw_mgr m)" using assms(1) w0 unfolding mgr_inv_def by blast
  with w w0 assms(2) [of w0] show "co_rev (cw_co w) \<le> mg_revision (mw_mgr m)"
    by (cases "r = ref") (auto simp: on_coord_store)
qed

lemma UpdateConfig_identity:
  "co_serverID (cw_co (snd (UpdateConfig ops new w))) = co_serverID (cw_co w)"
  "co_desired (cw_co (snd (UpdateConfig ops new w))) =
     (if diffConfig (co_cfg (cw_co w)) (des_ResolvedConfig new) = changeNone then co_desired (cw_co w) else new)"
  by (simp_all add: UpdateConfig_eq split: configChangeType.split)

lemma co_Stop_identity [simp]:
  "co_serverID (cw_co (co_Stop w)) = co_serverID (cw_co w)" "co_desired (cw_co (co_Stop w)) = co_desired (cw_co w)"
  "co_stopped (cw_co (co_Stop w))"
  by (auto simp: co_Stop_def stop_begin_def stop_end_def Let_def split: prod.split)

lemma co_move_identity:
  assumes "co_move ops w pc w' pc'"
  shows "co_serverID (cw_co w') = co_serverID (cw_co w) \<and> co_desired (cw_co w') = co_desired (cw_co w)"
  using assms
  by (cases rule: co_move.cases)
    (auto simp: run_top_def handleDisabled_begin_def handleConnecting_begin_def handleDisabled_remove_def
      take_old_gen_def session_created_def tools_listed_def commit_connect_def
      finish_attempt_def Let_def ready_reset_def ready_reconcile_def ready_disconnected_def
      refresh_commit_def failure_record_def failure_backoff_def split_def split: if_splits sum.splits)

section \<open>Applying a configuration\<close>

abbreviation coords_of :: "'p mgr_world \<Rightarrow> (string, nat) gomap" where
  "coords_of m \<equiv> mg_coordinators (mw_mgr m)"

lemma mgr_invD:
  assumes "mgr_inv m"
  shows "wf_map (coords_of m)"
    and "mget (coords_of m) sid = Some ref \<Longrightarrow> \<exists>w. mget (mw_store m) ref = Some w \<and> co_serverID (cw_co w) = sid"
    and "mget (mw_store m) ref = Some w \<Longrightarrow> ref < mw_next m"
    and "mget (mw_store m) ref = Some w \<Longrightarrow> co_rev (cw_co w) \<le> mg_revision (mw_mgr m)"
  using assms unfolding mgr_inv_def by blast+

lemma mgr_inv_refs_inj:
  assumes "mgr_inv m" and "mget (coords_of m) a = Some ref" and "mget (coords_of m) b = Some ref"
  shows "a = b"
  using mgr_invD(2) [OF assms(1,2)] mgr_invD(2) [OF assms(1,3)] by auto

definition configured :: "'p mgr_world \<Rightarrow> string \<times> ResolvedServer \<Rightarrow> bool" where
  "configured m e \<longleftrightarrow>
     (\<exists>ref w. mget (coords_of m) (fst e) = Some ref \<and> mget (mw_store m) ref = Some w \<and>
        co_serverID (cw_co w) = fst e \<and> diffConfig (co_cfg (cw_co w)) (snd e) = changeNone)"

lemma diffConfig_refl: "wf_server a \<Longrightarrow> diffConfig a a = changeNone"
  by (simp add: diffConfig_def wf_server_def mapsEqual_refl toolSetsEqual_iff)

lemma newCoordinator_fields [simp]:
  "co_serverID (newCoordinator sid d delays rst drain) = sid" "co_desired (newCoordinator sid d delays rst drain) = d"
  by (simp_all add: newCoordinator_def)

lemma co_Start_fields [simp]:
  "co_serverID (co_Start c) = co_serverID c" "co_desired (co_Start c) = co_desired c"
  by (simp_all add: co_Start_def)

text \<open>One iteration of the second loop of \<^verbatim>\<open>Apply\<close>: what it does to its own server and what it leaves alone.\<close>

lemma apply_server_step:
  assumes inv: "mgr_inv m" and wf: "wf_server srv"
    and m'_def: "m' = apply_server ops (mg_revision (mw_mgr m)) (sid, srv) m"
  shows "mgr_inv m'" and "mg_revision (mw_mgr m') = mg_revision (mw_mgr m)"
    and "mg_stopped (mw_mgr m') = mg_stopped (mw_mgr m)"
    and "configured m' (sid, srv)"
    and "sid' \<noteq> sid \<Longrightarrow> mget (coords_of m') sid' = mget (coords_of m) sid'"
    and "fst ` set (coords_of m') = insert sid (fst ` set (coords_of m))"
    and "mget (mw_store m) ref \<noteq> None \<Longrightarrow> mget (coords_of m) sid \<noteq> Some ref \<Longrightarrow>
      mget (mw_store m') ref = mget (mw_store m) ref"
proof -
  let ?d = "\<lparr>des_Revision = mg_revision (mw_mgr m), des_ResolvedConfig = srv\<rparr>"
  have all: "mgr_inv m' \<and> mg_revision (mw_mgr m') = mg_revision (mw_mgr m) \<and>
      mg_stopped (mw_mgr m') = mg_stopped (mw_mgr m) \<and> configured m' (sid, srv) \<and>
      (\<forall>sid'. sid' \<noteq> sid \<longrightarrow> mget (coords_of m') sid' = mget (coords_of m) sid') \<and>
      fst ` set (coords_of m') = insert sid (fst ` set (coords_of m)) \<and>
      (\<forall>ref. mget (mw_store m) ref \<noteq> None \<longrightarrow> mget (coords_of m) sid \<noteq> Some ref \<longrightarrow>
        mget (mw_store m') ref = mget (mw_store m) ref)"
  proof (cases "mget (coords_of m) sid")
    case None
    have lt: "mget (mw_store m) (mw_next m) = None" using mgr_invD(3) [OF inv] by (metis less_irrefl not_None_eq)
    have upd: "coords_of m' = mput sid (mw_next m) (coords_of m)" "mw_next m' = mw_next m + 1"
      "mg_revision (mw_mgr m') = mg_revision (mw_mgr m)" "mg_stopped (mw_mgr m') = mg_stopped (mw_mgr m)"
      and st: "\<exists>w. mw_store m' = mput (mw_next m) w (mw_store m) \<and> co_serverID (cw_co w) = sid \<and> co_desired (cw_co w) = ?d"
      using None by (auto simp: m'_def apply_server_def Let_def)
    from st obtain w where w: "mw_store m' = mput (mw_next m) w (mw_store m)" "co_serverID (cw_co w) = sid"
      "co_desired (cw_co w) = ?d"
      by blast
    have "mgr_inv m'"
      unfolding mgr_inv_def upd w(1)
      using mgr_invD [OF inv] lt w(2,3) by (auto simp: less_Suc_eq split: if_splits)
    moreover have "configured m' (sid, srv)"
      using w wf by (simp add: configured_def upd diffConfig_refl)
    ultimately show ?thesis using upd w(1) lt by (auto simp: AList.dom_update)
  next
    case (Some ref)
    then obtain w where w: "mget (mw_store m) ref = Some w" "co_serverID (cw_co w) = sid"
      using mgr_invD(2) [OF inv] by blast
    have m': "m' = on_coord ref (\<lambda>w. snd (UpdateConfig ops ?d w)) m"
      using Some by (simp add: m'_def apply_server_def Let_def)
    have "mgr_inv m'"
      unfolding m' using inv mgr_invD(4) [OF inv]
      by (intro mgr_inv_on_coord) (auto simp: UpdateConfig_identity)
    moreover have "configured m' (sid, srv)"
      using Some w wf unfolding configured_def m'
      by (auto simp: on_coord_store UpdateConfig_identity diffConfig_refl)
    moreover have "sid \<in> fst ` set (coords_of m)" using Some by (metis domI dom_map_of_conv_image_fst)
    ultimately show ?thesis using Some by (auto simp: m' on_coord_store)
  qed
  from all show "mgr_inv m'" "mg_revision (mw_mgr m') = mg_revision (mw_mgr m)"
    "mg_stopped (mw_mgr m') = mg_stopped (mw_mgr m)" "configured m' (sid, srv)"
    "fst ` set (coords_of m') = insert sid (fst ` set (coords_of m))"
    "sid' \<noteq> sid \<Longrightarrow> mget (coords_of m') sid' = mget (coords_of m) sid'"
    "mget (mw_store m) ref \<noteq> None \<Longrightarrow> mget (coords_of m) sid \<noteq> Some ref \<Longrightarrow>
      mget (mw_store m') ref = mget (mw_store m) ref"
    by blast+
qed

lemma apply_servers:
  assumes "mgr_inv m" and "wf_map es" and "\<forall>e \<in> set es. wf_server (snd e)"
    and "m' = fold (apply_server ops (mg_revision (mw_mgr m))) es m"
  shows "mgr_inv m' \<and> mg_revision (mw_mgr m') = mg_revision (mw_mgr m) \<and>
    mg_stopped (mw_mgr m') = mg_stopped (mw_mgr m) \<and> (\<forall>e \<in> set es. configured m' e) \<and>
    fst ` set (coords_of m') = fst ` set es \<union> fst ` set (coords_of m) \<and>
    (\<forall>sid. sid \<notin> fst ` set es \<longrightarrow> mget (coords_of m') sid = mget (coords_of m) sid) \<and>
    (\<forall>ref. mget (mw_store m) ref \<noteq> None \<longrightarrow> (\<forall>sid \<in> fst ` set es. mget (coords_of m) sid \<noteq> Some ref) \<longrightarrow>
       mget (mw_store m') ref = mget (mw_store m) ref)"
  using assms
proof (induction es arbitrary: m)
  case Nil
  then show ?case by simp
next
  case (Cons e es)
  obtain sid srv where e: "e = (sid, srv)" by fastforce
  let ?m1 = "apply_server ops (mg_revision (mw_mgr m)) (sid, srv) m"
  note one = apply_server_step [where srv = srv and ops = ops and sid = sid, OF Cons.prems(1) _ refl]
  have wf: "wf_server srv" using Cons.prems(3) e by simp
  have rv: "mg_revision (mw_mgr ?m1) = mg_revision (mw_mgr m)" by (rule one(2) [OF wf])
  have fresh: "sid \<notin> fst ` set es" using Cons.prems(2) e by simp
  have m': "m' = fold (apply_server ops (mg_revision (mw_mgr ?m1))) es ?m1"
    using Cons.prems(4) e rv by simp
  have IH: "mgr_inv m' \<and> mg_revision (mw_mgr m') = mg_revision (mw_mgr ?m1) \<and>
    mg_stopped (mw_mgr m') = mg_stopped (mw_mgr ?m1) \<and> (\<forall>e \<in> set es. configured m' e) \<and>
    fst ` set (coords_of m') = fst ` set es \<union> fst ` set (coords_of ?m1) \<and>
    (\<forall>sid. sid \<notin> fst ` set es \<longrightarrow> mget (coords_of m') sid = mget (coords_of ?m1) sid) \<and>
    (\<forall>ref. mget (mw_store ?m1) ref \<noteq> None \<longrightarrow> (\<forall>sid \<in> fst ` set es. mget (coords_of ?m1) sid \<noteq> Some ref) \<longrightarrow>
       mget (mw_store m') ref = mget (mw_store ?m1) ref)"
    by (rule Cons.IH [OF one(1) [OF wf] _ _ m']) (use Cons.prems(2,3) in simp_all)
  obtain ref w where r: "mget (coords_of ?m1) sid = Some ref" "mget (mw_store ?m1) ref = Some w"
    "co_serverID (cw_co w) = sid" "diffConfig (co_cfg (cw_co w)) srv = changeNone"
    using one(4) [OF wf] unfolding configured_def by auto
  have "\<forall>s \<in> fst ` set es. mget (coords_of ?m1) s \<noteq> Some ref"
    using mgr_inv_refs_inj [OF one(1) [OF wf] r(1)] fresh by blast
  then have "mget (mw_store m') ref = Some w" using IH r(2) by simp
  moreover have "mget (coords_of m') sid = Some ref" using IH fresh r(1) by simp
  ultimately have "configured m' e" using r(3,4) by (simp add: configured_def e)
  moreover have "mget (mw_store m') ref' = mget (mw_store m) ref'"
    if *: "mget (mw_store m) ref' \<noteq> None" "\<forall>s \<in> fst ` set (e # es). mget (coords_of m) s \<noteq> Some ref'" for ref'
  proof -
    have 1: "mget (mw_store ?m1) ref' = mget (mw_store m) ref'"
      using one(7) [OF wf *(1)] *(2) e by simp
    have "mget (coords_of ?m1) s \<noteq> Some ref'" if "s \<in> fst ` set es" for s
      using one(5) [OF wf, of s] *(2) that fresh by (metis image_insert insertCI list.simps(15))
    with 1 IH *(1) show ?thesis by metis
  qed
  ultimately show ?case
    using IH one(2,3,5,6) [OF wf] e by auto
qed

text \<open>What \<^verbatim>\<open>Apply\<close> has done when it releases \<^verbatim>\<open>m.mu\<close>.\<close>

lemma map_of_filter_keys:
  "wf_map m \<Longrightarrow> mget (filter (\<lambda>(k, _). P k) m) k = (if P k then mget m k else None)"
  by (induction m) (auto simp: map_of_eq_None_iff)

lemma Apply_locked_effect:
  assumes inv: "mgr_inv m" and wf: "wf_map (rc_Servers cfg)" "\<forall>e \<in> set (rc_Servers cfg). wf_server (snd e)"
    and run: "Apply_locked ops cfg m = (Inr gone, m')"
  shows "mgr_inv m' \<and> mg_revision (mw_mgr m') = mg_revision (mw_mgr m) + 1 \<and> \<not> mg_stopped (mw_mgr m') \<and>
    gone = removed_servers cfg (mw_mgr m) \<and> (\<forall>e \<in> set (rc_Servers cfg). configured m' e) \<and>
    fst ` set (coords_of m') = fst ` set (rc_Servers cfg) \<and>
    (\<forall>(sid, ref) \<in> set gone. \<exists>w. mget (mw_store m') ref = Some w \<and> co_serverID (cw_co w) = sid \<and>
       sid \<notin> fst ` set (rc_Servers cfg))"
proof -
  let ?P = "\<lambda>sid. sid \<in> fst ` set (rc_Servers cfg)"
  let ?kept = "filter (\<lambda>(sid, _). ?P sid) (coords_of m)"
  let ?m0 = "m\<lparr>mw_mgr := (mw_mgr m)\<lparr>mg_revision := mg_revision (mw_mgr m) + 1, mg_coordinators := ?kept\<rparr>\<rparr>"
  have ns: "\<not> mg_stopped (mw_mgr m)" and gone: "gone = removed_servers cfg (mw_mgr m)"
    and m': "m' = fold (apply_server ops (mg_revision (mw_mgr ?m0))) (rc_Servers cfg) ?m0"
    using run by (auto simp: Apply_locked_def Let_def split: if_splits)
  have kept: "mget ?kept sid = (if ?P sid then mget (coords_of m) sid else None)" for sid
    by (rule map_of_filter_keys [OF mgr_invD(1) [OF inv]])
  have inv0: "mgr_inv ?m0"
    unfolding mgr_inv_def
  proof (intro conjI allI impI)
    show "wf_map (coords_of ?m0)" using mgr_invD(1) [OF inv] by (simp add: distinct_map_filter)
  next
    fix sid ref assume "mget (coords_of ?m0) sid = Some ref"
    then have "mget (coords_of m) sid = Some ref" by (simp add: kept split: if_splits)
    from mgr_invD(2) [OF inv this]
    show "\<exists>w. mget (mw_store ?m0) ref = Some w \<and> co_serverID (cw_co w) = sid" by simp
  next
    fix ref w assume "mget (mw_store ?m0) ref = Some w"
    with mgr_invD(3,4) [OF inv, of ref w] show "ref < mw_next ?m0" "co_rev (cw_co w) \<le> mg_revision (mw_mgr ?m0)"
      by simp_all
  qed
  note fx = apply_servers [OF inv0 wf m']
  have g: "\<exists>w. mget (mw_store m') ref = Some w \<and> co_serverID (cw_co w) = sid \<and> sid \<notin> fst ` set (rc_Servers cfg)"
    if "(sid, ref) \<in> set gone" for sid ref
  proof -
    have s: "mget (coords_of m) sid = Some ref" "sid \<notin> fst ` set (rc_Servers cfg)"
      using that mgr_invD(1) [OF inv] by (auto simp: gone removed_servers_def)
    then obtain w where w: "mget (mw_store m) ref = Some w" "co_serverID (cw_co w) = sid"
      using mgr_invD(2) [OF inv] by blast
    have "mget (coords_of ?m0) s' \<noteq> Some ref" if "s' \<in> fst ` set (rc_Servers cfg)" for s'
      using mgr_inv_refs_inj [OF inv s(1), of s'] s(2) that by (auto simp: kept)
    with fx w have "mget (mw_store m') ref = Some w" by simp
    with w s(2) show ?thesis by blast
  qed
  have "fst ` set ?kept \<subseteq> fst ` set (rc_Servers cfg)" by force
  with fx have dom: "fst ` set (coords_of m') = fst ` set (rc_Servers cfg)" by simp blast
  have g': "\<forall>(sid, ref) \<in> set gone. \<exists>w. mget (mw_store m') ref = Some w \<and> co_serverID (cw_co w) = sid \<and>
       sid \<notin> fst ` set (rc_Servers cfg)"
    using g by blast
  from fx ns gone dom g' show ?thesis by simp
qed

text \<open>Unpublishing changes the publisher only; stopping a coordinator keeps names and configurations.\<close>

lemma unpublish_fold [simp]:
  "mw_mgr (fold (\<lambda>(sid, _). Apply_unpublish ops sid) gone m) = mw_mgr m"
  "mw_store (fold (\<lambda>(sid, _). Apply_unpublish ops sid) gone m) = mw_store m"
  "mw_next (fold (\<lambda>(sid, _). Apply_unpublish ops sid) gone m) = mw_next m"
  by (induction gone arbitrary: m) (auto simp: Apply_unpublish_def split_def)

lemma mgr_inv_cong:
  "mw_mgr m' = mw_mgr m \<Longrightarrow> mw_store m' = mw_store m \<Longrightarrow> mw_next m' = mw_next m \<Longrightarrow> mgr_inv m' = mgr_inv m"
  by (simp add: mgr_inv_def)

lemma stop_fold:
  assumes "mgr_inv m" and "m' = fold (\<lambda>(_, ref). on_coord ref co_Stop) gone m"
  shows "mgr_inv m' \<and> mw_mgr m' = mw_mgr m \<and>
    (\<forall>ref. ref \<notin> snd ` set gone \<longrightarrow> mget (mw_store m') ref = mget (mw_store m) ref) \<and>
    (\<forall>ref w. mget (mw_store m) ref = Some w \<longrightarrow>
       (\<exists>w'. mget (mw_store m') ref = Some w' \<and> (ref \<in> snd ` set gone \<or> co_stopped (cw_co w) \<longrightarrow> co_stopped (cw_co w'))))"
  using assms
proof (induction gone arbitrary: m)
  case Nil
  then show ?case by simp
next
  case (Cons e gone)
  obtain sid r where e: "e = (sid, r)" by fastforce
  let ?m1 = "on_coord r co_Stop m"
  have inv1: "mgr_inv ?m1"
    using Cons.prems(1) mgr_invD(4) [OF Cons.prems(1)] by (intro mgr_inv_on_coord) auto
  have "m' = fold (\<lambda>(_, ref). on_coord ref co_Stop) gone ?m1" using Cons.prems(2) e by simp
  note IH = Cons.IH [OF inv1 this]
  have st: "mget (mw_store m) ref = Some w \<Longrightarrow>
      \<exists>w1. mget (mw_store ?m1) ref = Some w1 \<and> (ref = r \<or> co_stopped (cw_co w) \<longrightarrow> co_stopped (cw_co w1))" for ref w
    by (auto simp: on_coord_store)
  have "\<exists>w'. mget (mw_store m') ref = Some w' \<and>
      (ref \<in> snd ` set (e # gone) \<or> co_stopped (cw_co w) \<longrightarrow> co_stopped (cw_co w'))"
    if "mget (mw_store m) ref = Some w" for ref w
    using st [OF that] IH e by fastforce
  with IH e show ?case by (auto simp: on_coord_store)
qed

text \<open>The whole of \<^verbatim>\<open>Apply\<close>.\<close>

lemma Apply_effect:
  assumes "mgr_inv m" and "\<not> mg_stopped (mw_mgr m)" and "wf_map (rc_Servers cfg)"
    and "\<forall>e \<in> set (rc_Servers cfg). wf_server (snd e)"
    and "Apply ops (Some cfg) m = (r, m')"
  shows "r = None \<and> mgr_inv m' \<and> mg_revision (mw_mgr m') = mg_revision (mw_mgr m) + 1 \<and>
    set (mkeys (coords_of m')) = set (mkeys (rc_Servers cfg)) \<and>
    (\<forall>e \<in> set (rc_Servers cfg). configured m' e) \<and>
    (\<forall>(sid, ref) \<in> set (removed_servers cfg (mw_mgr m)). \<exists>w. mget (mw_store m') ref = Some w \<and> co_stopped (cw_co w))"
proof -
  obtain gone m1 where run: "Apply_locked ops cfg m = (Inr gone, m1)"
    using assms(2) by (auto simp: Apply_locked_def Let_def)
  note fx = Apply_locked_effect [OF assms(1,3,4) run]
  let ?m2 = "fold (\<lambda>(sid, _). Apply_unpublish ops sid) gone m1"
  have r: "r = None" and m': "m' = fold (\<lambda>(_, ref). on_coord ref co_Stop) gone ?m2"
    using assms(5) run by (auto simp: Apply_def)
  have "mgr_inv ?m2 = mgr_inv m1" by (rule mgr_inv_cong) simp_all
  with fx have "mgr_inv ?m2" by simp
  note st = stop_fold [OF this m']
  have kept: "configured m' e" if "e \<in> set (rc_Servers cfg)" for e
  proof -
    from fx that obtain ref w where c: "mget (coords_of m1) (fst e) = Some ref" "mget (mw_store m1) ref = Some w"
      "co_serverID (cw_co w) = fst e" "diffConfig (co_cfg (cw_co w)) (snd e) = changeNone"
      unfolding configured_def by blast
    have "ref \<notin> snd ` set gone" using fx c(2,3) that by fastforce
    with st c show ?thesis by (auto simp: configured_def)
  qed
  have "\<exists>w. mget (mw_store m') ref = Some w \<and> co_stopped (cw_co w)" if "(sid, ref) \<in> set gone" for sid ref
  proof -
    have "\<forall>(sid, ref) \<in> set gone. \<exists>w. mget (mw_store m1) ref = Some w \<and> co_serverID (cw_co w) = sid \<and>
       sid \<notin> fst ` set (rc_Servers cfg)" using fx by (elim conjE)
    from bspec [OF this that] obtain w where "mget (mw_store m1) ref = Some w" by auto
    moreover have "ref \<in> snd ` set gone" using that by force
    ultimately show ?thesis using st by simp blast
  qed
  then have "\<forall>(sid, ref) \<in> set gone. \<exists>w. mget (mw_store m') ref = Some w \<and> co_stopped (cw_co w)" by blast
  moreover have "gone = removed_servers cfg (mw_mgr m)" using fx by (elim conjE)
  ultimately show ?thesis using r fx st kept by simp
qed


section \<open>The invariant of the manager\<close>

lemma start_fold:
  assumes "mgr_inv m"
  shows "mgr_inv (fold (\<lambda>(_, ref). on_coord ref (\<lambda>w. w\<lparr>cw_co := co_Start (cw_co w)\<rparr>)) cs m)"
  using assms
proof (induction cs arbitrary: m)
  case Nil
  then show ?case by simp
next
  case (Cons c cs)
  have "mgr_inv (on_coord (snd c) (\<lambda>w. w\<lparr>cw_co := co_Start (cw_co w)\<rparr>) m)"
    using Cons.prems mgr_invD(4) [OF Cons.prems] by (intro mgr_inv_on_coord) auto
  from Cons.IH [OF this] show ?case by (simp add: split_def)
qed

lemma mgr_inv_store:
  assumes inv: "mgr_inv m" and w: "mget (mw_store m) ref = Some w"
    and w': "co_serverID (cw_co w') = co_serverID (cw_co w)" "co_desired (cw_co w') = co_desired (cw_co w)"
  shows "mgr_inv (m\<lparr>mw_store := mput ref w' (mw_store m)\<rparr>)"
proof -
  have "mgr_inv (on_coord ref (\<lambda>_. plug (mw_pub m) w') m)"
    using mgr_invD(4) [OF inv w] w w' by (intro mgr_inv_on_coord [OF inv]) auto
  moreover have "unplug (plug (mw_pub m) w') = w'" by (simp add: plug_def unplug_def)
  ultimately show ?thesis using w by (simp add: on_coord_def Let_def)
qed

lemma mgr_inv_acquire:
  assumes "mgr_inv m" and "mg_AcquireLease sid m = (r, m')"
  shows "mgr_inv m'"
  using assms co_AcquireLease_world mgr_inv_store [OF assms(1)]
  by (fastforce simp: mg_AcquireLease_def Let_def split: option.splits prod.splits sum.splits if_splits)

lemma apply_option_frame:
  "mg_coordinators (fold apply_option opts g) = mg_coordinators g"
  "mg_revision (fold apply_option opts g) = mg_revision g"
  "mg_recentCalls (fold apply_option opts g) = mg_recentCalls g"
proof -
  have one: "mg_coordinators (apply_option opt g) = mg_coordinators g \<and> mg_revision (apply_option opt g) = mg_revision g \<and>
      mg_recentCalls (apply_option opt g) = mg_recentCalls g" for opt g
    by (cases opt) (auto split: option.splits)
  have "mg_coordinators (fold apply_option opts g) = mg_coordinators g \<and>
      mg_revision (fold apply_option opts g) = mg_revision g \<and>
      mg_recentCalls (fold apply_option opts g) = mg_recentCalls g"
    by (induction opts arbitrary: g) (simp_all add: one)
  then show "mg_coordinators (fold apply_option opts g) = mg_coordinators g"
    "mg_revision (fold apply_option opts g) = mg_revision g"
    "mg_recentCalls (fold apply_option opts g) = mg_recentCalls g"
    by simp_all
qed


section \<open>Recent calls\<close>

definition call_limit :: "Manager \<Rightarrow> int" where
  "call_limit g = (if mg_maxRecentCalls g \<le> 0 \<or> mg_maxRecentCalls g > MaxRecentCalls
     then MaxRecentCalls else mg_maxRecentCalls g)"

lemma call_limit_bounds: "0 < call_limit g" "call_limit g \<le> MaxRecentCalls"
  by (simp_all add: call_limit_def MaxRecentCalls_def)

lemma RecordCall_eq:
  "call_limit (RecordCall c g) = call_limit g \<and>
   mg_recentCalls (RecordCall c g) = last_n (nat (call_limit g)) (mg_recentCalls g @ [c])"
  by (auto simp: RecordCall_def Let_def call_limit_def last_n_def MaxRecentCalls_def)

lemma last_n_last_n: "last_n n (last_n n xs @ ys) = last_n n (xs @ ys)"
  by (cases "n \<le> length xs") (simp_all add: last_n_def add.commute)

text \<open>
  The log of recent calls is the end of the history: after any calls it holds the last \<open>n\<close> of
  everything recorded, where \<open>n\<close> is the configured maximum, and never more than 200.
\<close>

theorem recent_calls_are_last:
  "GetRecentCalls (fold RecordCall calls g) =
     (if calls = [] then GetRecentCalls g else last_n (nat (call_limit g)) (GetRecentCalls g @ calls)) \<and>
   (calls \<noteq> [] \<longrightarrow> int (length (GetRecentCalls (fold RecordCall calls g))) \<le> MaxRecentCalls)"
proof -
  have eq: "calls \<noteq> [] \<Longrightarrow>
      mg_recentCalls (fold RecordCall calls g) = last_n (nat (call_limit g)) (mg_recentCalls g @ calls)"
  proof (induction calls arbitrary: g)
    case Nil
    then show ?case by simp
  next
    case (Cons c calls)
    show ?case
    proof (cases "calls = []")
      case True
      then show ?thesis by (simp add: RecordCall_eq)
    next
      case False
      from Cons.IH [OF this, of "RecordCall c g"] show ?thesis
        by (simp add: RecordCall_eq last_n_last_n)
    qed
  qed
  have "int (length (last_n (nat (call_limit g)) xs)) \<le> MaxRecentCalls" for xs :: "RecentCallDTO list"
    using call_limit_bounds [of g] by (simp add: last_n_def)
  with eq show ?thesis by (auto simp: GetRecentCalls_def)
qed

section \<open>Readiness\<close>

text \<open>
  \<^verbatim>\<open>IsReady\<close> follows its contract: the hub is ready when no server is enabled, or when some enabled server
  is ready and has published tools.
\<close>

theorem IsReady_contract:
  "IsReady m \<longleftrightarrow>
     (\<forall>w \<in> set (mg_coords m). \<not> rs_Enabled (co_cfg (cw_co w))) \<or>
     (\<exists>w \<in> set (mg_coords m). rs_Enabled (co_cfg (cw_co w)) \<and> co_state (cw_co w) = StateReady \<and>
        co_publishedCount (cw_co w) > 0)"
proof -
  let ?en = "\<lambda>w :: unit coord_world. rs_Enabled (co_cfg (cw_co w))"
  let ?ok = "\<lambda>w :: unit coord_world. co_state (cw_co w) = StateReady \<and> co_publishedCount (cw_co w) > 0"
  let ?f = "\<lambda>w (n, r). let st = co_Status w
                in if st_Enabled st then (n + 1, r \<or> (st_State st = StateReady \<and> st_PublishedTools st > 0)) else (n, r)"
  have "fold ?f ws (n :: nat, r) = (n + length (filter ?en ws), r \<or> (\<exists>w \<in> set ws. ?en w \<and> ?ok w))"
    for ws n r
    by (induction ws arbitrary: n r) (auto simp: co_Status_def Let_def split_def)
  then show ?thesis by (auto simp: IsReady_def filter_empty_conv)
qed

section \<open>Preflight\<close>

definition probe_ok :: "catalog_env \<Rightarrow> session_factory \<Rightarrow> string \<times> ResolvedServer \<Rightarrow> bool" where
  "probe_ok env factory e \<longleftrightarrow>
     serverIDRegex (fst e) \<and>
     (\<exists>tools. factory (snd e) = Inr (Inr tools) \<and> (\<forall>t \<in> set tools. ValidateTool env (Some t) = None))"

lemma ada_publish_outcome:
  obtains snap a' where "ada_PublishServer env a sid (map Some ts) dis =
    Some ((snap, if serverIDRegex sid then None else Some (ErrInvalidServerID sid)), a')"
proof -
  obtain x y s e c' where u: "UpdateServerTools env (ada_cat a) sid (map Some ts) dis = Some ((x, y, s, e), c')"
    using UpdateServerTools_total [of env "ada_cat a" sid ts dis] by (metis option.exhaust prod.collapse)
  have "e = (if serverIDRegex sid then None else Some (ErrInvalidServerID sid))"
    using u update_error [OF u] by (auto simp: UpdateServerTools_def ValidateServerID_def split: if_splits)
  with u that show ?thesis by (simp add: ada_PublishServer_def)
qed

lemma preflight_loop_spec:
  "(fst (preflight_loop env factory es a) = None \<longleftrightarrow> (\<forall>e \<in> set es. probe_ok env factory e)) \<and>
   fst (preflight_loop env factory es a) \<noteq> Some PreflightPanic \<and>
   (\<exists>k. snd (preflight_loop env factory es a) =
      concat (map (\<lambda>(sid, srv). case factory srv of Inl _ \<Rightarrow> [ProbeDial sid]
                    | Inr _ \<Rightarrow> [ProbeDial sid, ProbeClose sid]) (take k es)))"
proof (induction es arbitrary: a)
  case Nil
  then show ?case by simp
next
  case (Cons e es)
  obtain sid srv where e: "e = (sid, srv)" by fastforce
  show ?case
  proof (cases "factory srv")
    case (Inl err)
    then show ?thesis by (auto simp: e probe_ok_def intro: exI [of _ 1])
  next
    case (Inr listing)
    show ?thesis
    proof (cases "\<exists>tools. listing = Inr tools \<and> (\<forall>t \<in> set tools. ValidateTool env (Some t) = None) \<and> serverIDRegex sid")
      case False
      have "\<exists>err. preflight_loop env factory (e # es) a = (Some (PreflightFailed sid err), [ProbeDial sid, ProbeClose sid])"
      proof (cases listing)
        case (Inr tools)
        obtain snap a' where "ada_PublishServer env a sid (map Some tools) (disabledNames (rs_DisabledTools srv)) =
            Some ((snap, if serverIDRegex sid then None else Some (ErrInvalidServerID sid)), a')"
          by (rule ada_publish_outcome)
        with False Inr \<open>factory srv = Inr listing\<close> show ?thesis
          by (auto simp: e list_ex_iff Let_def)
      qed (use \<open>factory srv = Inr listing\<close> in \<open>simp add: e Let_def\<close>)
      with False Inr show ?thesis by (auto simp: e probe_ok_def intro!: exI [of _ 1])
    next
      case True
      then obtain tools where t: "listing = Inr tools" "\<forall>t \<in> set tools. ValidateTool env (Some t) = None" "serverIDRegex sid"
        by blast
      obtain snap a' where p: "ada_PublishServer env a sid (map Some tools) (disabledNames (rs_DisabledTools srv)) =
          Some ((snap, if serverIDRegex sid then None else Some (ErrInvalidServerID sid)), a')"
        by (rule ada_publish_outcome)
      have eq: "preflight_loop env factory (e # es) a =
          (fst (preflight_loop env factory es a'), [ProbeDial sid, ProbeClose sid] @ snd (preflight_loop env factory es a'))"
        using Inr t p by (auto simp: e list_ex_iff Let_def split_def)
      have ok: "probe_ok env factory e" using Inr t by (auto simp: probe_ok_def e)
      from Cons.IH [of a'] obtain k where "snd (preflight_loop env factory es a') =
          concat (map (\<lambda>(sid, srv). case factory srv of Inl _ \<Rightarrow> [ProbeDial sid]
                    | Inr _ \<Rightarrow> [ProbeDial sid, ProbeClose sid]) (take k es))"
        by blast
      with Cons.IH [of a'] ok Inr show ?thesis
        unfolding eq by (auto simp: e intro!: exI [of _ "Suc k"])
    qed
  qed
qed

text \<open>
  \<^verbatim>\<open>Preflight\<close> accepts a configuration exactly when every enabled server whose connection would be made
  anew can be reached, lists its tools and lists valid ones only; it dials servers in the order of their
  names, each at most once, up to the first failure, and closes every session that it opened.
\<close>

theorem Preflight_exact:
  assumes "\<not> mg_stopped (mw_mgr m)"
  shows "\<exists>probes. sorted (map fst probes) \<and>
    set probes = {(sid, srv). (sid, srv) \<in> set (rc_Servers c) \<and> rs_Enabled srv \<and>
       (\<forall>old. mget (current_configs m) sid = Some old \<longrightarrow> diffConfig old srv = changeConnection)} \<and>
    (fst (Preflight env (Some c) m) = None \<longleftrightarrow> (\<forall>e \<in> set probes. probe_ok env (mg_factory (mw_mgr m)) e)) \<and>
    (\<exists>k. snd (Preflight env (Some c) m) =
      concat (map (\<lambda>(sid, srv). case mg_factory (mw_mgr m) srv of Inl _ \<Rightarrow> [ProbeDial sid]
                    | Inr _ \<Rightarrow> [ProbeDial sid, ProbeClose sid]) (take k probes)))"
proof -
  let ?probes = "preflight_servers (current_configs m) (rc_Servers c)"
  have pf: "Preflight env (Some c) m =
      preflight_loop env (mg_factory (mw_mgr m)) ?probes (NewCatalogPublisher None)"
    using assms by (simp add: Preflight_def Let_def)
  note spec = preflight_loop_spec [of env "mg_factory (mw_mgr m)" ?probes "NewCatalogPublisher None"]
  have "sorted (map fst ?probes)" by (simp add: preflight_servers_def)
  moreover have "set ?probes = {(sid, srv). (sid, srv) \<in> set (rc_Servers c) \<and> rs_Enabled srv \<and>
       (\<forall>old. mget (current_configs m) sid = Some old \<longrightarrow> diffConfig old srv = changeConnection)}"
    by (auto simp: preflight_servers_def split: option.splits)
  moreover note conjunct1 [OF spec] conjunct2 [OF conjunct2 [OF spec]]
  ultimately show ?thesis unfolding pf by (intro exI [of _ ?probes] conjI)
qed

section \<open>The manager as a lease provider\<close>

definition gens_active :: "unit coord_world \<Rightarrow> int" where
  "gens_active w = (\<Sum>p\<leftarrow>cw_gens w. gen_active (snd p))"

definition mg_outstanding :: "'p mgr_world \<Rightarrow> int" where
  "mg_outstanding m = (\<Sum>p\<leftarrow>mw_store m. gens_active (snd p))"

definition mg_holds :: "nat \<times> nat \<Rightarrow> 'p mgr_world \<Rightarrow> bool" where
  "mg_holds l m \<longleftrightarrow> (\<exists>g. mg_lease_gen l m = Some g \<and> gen_active g > 0)"

definition mg_valid :: "'p mgr_world \<Rightarrow> bool" where
  "mg_valid m \<longleftrightarrow> wf_map (mw_store m) \<and>
     (\<forall>(_, w) \<in> set (mw_store m). wf_map (cw_gens w) \<and> (\<forall>(_, g) \<in> set (cw_gens w). gen_active g \<ge> 0))"

lemma mg_validD:
  assumes "mg_valid m" and "mget (mw_store m) r = Some w"
  shows "wf_map (mw_store m)" "wf_map (cw_gens w)" "mget (cw_gens w) k = Some g \<Longrightarrow> gen_active g \<ge> 0"
  using assms unfolding mg_valid_def by (auto dest!: map_of_SomeD)

text \<open>Replacing one generation of one coordinator changes the sum by the difference of their counts.\<close>

lemma replace_gen:
  assumes v: "mg_valid m" and w: "mget (mw_store m) r = Some w" and g: "mget (cw_gens w) k = Some g"
    and g': "gen_active g' \<ge> 0"
  defines "m' \<equiv> m\<lparr>mw_store := mput r (w\<lparr>cw_gens := mput k g' (cw_gens w)\<rparr>) (mw_store m)\<rparr>"
  shows "mg_valid m'" and "mg_outstanding m' = mg_outstanding m - gen_active g + gen_active g'"
    and "mg_lease_gen (r, k) m' = Some g'"
proof -
  note d = mg_validD [OF v w]
  have gens: "gens_active (w\<lparr>cw_gens := mput k g' (cw_gens w)\<rparr>) = gens_active w - gen_active g + gen_active g'"
    using sum_list_replace [OF d(2) g] by (simp add: gens_active_def)
  show "mg_outstanding m' = mg_outstanding m - gen_active g + gen_active g'"
    using sum_list_replace [OF d(1) w, of gens_active "w\<lparr>cw_gens := mput k g' (cw_gens w)\<rparr>"] gens
    by (simp add: mg_outstanding_def m'_def)
  show "mg_valid m'"
    using v d(2) g' map_of_SomeD [OF w] by (fastforce simp: mg_valid_def m'_def in_mput_iff)
  show "mg_lease_gen (r, k) m' = Some g'" by (simp add: mg_lease_gen_def m'_def)
qed

lemma co_acquire_cases:
  assumes "co_AcquireLease w = (res, w')"
  shows "(\<exists>e. res = Inl e) \<or>
    (\<exists>k g g'. res = Inr k \<and> mget (cw_gens w) k = Some g \<and> acquire g = (Inr (), g') \<and>
       w' = w\<lparr>cw_gens := mput k g' (cw_gens w)\<rparr>)"
  using assms
  by (auto simp: co_AcquireLease_def Let_def split: if_splits option.splits prod.splits sum.splits)

lemma mg_acquire_cases:
  assumes "mg_AcquireLease sid m = (res, m')"
  obtains (failed) e where "res = Inl e" "m' = m"
  | (acquired) r w k g g' where "res = Inr (r, k)" "mget (mw_store m) r = Some w" "mget (cw_gens w) k = Some g"
      "acquire g = (Inr (), g')" "m' = m\<lparr>mw_store := mput r (w\<lparr>cw_gens := mput k g' (cw_gens w)\<rparr>) (mw_store m)\<rparr>"
proof (cases "\<not> mg_stopped (mw_mgr m) \<and> (\<exists>r w. mget (coords_of m) sid = Some r \<and> mget (mw_store m) r = Some w)")
  case False
  with assms have "\<exists>e. res = Inl e \<and> m' = m"
    by (auto simp: mg_AcquireLease_def Let_def split: if_splits option.splits)
  with failed show ?thesis by blast
next
  case True
  then obtain r w where r: "mget (coords_of m) sid = Some r" "mget (mw_store m) r = Some w" by blast
  obtain res' w' where c: "co_AcquireLease w = (res', w')" by fastforce
  from co_acquire_cases [OF c] show ?thesis
  proof (elim disjE exE conjE)
    fix e assume "res' = Inl e"
    with True r c assms show ?thesis by (intro failed [of e]) (auto simp: mg_AcquireLease_def Let_def)
  next
    fix k g g' assume "res' = Inr k" "mget (cw_gens w) k = Some g" "acquire g = (Inr (), g')"
      "w' = w\<lparr>cw_gens := mput k g' (cw_gens w)\<rparr>"
    with True r c assms show ?thesis
      by (intro acquired [of r k w g g']) (auto simp: mg_AcquireLease_def Let_def)
  qed
qed

interpretation mgr_leases: lease_provider mg_AcquireLease mg_ReleaseLease mg_outstanding mg_holds mg_valid
proof
  fix m m' :: "'p mgr_world" and sid l
  assume v: "mg_valid m" and a: "mg_AcquireLease sid m = (Inr l, m')"
  from a show "mg_valid m' \<and> mg_holds l m' \<and> mg_outstanding m' = mg_outstanding m + 1"
  proof (cases rule: mg_acquire_cases)
    case (acquired r w k g g')
    have "gen_active g' = gen_active g + 1" "gen_active g \<ge> 0"
      using acquired(4) mg_validD(3) [OF v acquired(2,3)] by (auto simp: acquire_def split: if_splits)
    with replace_gen [OF v acquired(2,3), of g'] acquired(1,5) show ?thesis by (simp add: mg_holds_def)
  qed simp
next
  fix m m' :: "'p mgr_world" and sid e
  assume "mg_AcquireLease sid m = (Inl e, m')"
  then show "m' = m" by (cases rule: mg_acquire_cases) simp_all
next
  fix m :: "'p mgr_world" and l
  assume v: "mg_valid m" and h: "mg_holds l m"
  from h obtain w g where w: "mget (mw_store m) (fst l) = Some w" "mget (cw_gens w) (snd l) = Some g" "gen_active g > 0"
    by (auto simp: mg_holds_def mg_lease_gen_def split: option.splits)
  then have "gen_active (release g) = gen_active g - 1" "gen_active (release g) \<ge> 0"
    by (auto simp: release_def Let_def)
  moreover have "mg_ReleaseLease l m =
      m\<lparr>mw_store := mput (fst l) (w\<lparr>cw_gens := mput (snd l) (release g) (cw_gens w)\<rparr>) (mw_store m)\<rparr>"
    using w by (simp add: mg_ReleaseLease_def update_gen_def)
  ultimately show "mg_valid (mg_ReleaseLease l m) \<and>
      mg_outstanding (mg_ReleaseLease l m) = mg_outstanding m - 1"
    using replace_gen [OF v w(1,2), of "release g"] by simp
qed

text \<open>
  A tool call routed through the manager gives back exactly the lease that it took: the number of active
  calls over all generations of all coordinators is afterwards what it was before, up to what concurrent work
  changed while the downstream call ran.
\<close>

theorem mg_RouteTool_balanced:
  assumes "mg_valid m"
    and "\<forall>m. mg_valid m \<longrightarrow> mg_valid (obs_effect (ce_obs env) m) \<and>
      mg_outstanding (obs_effect (ce_obs env) m) = mg_outstanding m + d \<and>
      (\<forall>l. mg_holds l m \<longrightarrow> mg_holds l (obs_effect (ce_obs env) m))"
    and "mg_RouteTool fmt_time lookup env name args m = (res, m')"
  shows "mg_valid m' \<and> (mg_outstanding m' = mg_outstanding m \<or> mg_outstanding m' = mg_outstanding m + d)"
proof -
  obtain evs m1 where run: "RouteTool (mg_router lookup m) env name args m = ((res, evs), m1)"
    and m': "m' = m1\<lparr>mw_mgr := fold (record_event fmt_time) evs (mw_mgr m1)\<rparr>"
    using assms(3) by (auto simp: mg_RouteTool_def Let_def split: prod.splits)
  have eff: "mgr_leases.effect_ok (obs_effect (ce_obs env)) d"
    using assms(2) by (simp add: mgr_leases.effect_ok_def)
  have "mg_valid m1 \<and> mg_outstanding m1 = mg_outstanding m + (if \<exists>s t a. EvCallTool s t a \<in> set evs then d else 0)"
    by (rule mgr_leases.RouteTool_balanced [OF _ _ _ assms(1) eff run, where ops = "mg_lease_ops m"])
      (simp_all add: mg_router_def mg_lease_ops_def)
  then show ?thesis by (auto simp: m' mg_valid_def mg_outstanding_def split: if_splits)
qed

section \<open>Removing a server while it connects\<close>

text \<open>Runs of one coordinator inside the manager.\<close>

lemma co_move_started:
  assumes "co_move ops w pc w' pc'"
  shows "co_started (cw_co w') = co_started (cw_co w)"
  using assms
  by (cases rule: co_move.cases)
    (auto simp: run_top_def handleDisabled_begin_def handleConnecting_begin_def handleDisabled_remove_def
      take_old_gen_def session_created_def tools_listed_def commit_connect_def
      finish_attempt_def Let_def ready_reset_def ready_reconcile_def ready_disconnected_def
      refresh_commit_def failure_record_def failure_backoff_def split_def split: if_splits sum.splits)

lemma plug_unplug [simp]: "plug (cw_pub w) (unplug w) = w"
  by (simp add: plug_def unplug_def)

definition coord_at :: "'p mgr_sys \<Rightarrow> nat \<Rightarrow> 'p coord_world \<Rightarrow> coord_pc \<Rightarrow> bool" where
  "coord_at s ref w pc \<longleftrightarrow>
     (\<exists>v. mget (mw_store (my_world s)) ref = Some v \<and> plug (mw_pub (my_world s)) v = w) \<and> pc_of s ref = pc"

lemma coord_one:
  assumes "mgr_reachable ops s" and "coord_at s ref w pc" and "co_started (cw_co w)" and "co_move ops w pc w' pc'"
  shows "\<exists>s'. mgr_reachable ops s' \<and> coord_at s' ref w' pc' \<and> my_applies s' = my_applies s \<and>
    mw_mgr (my_world s') = mw_mgr (my_world s)"
proof -
  from assms(2) obtain v where v: "mget (mw_store (my_world s)) ref = Some v" "plug (mw_pub (my_world s)) v = w"
    "pc_of s ref = pc"
    by (auto simp: coord_at_def)
  let ?s = "s\<lparr>my_world := on_coord ref (\<lambda>_. w') (my_world s), my_pcs := mput ref pc' (my_pcs s)\<rparr>"
  have "mgr_step ops s ?s"
    by (rule mgr_step.coord [OF v(1)]) (use assms(3,4) v in auto)
  with assms(1) have "mgr_reachable ops ?s" by (rule mgr_reachable.step)
  moreover have "coord_at ?s ref w' pc'" using v(1) by (simp add: coord_at_def on_coord_def Let_def pc_of_def)
  ultimately show ?thesis by (intro exI [of _ ?s]) simp
qed

lemma coord_run:
  assumes "(\<lambda>a b. co_move ops (fst a) (snd a) (fst b) (snd b))\<^sup>*\<^sup>* (w, pc) b"
    and "mgr_reachable ops s" and "coord_at s ref w pc" and "co_started (cw_co w)"
  shows "\<exists>s'. mgr_reachable ops s' \<and> coord_at s' ref (fst b) (snd b) \<and> my_applies s' = my_applies s \<and>
    mw_mgr (my_world s') = mw_mgr (my_world s) \<and> co_started (cw_co (fst b))"
  using assms
proof (induction rule: rtranclp_induct)
  case base
  then show ?case by auto
next
  case (step b c)
  then obtain s1 where s1: "mgr_reachable ops s1" "coord_at s1 ref (fst b) (snd b)" "my_applies s1 = my_applies s"
    "mw_mgr (my_world s1) = mw_mgr (my_world s)" "co_started (cw_co (fst b))"
    by blast
  from coord_one [OF s1(1,2,5) step.hyps(2)] s1 co_move_started [OF step.hyps(2)] show ?case by auto
qed

lemma connect_moves:
  assumes "rs_Enabled (co_cfg (cw_co w))" and "\<not> co_stopped (cw_co w)" and "\<not> co_cancelled (cw_co w)"
    and "co_currentGen (cw_co w) = None"
  shows "(\<lambda>a b. co_move ops (fst a) (snd a) (fst b) (snd b))\<^sup>*\<^sup>* (w, PcLoop)
    (set_co (\<lambda>c. c\<lparr>co_state := StateConnecting, co_operation := Some 0, co_operationRevision := co_rev c\<rparr>) w,
     PcCommit (co_rev (cw_co w)) (co_cfg (cw_co w)) 0 0 None tools)"
proof -
  let ?rv = "co_rev (cw_co w)" and ?cfg = "co_cfg (cw_co w)"
  let ?w1 = "set_co (\<lambda>c. c\<lparr>co_state := StateConnecting, co_operation := Some 0, co_operationRevision := co_rev c\<rparr>) w"
  have 1: "co_move ops w PcLoop ?w1 (PcOldGen ?rv ?cfg 0)"
    using assms by (intro co_move.top [of 0]) (simp add: run_top_def handleConnecting_begin_def Let_def)
  have 2: "co_move ops ?w1 (PcOldGen ?rv ?cfg 0) ?w1 (PcDrain None (PcDial ?rv ?cfg 0))"
    using assms(4) by (intro co_move.old_gen) (simp add: take_old_gen_def)
  have 3: "co_move ops ?w1 (PcDrain None (PcDial ?rv ?cfg 0)) ?w1 (PcDial ?rv ?cfg 0)"
    using co_move.drained [of ops ?w1 None "PcDial ?rv ?cfg 0"] by (simp add: drain_and_close_opt_def)
  have 4: "co_move ops ?w1 (PcDial ?rv ?cfg 0) ?w1 (PcDiscover ?rv ?cfg 0 0 None)"
    using assms by (intro co_move.dialed [of _ _ _ "Inr (0, None)"]) (simp add: session_created_def targetCurrent_def)
  have 5: "co_move ops ?w1 (PcDiscover ?rv ?cfg 0 0 None) ?w1 (PcCommit ?rv ?cfg 0 0 None tools)"
    by (intro co_move.discovered [of _ _ _ _ _ "Inr tools"]) (simp add: tools_listed_def)
  let ?R = "\<lambda>a b. co_move ops (fst a) (snd a) (fst b) (snd b)"
  have "?R (w, PcLoop) (?w1, PcOldGen ?rv ?cfg 0)" "?R (?w1, PcOldGen ?rv ?cfg 0) (?w1, PcDrain None (PcDial ?rv ?cfg 0))"
    "?R (?w1, PcDrain None (PcDial ?rv ?cfg 0)) (?w1, PcDial ?rv ?cfg 0)"
    "?R (?w1, PcDial ?rv ?cfg 0) (?w1, PcDiscover ?rv ?cfg 0 0 None)"
    "?R (?w1, PcDiscover ?rv ?cfg 0 0 None) (?w1, PcCommit ?rv ?cfg 0 0 None tools)"
    using 1 2 3 4 5 by simp_all
  then show ?thesis by (meson converse_rtranclp_into_rtranclp r_into_rtranclp)
qed

definition demo_config :: "(string, ResolvedServer) gomap \<Rightarrow> ResolvedConfig" where
  "demo_config servers =
     \<lparr>rc_Version = 1, rc_Listen = DefaultListen, rc_PublicMode = False, rc_PublicURL = [], rc_AllowedHosts = [],
      rc_TrustedProxies = [], rc_BearerToken = [], rc_BearerTokens = [], rc_AdminEnabled = False, rc_AdminToken = [],
      rc_AdminSessionTimeout = 0, rc_DefaultStartup = DefaultStartupTimeout, rc_DefaultCall = DefaultCallTimeout,
      rc_DefaultConcurrency = DefaultMaxConcurrency, rc_Servers = servers\<rparr>"

abbreviation demo_tools :: "tool list" where
  "demo_tools \<equiv> [demo_tool ''read'' ''x'']"

definition demo_manager :: "CatalogPublisherAdapter mgr_world" where
  "demo_manager = NewManager (\<lambda>_. Inr (Inr demo_tools)) (NewCatalogPublisher None) None []"

definition demo_fs_coord :: "CatalogPublisherAdapter coord_world" where
  "demo_fs_coord =
     \<lparr>cw_co = co_Start (newCoordinator ''fs'' \<lparr>des_Revision = 1, des_ResolvedConfig = demo_server ''fs''\<rparr>
        defaultBackoffDelays defaultReadyResetDuration defaultDrainTimeout),
      cw_pub = NewCatalogPublisher None, cw_gens = [], cw_nextRef = 0, cw_closed = [], cw_cancelledOps = []\<rparr>"

text \<open>A started manager with one server whose coordinator has just been created.\<close>

lemma demo_applied:
  "\<exists>s. mgr_reachable demo_ops s \<and> coord_at s 0 demo_fs_coord PcLoop \<and> my_applies s = [ApUnpublish [] []] \<and>
     coords_of (my_world s) = [(''fs'', 0)] \<and> \<not> mg_stopped (mw_mgr (my_world s))"
proof -
  let ?s0 = "\<lparr>my_world = demo_manager, my_pcs = [], my_applies = []\<rparr>"
  let ?m1 = "snd (mg_Start demo_manager)"
  let ?s1 = "?s0\<lparr>my_world := ?m1\<rparr>"
  let ?cfg = "demo_config [(''fs'', demo_server ''fs'')]"
  let ?m2 = "snd (Apply_locked demo_ops ?cfg ?m1)"
  have "mgr_reachable demo_ops ?s0" unfolding demo_manager_def by (rule mgr_reachable.init)
  moreover have "mgr_step demo_ops ?s0 ?s1"
    by (rule mgr_step.start [where s = ?s0 and r = "fst (mg_Start demo_manager)"]) simp
  ultimately have r1: "mgr_reachable demo_ops ?s1" by (rule mgr_reachable.step)
  have m2: "Apply_locked demo_ops ?cfg ?m1 = (Inr [], ?m2)"
    by (simp add: mg_Start_def Apply_locked_def removed_servers_def demo_manager_def NewManager_def Let_def)
  have "mgr_step demo_ops ?s1 (?s1\<lparr>my_world := ?m2, my_applies := my_applies ?s1 @ [ApUnpublish [] []]\<rparr>)"
    by (rule mgr_step.apply_lock [where cfg = ?cfg]) (use m2 demo_wf(2) in \<open>simp_all add: demo_config_def\<close>)
  with r1 have "mgr_reachable demo_ops (?s1\<lparr>my_world := ?m2, my_applies := my_applies ?s1 @ [ApUnpublish [] []]\<rparr>)"
    by (rule mgr_reachable.step)
  moreover have "coords_of ?m2 = [(''fs'', 0)]" "\<not> mg_stopped (mw_mgr ?m2)" "mw_pub ?m2 = NewCatalogPublisher None"
    "\<exists>v. mget (mw_store ?m2) 0 = Some v \<and> plug (NewCatalogPublisher None) v = demo_fs_coord"
    by (simp_all add: mg_Start_def Apply_locked_def apply_server_def demo_manager_def NewManager_def demo_config_def Let_def
        demo_fs_coord_def plug_def)
  ultimately show ?thesis
    by (intro exI [of _ "?s1\<lparr>my_world := ?m2, my_applies := my_applies ?s1 @ [ApUnpublish [] []]\<rparr>"])
      (simp add: coord_at_def pc_of_def)
qed

text \<open>The coordinator has discovered its tools and is about to commit them.\<close>

definition demo_discovered :: "CatalogPublisherAdapter coord_world" where
  "demo_discovered = set_co (\<lambda>c. c\<lparr>co_state := StateConnecting, co_operation := Some 0,
     co_operationRevision := co_rev c\<rparr>) demo_fs_coord"

lemma demo_fs_coord_fields [simp]:
  "co_cfg (cw_co demo_fs_coord) = demo_server ''fs''" "co_rev (cw_co demo_fs_coord) = 1"
  "\<not> co_stopped (cw_co demo_fs_coord)" "\<not> co_cancelled (cw_co demo_fs_coord)" "co_currentGen (cw_co demo_fs_coord) = None"
  "co_started (cw_co demo_fs_coord)" "co_serverID (cw_co demo_fs_coord) = ''fs''" "rs_Enabled (demo_server ''fs'')"
  "cw_pub demo_fs_coord = NewCatalogPublisher None"
  by (simp_all add: demo_fs_coord_def newCoordinator_def co_Start_def demo_server_def)

lemma demo_at_commit:
  "\<exists>s. mgr_reachable demo_ops s \<and>
     coord_at s 0 demo_discovered (PcCommit 1 (demo_server ''fs'') 0 0 None demo_tools) \<and>
     my_applies s = [ApUnpublish [] []] \<and> coords_of (my_world s) = [(''fs'', 0)] \<and> \<not> mg_stopped (mw_mgr (my_world s))"
proof -
  from demo_applied obtain s where s: "mgr_reachable demo_ops s" "coord_at s 0 demo_fs_coord PcLoop"
    "my_applies s = [ApUnpublish [] []]" "coords_of (my_world s) = [(''fs'', 0)]" "\<not> mg_stopped (mw_mgr (my_world s))"
    by blast
  have "(\<lambda>a b. co_move demo_ops (fst a) (snd a) (fst b) (snd b))\<^sup>*\<^sup>* (demo_fs_coord, PcLoop)
      (demo_discovered, PcCommit 1 (demo_server ''fs'') 0 0 None demo_tools)"
    using connect_moves [of demo_fs_coord demo_ops demo_tools] by (simp add: demo_discovered_def)
  from coord_run [OF this s(1,2)] s show ?thesis by auto
qed

lemma demo_commit:
  assumes "P = snd (po_RemoveServer demo_ops ''fs'' (NewCatalogPublisher None))"
  obtains w' pc' where
    "co_move demo_ops (demo_discovered\<lparr>cw_pub := P\<rparr>) (PcCommit 1 (demo_server ''fs'') 0 0 None demo_tools) w' pc'"
    "ada_LookupRoute (cw_pub w') ''fs__read'' \<noteq> None"
proof -
  let ?w = "demo_discovered\<lparr>cw_pub := P\<rparr>"
  obtain pc' w' where c: "commit_connect demo_ops 0 1 (demo_server ''fs'') 0 0 None demo_tools ?w = (pc', w')" by fastforce
  let ?pub = "po_PublishServer demo_ops ''fs'' demo_tools (disabledNames (rs_DisabledTools (demo_server ''fs''))) P"
  have "ada_LookupRoute (snd ?pub) ''fs__read'' \<noteq> None" "snd (fst ?pub) = None"
    unfolding assms by code_simp+
  moreover have "cw_pub w' = snd ?pub"
    using c calculation(2)
    by (auto simp: commit_connect_def demo_discovered_def targetCurrent_def Let_def split_def)
  ultimately show ?thesis using that [OF co_move.commit [OF c]] by simp
qed

lemma co_Stop_pub [simp]: "cw_pub (co_Stop w) = cw_pub w"
  by (auto simp: co_Stop_def stop_begin_def stop_end_def Let_def split: prod.split)

lemma plug_repub: "plug q v = (plug p v)\<lparr>cw_pub := q\<rparr>"
  by (simp add: plug_def)

abbreviation demo_commit_pc :: coord_pc where
  "demo_commit_pc \<equiv> PcCommit 1 (demo_server ''fs'') 0 0 None demo_tools"

abbreviation demo_removed_pub :: CatalogPublisherAdapter where
  "demo_removed_pub \<equiv> snd (po_RemoveServer demo_ops ''fs'' (NewCatalogPublisher None))"

text \<open>The configuration without the server is applied, up to the point where its coordinator is to be stopped.\<close>

lemma demo_removing:
  "\<exists>s. mgr_reachable demo_ops s \<and> coord_at s 0 (demo_discovered\<lparr>cw_pub := demo_removed_pub\<rparr>) demo_commit_pc \<and>
     my_applies s = [ApUnpublish [] [], ApStopping [0]] \<and> coords_of (my_world s) = []"
proof -
  let ?gone = "[(''fs'', 0)]"
  obtain s where s: "mgr_reachable demo_ops s" "coord_at s 0 demo_discovered demo_commit_pc"
    "my_applies s = [ApUnpublish [] []]" "coords_of (my_world s) = ?gone" "\<not> mg_stopped (mw_mgr (my_world s))"
    using demo_at_commit by blast
  let ?m1 = "snd (Apply_locked demo_ops (demo_config []) (my_world s))"
  have lock: "Apply_locked demo_ops (demo_config []) (my_world s) = (Inr ?gone, ?m1)"
    using s(4,5) by (simp add: Apply_locked_def removed_servers_def demo_config_def Let_def)
  have m1: "coords_of ?m1 = []" "mw_store ?m1 = mw_store (my_world s)" "mw_pub ?m1 = mw_pub (my_world s)"
    using s(4,5) by (simp_all add: Apply_locked_def demo_config_def Let_def)
  define s1 where "s1 = s\<lparr>my_world := ?m1, my_applies := [ApUnpublish [] [], ApUnpublish ?gone ?gone]\<rparr>"
  define s2 where "s2 = s1\<lparr>my_world := Apply_unpublish demo_ops ''fs'' ?m1,
    my_applies := [ApUnpublish [] [], ApUnpublish [] ?gone]\<rparr>"
  define s3 where "s3 = s2\<lparr>my_applies := [ApUnpublish [] [], ApStopping [0]]\<rparr>"
  have "mgr_step demo_ops s s1"
    using mgr_step.apply_lock [OF _ _ lock] s(3) by (simp add: s1_def demo_config_def)
  moreover have "mgr_step demo_ops s1 s2"
    using mgr_step.apply_unpublish [of 1 s1 "''fs''" 0 "[]" ?gone demo_ops] by (simp add: s1_def s2_def)
  moreover have "mgr_step demo_ops s2 s3"
    using mgr_step.apply_unpublished [of 1 s2 ?gone demo_ops] by (simp add: s2_def s3_def)
  ultimately have r3: "mgr_reachable demo_ops s3" using s(1) mgr_reachable.step by blast
  have pub: "mw_pub (my_world s) = NewCatalogPublisher None"
    using s(2) by (auto simp: coord_at_def demo_discovered_def dest: arg_cong [where f = cw_pub])
  obtain v where v: "mget (mw_store (my_world s)) 0 = Some v" "plug (NewCatalogPublisher None) v = demo_discovered"
    using s(2) pub by (auto simp: coord_at_def)
  have "coord_at s3 0 (demo_discovered\<lparr>cw_pub := demo_removed_pub\<rparr>) demo_commit_pc"
    using s(2) m1 pub v(1) unfolding v(2) [symmetric] plug_repub [symmetric]
    by (simp add: coord_at_def s1_def s2_def s3_def Apply_unpublish_def pc_of_def)
  with r3 show ?thesis
    by (intro exI [of _ s3]) (simp add: s3_def s2_def s1_def m1 Apply_unpublish_def)
qed

lemma demo_finish:
  assumes "mgr_reachable demo_ops s" and "coord_at s 0 w pc" and "my_applies s = [ApUnpublish [] [], ApStopping [0]]"
  shows "\<exists>s'. mgr_reachable demo_ops s' \<and> my_applies s' = [ApDone, ApDone] \<and>
    mw_mgr (my_world s') = mw_mgr (my_world s) \<and> mw_pub (my_world s') = cw_pub w"
proof -
  define s5 where "s5 = s\<lparr>my_world := on_coord 0 co_Stop (my_world s), my_applies := [ApUnpublish [] [], ApStopping []]\<rparr>"
  define s6 where "s6 = s5\<lparr>my_applies := [ApUnpublish [] [], ApDone]\<rparr>"
  define s7 where "s7 = s6\<lparr>my_applies := [ApStopping [], ApDone]\<rparr>"
  define s8 where "s8 = s7\<lparr>my_applies := [ApDone, ApDone]\<rparr>"
  have "mgr_step demo_ops s s5"
    using mgr_step.apply_stop [of 1 s "[0]" 0 demo_ops] assms(3) by (simp add: s5_def)
  moreover have "mgr_step demo_ops s5 s6"
    using mgr_step.apply_done [of 1 s5 demo_ops] by (simp add: s5_def s6_def)
  moreover have "mgr_step demo_ops s6 s7"
    using mgr_step.apply_unpublished [of 0 s6 "[]" demo_ops] by (simp add: s6_def s7_def)
  moreover have "mgr_step demo_ops s7 s8"
    using mgr_step.apply_done [of 0 s7 demo_ops] by (simp add: s7_def s8_def)
  ultimately have "mgr_reachable demo_ops s8" using assms(1) mgr_reachable.step by blast
  moreover have "mw_pub (my_world s8) = cw_pub w"
    using assms(2) by (auto simp: s8_def s7_def s6_def s5_def coord_at_def on_coord_def Let_def)
  ultimately show ?thesis by (intro exI [of _ s8]) (simp add: s8_def s7_def s6_def s5_def)
qed

text \<open>
  C16. A removed server can stay published. \<^verbatim>\<open>Apply\<close> unpublishes the tools of a removed server before it stops
  its coordinator; a coordinator that commits a discovery in between publishes them again, and nobody removes
  them. There is a run at whose end every \<^verbatim>\<open>Apply\<close> has returned, no coordinator is left in the manager, and
  the catalog still routes to the removed server.
\<close>

theorem Apply_remove_race:
  "\<exists>s. mgr_reachable demo_ops s \<and> my_applies s = [ApDone, ApDone] \<and> coords_of (my_world s) = [] \<and>
     ada_LookupRoute (mw_pub (my_world s)) ''fs__read'' \<noteq> None"
proof -
  let ?w = "demo_discovered\<lparr>cw_pub := demo_removed_pub\<rparr>"
  obtain s3 where s3: "mgr_reachable demo_ops s3" "coord_at s3 0 ?w demo_commit_pc"
    "my_applies s3 = [ApUnpublish [] [], ApStopping [0]]" "coords_of (my_world s3) = []"
    using demo_removing by blast
  obtain w' pc' where mv: "co_move demo_ops ?w demo_commit_pc w' pc'"
    and route: "ada_LookupRoute (cw_pub w') ''fs__read'' \<noteq> None"
    by (rule demo_commit [OF refl])
  have "co_started (cw_co ?w)" by (simp add: demo_discovered_def)
  from coord_one [OF s3(1,2) this mv] obtain s4 where s4: "mgr_reachable demo_ops s4" "coord_at s4 0 w' pc'"
    "my_applies s4 = my_applies s3" "mw_mgr (my_world s4) = mw_mgr (my_world s3)"
    by blast
  from demo_finish [OF s4(1,2)] s3 s4 route show ?thesis by auto
qed

section \<open>Witnesses\<close>

abbreviation fs_config :: ResolvedConfig where
  "fs_config \<equiv> demo_config [(''fs'', demo_server ''fs'')]"

lemma fs_config_wf:
  "wf_map (rc_Servers fs_config)" "\<forall>e \<in> set (rc_Servers fs_config). wf_server (snd e)"
  using demo_wf(2) by (simp_all add: demo_config_def)

lemma demo_manager_inv: "mgr_inv demo_manager" "\<not> mg_stopped (mw_mgr demo_manager)" "coords_of demo_manager = []"
  by (simp_all add: mgr_inv_def demo_manager_def NewManager_def)



definition demo_dto :: "string \<Rightarrow> RecentCallDTO" where
  "demo_dto rid = record_dto (\<lambda>_. []) \<lparr>call_RequestID = rid, call_Time = 0, call_Duration = 1500000, call_Tool = ''fs__read'',
     call_ServerID = ''fs'', call_Outcome = ''success'', call_ErrorCategory = []\<rparr>"

theorem recent_calls_are_last_witness:
  "GetRecentCalls (fold RecordCall [demo_dto ''a'', demo_dto ''b'', demo_dto ''c'']
      (SetMaxRecentCalls 2 (mw_mgr demo_manager))) = [demo_dto ''b'', demo_dto ''c'']"
  using recent_calls_are_last [of "[demo_dto ''a'', demo_dto ''b'', demo_dto ''c'']" "SetMaxRecentCalls 2 (mw_mgr demo_manager)"]
  by (simp add: SetMaxRecentCalls_def Let_def demo_manager_def NewManager_def call_limit_def MaxRecentCalls_def
      GetRecentCalls_def last_n_def)

theorem IsReady_contract_witness:
  "IsReady demo_manager \<and> \<not> IsReady (snd (Apply_locked demo_ops fs_config demo_manager))"
proof -
  have "mg_coords demo_manager = []" by (simp add: mg_coords_def demo_manager_inv List.map_filter_def)
  moreover have "map (\<lambda>w. (rs_Enabled (co_cfg (cw_co w)), co_state (cw_co w)))
      (mg_coords (snd (Apply_locked demo_ops fs_config demo_manager))) = [(True, StateConnecting)]"
    by (simp add: mg_coords_def Apply_locked_def apply_server_def demo_manager_def NewManager_def demo_config_def Let_def
        List.map_filter_def newCoordinator_def demo_server_def)
  ultimately show ?thesis
    unfolding IsReady_contract [of demo_manager] IsReady_contract [of "snd (Apply_locked demo_ops fs_config demo_manager)"]
    by auto
qed

theorem Preflight_exact_witness:
  "\<exists>probes. set probes = {(''fs'', demo_server ''fs'')} \<and>
     (fst (Preflight demo_env (Some fs_config) demo_manager) = None \<longleftrightarrow>
        (\<forall>e \<in> set probes. probe_ok demo_env (mg_factory (mw_mgr demo_manager)) e))"
proof -
  have cur: "current_configs demo_manager = []" by (simp add: current_configs_def demo_manager_inv List.map_filter_def)
  have "{(sid, srv). (sid, srv) \<in> set (rc_Servers fs_config) \<and> rs_Enabled srv \<and>
       (\<forall>old. mget (current_configs demo_manager) sid = Some old \<longrightarrow> diffConfig old srv = changeConnection)} =
      {(''fs'', demo_server ''fs'')}"
    by (auto simp: cur demo_config_def demo_server_def)
  with Preflight_exact [OF demo_manager_inv(2), of fs_config demo_env] show ?thesis by auto
qed

definition demo_serving :: "CatalogPublisherAdapter mgr_world" where
  "demo_serving = demo_manager\<lparr>mw_mgr := (mw_mgr demo_manager)\<lparr>mg_coordinators := [(''fs'', 0)]\<rparr>,
     mw_store := [(0, (unplug demo_fs_coord)\<lparr>
       cw_co := (cw_co demo_fs_coord)\<lparr>co_state := StateReady, co_currentGen := Some 0\<rparr>,
       cw_gens := [(0, newGeneration 1 ''fs'' (Some 7) None 8 (60 * second) 1)]\<rparr>)]\<rparr>"

theorem mg_RouteTool_balanced_witness:
  "mg_outstanding (snd (mg_RouteTool (\<lambda>_. [])
      (\<lambda>_ n. Some \<lparr>route_PublicName = n, route_ServerID = ''fs'', route_OriginalName = ''read''\<rparr>)
      \<lparr>ce_reqID = ''req-1'', ce_startedAt = 0, ce_duration = 3, ce_ctxErrAtEnd = None,
       ce_obs = \<lparr>obs_answer = Inr None, obs_ctxErr = None, obs_callCtxErr = None, obs_effect = (\<lambda>m. m)\<rparr>,
       ce_fmt_duration = (\<lambda>_. ''1m0s'')\<rparr> (Some ''fs__read'') ''{}'' demo_serving)) = 0"
    (is "mg_outstanding (snd ?run) = 0")
proof -
  have v: "mg_valid demo_serving" "mg_outstanding demo_serving = 0"
    by (simp_all add: demo_serving_def mg_valid_def mg_outstanding_def gens_active_def newGeneration_def)
  obtain res m' where r: "?run = (res, m')" by fastforce
  from mg_RouteTool_balanced [OF v(1) _ r, of 0] v(2) show ?thesis by (simp add: r)
qed

end
