(* ===== verification/Controller.thy ===== *)
theory Controller
  imports Manager_Properties Config_Load
begin

text \<open>
  Reloading the configuration (\<^verbatim>\<open>internal/runtime/controller.go\<close>): polling the file with a debounce of two
  equal observations, explicit reloads, the checks against the settings the process was started with,
  and what is reported.

  A call reads the file twice, once for its contents and once for the digest compared in \<^verbatim>\<open>apply\<close>, and
  somebody may write in between: both observations are arguments (\<open>file\<close> and \<open>file'\<close>, \<^term>\<open>None\<close> for an
  error). The digest, \<^verbatim>\<open>config.Parse\<close>, the loader and the manager's \<^verbatim>\<open>Apply\<close> are the fields of \<open>ctl_env\<close>; \<open>manager_env\<close>
  instantiates the last three with the manager and the configuration pipeline of this development. All calls hold
  \<^verbatim>\<open>transactionMu\<close>, so they do not overlap.
\<close>

record 'm ctl_env =
  ctl_digest :: "string \<Rightarrow> string"
  ctl_Parse :: "string \<Rightarrow> string \<Rightarrow> string + ResolvedConfig"
  ctl_load :: "string \<Rightarrow> string \<Rightarrow> string + ResolvedConfig"
  ctl_apply :: "ResolvedConfig \<Rightarrow> 'm \<Rightarrow> string option \<times> 'm"

record 'm Controller =
  ct_manager :: "'m option"
  ct_configPath :: string
  ct_currentListen :: string
  ct_startup :: "ResolvedConfig option"
  ct_current :: "ResolvedConfig option"
  ct_restartRequired :: bool
  ct_lastReload :: string
  ct_appliedDigest :: string
  ct_candidateDigest :: string
  ct_candidateCount :: int

datatype reload_error =
    ReloadUnavailable
  | ReloadInvalid string
  | ReloadDigestUnavailable
  | ErrDigestMismatch string string
  | ReloadAdminToken
  | ReloadApply string

text \<open>\<open>given\<close> is the optional startup argument; \<open>file\<close> the file as read at construction.\<close>

definition NewController ::
  "'m ctl_env \<Rightarrow> 'm option \<Rightarrow> string \<Rightarrow> string \<Rightarrow> string option \<Rightarrow> ResolvedConfig option \<Rightarrow> 'm Controller" where
  "NewController env mgr configPath currentListen file given =
     (let (dig, startup) = (case file of None \<Rightarrow> ([], None)
            | Some data \<Rightarrow> (ctl_digest env data,
                            case ctl_Parse env data configPath of Inl _ \<Rightarrow> None | Inr rc \<Rightarrow> Some rc));
          startup = (case given of None \<Rightarrow> startup | Some rc \<Rightarrow> Some rc)
      in \<lparr>ct_manager = mgr, ct_configPath = configPath, ct_currentListen = currentListen, ct_startup = startup,
          ct_current = startup, ct_restartRequired = False, ct_lastReload = ''initial configuration loaded'',
          ct_appliedDigest = dig, ct_candidateDigest = [], ct_candidateCount = 0\<rparr>)"

definition ctl_BearerTokens :: "'m Controller \<Rightarrow> string list" where
  "ctl_BearerTokens c =
     (case ct_current c of
        None \<Rightarrow> []
      | Some rc \<Rightarrow>
          if length (rc_BearerTokens rc) > 0 then rc_BearerTokens rc
          else if rc_BearerToken rc \<noteq> [] then [rc_BearerToken rc]
          else [])"

definition reject :: "string \<Rightarrow> 'm Controller \<Rightarrow> 'm Controller" where
  "reject status c = c\<lparr>ct_lastReload := status, ct_candidateDigest := [], ct_candidateCount := 0\<rparr>"

definition observeCandidate :: "string \<Rightarrow> 'm Controller \<Rightarrow> bool \<times> 'm Controller" where
  "observeCandidate fileDigest c =
     (if fileDigest = ct_appliedDigest c then (False, c\<lparr>ct_candidateDigest := [], ct_candidateCount := 0\<rparr>)
      else if fileDigest \<noteq> ct_candidateDigest c
      then (False, c\<lparr>ct_candidateDigest := fileDigest, ct_candidateCount := 1\<rparr>)
      else let n = ct_candidateCount c + 1 in (n \<ge> 2, c\<lparr>ct_candidateCount := n\<rparr>))"

definition startup_secrets :: "ResolvedConfig \<Rightarrow> string list" where
  "startup_secrets startup =
     (if length (rc_BearerTokens startup) = 0 \<and> rc_BearerToken startup \<noteq> [] then [rc_BearerToken startup]
      else rc_BearerTokens startup) @ [rc_AdminToken startup]"

definition strip_server :: "string list \<Rightarrow> ResolvedServer \<Rightarrow> ResolvedServer" where
  "strip_server secrets srv =
     (if rs_Type srv \<noteq> ServerTypeStdio \<or> length (rs_Env srv) = 0 then srv
      else srv\<lparr>rs_Env := filter (\<lambda>(_, v). \<not> list_ex (\<lambda>secret. secret \<noteq> [] \<and> v = secret) secrets) (rs_Env srv)\<rparr>)"

definition stripStartupSecrets :: "ResolvedConfig \<Rightarrow> ResolvedConfig option \<Rightarrow> ResolvedConfig" where
  "stripStartupSecrets resolved startup =
     (case startup of
        None \<Rightarrow> resolved
      | Some st \<Rightarrow>
          resolved\<lparr>rc_Servers := map (\<lambda>(sid, srv). (sid, strip_server (startup_secrets st) srv)) (rc_Servers resolved)\<rparr>)"

definition publishes_admin_token :: "ResolvedConfig \<Rightarrow> ResolvedConfig option \<Rightarrow> bool" where
  "publishes_admin_token resolved startup \<longleftrightarrow>
     (case startup of
        None \<Rightarrow> False
      | Some st \<Rightarrow>
          rc_AdminEnabled st \<and>
          list_ex (\<lambda>token. token \<noteq> [] \<and> token = rc_AdminToken st) (rc_BearerToken resolved # rc_BearerTokens resolved))"

definition bound_changed :: "ResolvedConfig \<Rightarrow> ResolvedConfig option \<Rightarrow> bool" where
  "bound_changed resolved startup \<longleftrightarrow>
     (case startup of
        None \<Rightarrow> False
      | Some st \<Rightarrow>
          rc_PublicMode resolved \<noteq> rc_PublicMode st \<or> rc_PublicURL resolved \<noteq> rc_PublicURL st \<or>
          rc_AllowedHosts resolved \<noteq> rc_AllowedHosts st \<or> rc_TrustedProxies resolved \<noteq> rc_TrustedProxies st \<or>
          rc_AdminEnabled resolved \<noteq> rc_AdminEnabled st \<or> rc_AdminToken resolved \<noteq> rc_AdminToken st \<or>
          rc_AdminSessionTimeout resolved \<noteq> rc_AdminSessionTimeout st)"

definition ctl_apply_manager ::
  "'m ctl_env \<Rightarrow> ResolvedConfig \<Rightarrow> 'm option \<Rightarrow> string option \<times> 'm option" where
  "ctl_apply_manager env rc mgr =
     (case mgr of None \<Rightarrow> (None, None) | Some m \<Rightarrow> let (err, m') = ctl_apply env rc m in (err, Some m'))"

definition ctl_Apply ::
  "'m ctl_env \<Rightarrow> string option \<Rightarrow> ResolvedConfig \<Rightarrow> string \<Rightarrow> 'm Controller \<Rightarrow> reload_error option \<times> 'm Controller" where
  "ctl_Apply env file' resolved fileDigest c =
     (case file' of
        None \<Rightarrow> (Some ReloadDigestUnavailable, c)
      | Some data \<Rightarrow>
          if ctl_digest env data \<noteq> fileDigest
          then (Some (ErrDigestMismatch fileDigest (ctl_digest env data)), c)
          else if publishes_admin_token resolved (ct_startup c) then (Some ReloadAdminToken, c)
          else
            let resolved = stripStartupSecrets resolved (ct_startup c)
            in case ctl_apply_manager env resolved (ct_manager c) of
                 (Some e, mgr') \<Rightarrow> (Some (ReloadApply e), c\<lparr>ct_manager := mgr'\<rparr>)
               | (None, mgr') \<Rightarrow>
                   let boundChanged = bound_changed resolved (ct_startup c);
                       restart = (rc_Listen resolved \<noteq> ct_currentListen c \<or> boundChanged)
                   in (None,
                       c\<lparr>ct_manager := mgr', ct_restartRequired := restart,
                         ct_lastReload :=
                           (if restart
                            then if boundChanged then ''restart_required (startup-bound HTTP/admin security settings changed)''
                                 else ''restart_required (listen address changed)''
                            else ''reloaded successfully''),
                         ct_current := Some resolved, ct_appliedDigest := fileDigest,
                         ct_candidateDigest := [], ct_candidateCount := 0\<rparr>))"

text \<open>The common end of \<^verbatim>\<open>reloadNow\<close> and \<^verbatim>\<open>poll\<close>: load what was read, apply it, report a failure.\<close>

definition load_and_apply ::
  "'m ctl_env \<Rightarrow> string \<Rightarrow> string option \<Rightarrow> 'm Controller \<Rightarrow> reload_error option \<times> 'm Controller" where
  "load_and_apply env data file' c =
     (case ctl_load env data (ct_configPath c) of
        Inl e \<Rightarrow> (Some (ReloadInvalid e), reject ''reload rejected: invalid configuration'' c)
      | Inr resolved \<Rightarrow>
          (case ctl_Apply env file' resolved (ctl_digest env data) c of
             (Some e, c') \<Rightarrow> (Some e, reject ''reload rejected: apply failed'' c')
           | (None, c') \<Rightarrow> (None, c')))"

definition reloadNow ::
  "'m ctl_env \<Rightarrow> string option \<Rightarrow> string option \<Rightarrow> 'm Controller \<Rightarrow> reload_error option \<times> 'm Controller" where
  "reloadNow env file file' c =
     (case file of
        None \<Rightarrow> (Some ReloadUnavailable, reject ''reload rejected: configuration unavailable'' c)
      | Some data \<Rightarrow> load_and_apply env data file' c)"

definition poll :: "'m ctl_env \<Rightarrow> string option \<Rightarrow> string option \<Rightarrow> 'm Controller \<Rightarrow> 'm Controller" where
  "poll env file file' c =
     (case file of
        None \<Rightarrow> reject ''reload rejected: configuration unavailable'' c
      | Some data \<Rightarrow>
          let (due, c) = observeCandidate (ctl_digest env data) c
          in if due then snd (load_and_apply env data file' c) else c)"

definition ctl_IsReady :: "('m \<Rightarrow> bool) \<Rightarrow> 'm Controller \<Rightarrow> bool" where
  "ctl_IsReady ready c \<longleftrightarrow> (case ct_manager c of None \<Rightarrow> True | Some m \<Rightarrow> ready m)"

section \<open>Runs of the controller\<close>

datatype ctl_op = OpReload "string option" "string option" | OpPoll "string option" "string option"

fun ctl_run_op :: "'m ctl_env \<Rightarrow> ctl_op \<Rightarrow> 'm Controller \<Rightarrow> 'm Controller" where
  "ctl_run_op env (OpReload file file') c = snd (reloadNow env file file' c)"
| "ctl_run_op env (OpPoll file file') c = poll env file file' c"

section \<open>What an operation does\<close>

lemma reject_fields [simp]:
  "ct_manager (reject st c) = ct_manager c" "ct_startup (reject st c) = ct_startup c"
  "ct_current (reject st c) = ct_current c" "ct_appliedDigest (reject st c) = ct_appliedDigest c"
  "ct_restartRequired (reject st c) = ct_restartRequired c" "ct_currentListen (reject st c) = ct_currentListen c"
  "ct_configPath (reject st c) = ct_configPath c"
  by (simp_all add: reject_def)

lemma observe_fields [simp]:
  "ct_manager (snd (observeCandidate d c)) = ct_manager c" "ct_startup (snd (observeCandidate d c)) = ct_startup c"
  "ct_current (snd (observeCandidate d c)) = ct_current c" "ct_configPath (snd (observeCandidate d c)) = ct_configPath c"
  "ct_appliedDigest (snd (observeCandidate d c)) = ct_appliedDigest c"
  "ct_restartRequired (snd (observeCandidate d c)) = ct_restartRequired c"
  "ct_currentListen (snd (observeCandidate d c)) = ct_currentListen c"
  by (simp_all add: observeCandidate_def Let_def)

lemma ctl_Apply_cases:
  assumes "ctl_Apply env file' resolved dig c = (err, c')"
  obtains (failed) e where "err = Some e" "ct_current c' = ct_current c" "ct_startup c' = ct_startup c"
      "ct_appliedDigest c' = ct_appliedDigest c" "ct_restartRequired c' = ct_restartRequired c"
      "ct_manager c' = ct_manager c \<or> (\<exists>m. e = ReloadApply m)"
  | (applied) data rc where "err = None" "file' = Some data" "ctl_digest env data = dig"
      "rc = stripStartupSecrets resolved (ct_startup c)" "\<not> publishes_admin_token resolved (ct_startup c)"
      "ctl_apply_manager env rc (ct_manager c) = (None, ct_manager c')" "ct_current c' = Some rc"
      "ct_startup c' = ct_startup c" "ct_appliedDigest c' = dig"
      "ct_restartRequired c' \<longleftrightarrow> rc_Listen rc \<noteq> ct_currentListen c \<or> bound_changed rc (ct_startup c)"
proof (cases "\<exists>data m'. file' = Some data \<and> ctl_digest env data = dig \<and> \<not> publishes_admin_token resolved (ct_startup c) \<and>
    ctl_apply_manager env (stripStartupSecrets resolved (ct_startup c)) (ct_manager c) = (None, m')")
  case True
  then obtain data m' where "file' = Some data" "ctl_digest env data = dig"
    "\<not> publishes_admin_token resolved (ct_startup c)"
    "ctl_apply_manager env (stripStartupSecrets resolved (ct_startup c)) (ct_manager c) = (None, m')" by blast
  with assms show ?thesis by (intro applied [of data]) (auto simp: ctl_Apply_def Let_def)
next
  case False
  with assms show ?thesis
    by (intro failed [of "the err"]) (auto simp: ctl_Apply_def Let_def split: option.splits if_splits prod.splits)
qed

lemma load_and_apply_cases:
  assumes "load_and_apply env data file' c = (err, c')"
  obtains (failed) e where "err = Some e" "ct_current c' = ct_current c" "ct_startup c' = ct_startup c"
      "ct_appliedDigest c' = ct_appliedDigest c" "ct_restartRequired c' = ct_restartRequired c"
      "ct_manager c' = ct_manager c \<or> (\<exists>m. e = ReloadApply m)"
  | (applied) data' resolved rc where "err = None" "ctl_load env data (ct_configPath c) = Inr resolved"
      "file' = Some data'" "ctl_digest env data' = ctl_digest env data"
      "rc = stripStartupSecrets resolved (ct_startup c)" "\<not> publishes_admin_token resolved (ct_startup c)"
      "ctl_apply_manager env rc (ct_manager c) = (None, ct_manager c')" "ct_current c' = Some rc"
      "ct_startup c' = ct_startup c" "ct_appliedDigest c' = ctl_digest env data"
      "ct_restartRequired c' \<longleftrightarrow> rc_Listen rc \<noteq> ct_currentListen c \<or> bound_changed rc (ct_startup c)"
proof (cases "ctl_load env data (ct_configPath c)")
  case (Inl e)
  with assms show ?thesis by (intro failed [of "ReloadInvalid e"]) (auto simp: load_and_apply_def)
next
  case (Inr resolved)
  obtain err1 c1 where a: "ctl_Apply env file' resolved (ctl_digest env data) c = (err1, c1)" by fastforce
  from a show ?thesis
  proof (cases rule: ctl_Apply_cases)
    case (failed e)
    with assms Inr a show ?thesis by (intro that(1) [of e]) (auto simp: load_and_apply_def)
  next
    case (applied data' rc)
    with assms Inr a show ?thesis by (intro that(2) [of resolved data' rc]) (auto simp: load_and_apply_def)
  qed
qed

section \<open>Properties\<close>


text \<open>
  A changed file is applied at its second unchanged observation: the first poll that sees it changes
  neither the manager nor the configuration in force, and a second poll with the same contents, still there when
  they are applied, puts them in force when they load and the manager takes them.
\<close>

theorem poll_debounced:
  assumes "ctl_digest env data \<noteq> ct_appliedDigest c" and "ctl_digest env data \<noteq> ct_candidateDigest c"
    and "ctl_load env data (ct_configPath c) = Inr resolved" and "\<not> publishes_admin_token resolved (ct_startup c)"
    and "ctl_apply_manager env (stripStartupSecrets resolved (ct_startup c)) (ct_manager c) = (None, m')"
  shows "ct_manager (poll env (Some data) file' c) = ct_manager c \<and> ct_current (poll env (Some data) file' c) = ct_current c \<and>
    ct_appliedDigest (poll env (Some data) file' c) = ct_appliedDigest c \<and>
    ct_manager (poll env (Some data) (Some data) (poll env (Some data) file' c)) = m' \<and>
    ct_current (poll env (Some data) (Some data) (poll env (Some data) file' c)) =
      Some (stripStartupSecrets resolved (ct_startup c)) \<and>
    ct_appliedDigest (poll env (Some data) (Some data) (poll env (Some data) file' c)) = ctl_digest env data"
proof -
  let ?d = "ctl_digest env data" and ?c1 = "poll env (Some data) file' c"
  have c1: "?c1 = c\<lparr>ct_candidateDigest := ?d, ct_candidateCount := 1\<rparr>"
    using assms(1,2) by (simp add: poll_def observeCandidate_def)
  have c2: "poll env (Some data) (Some data) ?c1 =
      snd (load_and_apply env data (Some data) (c\<lparr>ct_candidateDigest := ?d, ct_candidateCount := 2\<rparr>))"
    unfolding c1 using assms(1) by (simp add: poll_def observeCandidate_def)
  let ?c2 = "c\<lparr>ct_candidateDigest := ?d, ct_candidateCount := 2\<rparr>"
  obtain err c' where l: "load_and_apply env data (Some data) ?c2 = (err, c')" by fastforce
  have "fst (ctl_Apply env (Some data) resolved ?d ?c2) = None"
    using assms(4,5) by (simp add: ctl_Apply_def Let_def)
  then have "err = None" using l assms(3) by (auto simp: load_and_apply_def split: prod.splits)
  with l have "ct_manager c' = m' \<and> ct_current c' = Some (stripStartupSecrets resolved (ct_startup c)) \<and> ct_appliedDigest c' = ?d"
    by (cases rule: load_and_apply_cases) (use assms(3,5) in auto)
  then show ?thesis unfolding c1 c2 [unfolded c1] l snd_conv by simp
qed

text \<open>
  The administrator's credential never becomes an access token: as long as the process runs, whatever files it
  reloads, the token with which administration was started is not among the bearer tokens in force.
\<close>

theorem admin_token_never_published:
  assumes "ct_startup c = Some st" and "rc_AdminEnabled st" and "rc_AdminToken st \<noteq> []"
    and "rc_AdminToken st \<notin> set (ctl_BearerTokens c)"
  shows "rc_AdminToken st \<notin> set (ctl_BearerTokens (fold (ctl_run_op env) ops c))"
proof -
  have one: "ct_startup c' = Some st \<and> rc_AdminToken st \<notin> set (ctl_BearerTokens c')"
    if l: "load_and_apply env data file' c = (err, c')" and s: "ct_startup c = Some st"
      and t: "rc_AdminToken st \<notin> set (ctl_BearerTokens c)" for data file' err and c c' :: "'a Controller"
    using l
  proof (cases rule: load_and_apply_cases)
    case (failed e)
    with s t show ?thesis by (simp add: ctl_BearerTokens_def)
  next
    case (applied data' resolved rc)
    have "rc_AdminToken st \<noteq> rc_BearerToken resolved" "rc_AdminToken st \<notin> set (rc_BearerTokens resolved)"
      using applied(6) s assms(2,3) by (auto simp: publishes_admin_token_def list_ex_iff)
    then show ?thesis
      using applied s by (auto simp: ctl_BearerTokens_def stripStartupSecrets_def split: if_splits)
  qed
  have step: "ct_startup (ctl_run_op env oper c) = Some st \<and> rc_AdminToken st \<notin> set (ctl_BearerTokens (ctl_run_op env oper c))"
    if s: "ct_startup c = Some st" and t: "rc_AdminToken st \<notin> set (ctl_BearerTokens c)" for oper and c :: "'a Controller"
  proof (cases oper)
    case (OpReload f f')
    show ?thesis
    proof (cases f)
      case (Some data)
      with OpReload one [OF prod.collapse [symmetric] s t, of data f'] show ?thesis by (simp add: reloadNow_def)
    qed (use OpReload s t in \<open>simp add: reloadNow_def ctl_BearerTokens_def\<close>)
  next
    case (OpPoll f f')
    show ?thesis
    proof (cases f)
      case (Some data)
      let ?o = "observeCandidate (ctl_digest env data) c"
      have o: "ct_startup (snd ?o) = Some st" "rc_AdminToken st \<notin> set (ctl_BearerTokens (snd ?o))"
        using s t by (simp_all add: ctl_BearerTokens_def)
      with OpPoll Some one [OF prod.collapse [symmetric] o, of data f'] show ?thesis by (simp add: poll_def split_def Let_def)
    qed (use OpPoll s t in \<open>simp add: poll_def ctl_BearerTokens_def\<close>)
  qed
  have "ct_startup c = Some st \<Longrightarrow> rc_AdminToken st \<notin> set (ctl_BearerTokens c) \<Longrightarrow>
      rc_AdminToken st \<notin> set (ctl_BearerTokens (fold (ctl_run_op env) ops c))" for c :: "'a Controller"
    by (induction ops arbitrary: c) (use step in auto)
  with assms show ?thesis by blast
qed

text \<open>
  A reload that succeeds puts in force exactly what was loaded, with the credentials of the start removed from
  the environments of child processes; the manager gets the same configuration; and a restart is asked for exactly when
  the listen address or a setting that is bound at startup differs.
\<close>

theorem reload_success_exact:
  assumes "reloadNow env file file' c = (None, c')" and "ct_startup c = Some st"
  shows "\<exists>data resolved rc. file = Some data \<and> ctl_load env data (ct_configPath c) = Inr resolved \<and>
    ct_current c' = Some rc \<and> ct_appliedDigest c' = ctl_digest env data \<and> rc\<lparr>rc_Servers := rc_Servers resolved\<rparr> = resolved \<and>
    map fst (rc_Servers rc) = map fst (rc_Servers resolved) \<and>
    ctl_apply_manager env rc (ct_manager c) = (None, ct_manager c') \<and>
    (ct_restartRequired c' \<longleftrightarrow> rc_Listen resolved \<noteq> ct_currentListen c \<or> bound_changed resolved (Some st)) \<and>
    (\<forall>(sid, srv) \<in> set (rc_Servers rc). rs_Type srv = ServerTypeStdio \<longrightarrow>
       (\<forall>(k, v) \<in> set (rs_Env srv). v = [] \<or> v \<notin> set (rc_BearerTokens st) \<and> v \<noteq> rc_AdminToken st))"
proof -
  obtain data where d: "file = Some data" and l: "load_and_apply env data file' c = (None, c')"
    using assms(1) by (cases "file") (auto simp: reloadNow_def)
  from l show ?thesis
  proof (cases rule: load_and_apply_cases)
    case (applied data' resolved rc)
    have rc: "rc = resolved\<lparr>rc_Servers := map (\<lambda>(sid, srv). (sid, strip_server (startup_secrets st) srv)) (rc_Servers resolved)\<rparr>"
      using applied(5) assms(2) by (simp add: stripStartupSecrets_def)
    have clean: "v = [] \<or> v \<notin> set (rc_BearerTokens st) \<and> v \<noteq> rc_AdminToken st"
      if "(k, v) \<in> set (rs_Env (strip_server (startup_secrets st) srv))" "rs_Type srv = ServerTypeStdio" for k v srv
      using that by (auto simp: strip_server_def startup_secrets_def list_ex_iff split: if_splits)
    have "rs_Type (strip_server secrets srv) = rs_Type srv" for secrets srv by (simp add: strip_server_def)
    with clean have "\<forall>(sid, srv) \<in> set (rc_Servers rc). rs_Type srv = ServerTypeStdio \<longrightarrow>
       (\<forall>(k, v) \<in> set (rs_Env srv). v = [] \<or> v \<notin> set (rc_BearerTokens st) \<and> v \<noteq> rc_AdminToken st)"
      by (auto simp: rc dest: clean)
    moreover have "bound_changed rc (Some st) = bound_changed resolved (Some st)" by (simp add: rc bound_changed_def)
    moreover have "map fst (rc_Servers rc) = map fst (rc_Servers resolved)" "rc\<lparr>rc_Servers := rc_Servers resolved\<rparr> = resolved"
      "rc_Listen rc = rc_Listen resolved"
      by (simp_all add: rc comp_def split_def)
    ultimately show ?thesis using applied d assms(2) by (intro exI [of _ data] exI [of _ resolved] exI [of _ rc]) simp
  qed simp
qed

section \<open>The controller of the running process\<close>

text \<open>
  The default loader is \<^verbatim>\<open>config.Parse\<close> on the directory of the path, and the manager is the one of this development;
  \<open>perr\<close> and \<open>aerr\<close> are the texts of their errors.
\<close>

definition manager_env ::
  "'p pub_ops \<Rightarrow> load_env \<Rightarrow> (string \<Rightarrow> string) \<Rightarrow> (parse_error \<Rightarrow> string) \<Rightarrow> (apply_error \<Rightarrow> string) \<Rightarrow>
   'p mgr_world ctl_env" where
  "manager_env ops le dig perr aerr =
     (let load = (\<lambda>data path. case snd (Parse le data (le_Dir le path)) of Inl e \<Rightarrow> Inl (perr e) | Inr rc \<Rightarrow> Inr rc)
      in \<lparr>ctl_digest = dig, ctl_Parse = load, ctl_load = load,
          ctl_apply = (\<lambda>rc m. let (err, m') = Apply ops (Some rc) m in (map_option aerr err, m'))\<rparr>)"

lemma strip_server_wf: "wf_server srv \<Longrightarrow> wf_server (strip_server secrets srv)"
  by (auto simp: strip_server_def wf_server_def distinct_map_filter)

lemma stripStartupSecrets_servers:
  "map fst (rc_Servers (stripStartupSecrets rc st)) = map fst (rc_Servers rc)"
  "\<forall>e \<in> set (rc_Servers rc). wf_server (snd e) \<Longrightarrow>
    \<forall>e \<in> set (rc_Servers (stripStartupSecrets rc st)). wf_server (snd e)"
  by (auto simp: stripStartupSecrets_def comp_def split_def strip_server_wf split: option.split)

lemma Parse_Inr:
  assumes "Parse env data configDir = (raw, Inr rc)"
  obtains c where "raw = Some c" and "DecodeStrict (le_json env) data (config_target (le_decode env)) = Inr c"
    and "Resolve (le_lib env) (le_environ env) (le_isWindows env) (Some c) configDir (le_lookup env) = Inr rc"
  using assms by (auto simp: Parse_def split: sum.splits option.splits)

text \<open>
  Decoding into a Go map gives distinct keys, for the servers and for the headers of each: what the pipeline relies on in
  \<^verbatim>\<open>encoding/json\<close>.
\<close>

definition decodes_maps :: "load_env \<Rightarrow> bool" where
  "decodes_maps le \<longleftrightarrow>
     (\<forall>data c b. le_decode le data = Inr (c, b) \<longrightarrow>
        wf_map (cfg_MCPServers c) \<and> (\<forall>(sid, s) \<in> set (cfg_MCPServers c). wf_map (sc_Headers s)))"

text \<open>
  C20. From the file to the coordinators: a reload that the running process reports as successful has decoded the file, and
  the manager then has exactly one coordinator per server of the file, each with the settings resolved from it (less the
  credentials of the start), and has stopped the others.
\<close>

theorem reload_reconciles:
  assumes "decodes_maps le" and "ct_manager c = Some m" and "mgr_inv m" and "\<not> mg_stopped (mw_mgr m)"
    and "reloadNow (manager_env ops le dig perr aerr) file file' c = (None, c')"
  shows "\<exists>data raw rc m'. file = Some data \<and> DecodeStrict (le_json le) data (config_target (le_decode le)) = Inr raw \<and>
    ct_manager c' = Some m' \<and> mgr_inv m' \<and> ct_current c' = Some rc \<and>
    set (mkeys (coords_of m')) = set (mkeys (cfg_MCPServers raw)) \<and>
    (\<forall>(sid, srv) \<in> set (rc_Servers rc). \<exists>ref w. mget (coords_of m') sid = Some ref \<and> mget (mw_store m') ref = Some w \<and>
       diffConfig (co_cfg (cw_co w)) srv = changeNone) \<and>
    (\<forall>(sid, ref) \<in> set (coords_of m). sid \<notin> set (mkeys (cfg_MCPServers raw)) \<longrightarrow>
       (\<exists>w. mget (mw_store m') ref = Some w \<and> co_stopped (cw_co w)))"
proof -
  obtain data where d: "file = Some data"
    and l: "load_and_apply (manager_env ops le dig perr aerr) data file' c = (None, c')"
    using assms(5) by (cases "file") (auto simp: reloadNow_def)
  from l show ?thesis
  proof (cases rule: load_and_apply_cases)
    case (applied data' resolved rc)
    from applied(2) obtain raw' where "Parse le data (le_Dir le (ct_configPath c)) = (raw', Inr resolved)"
      by (cases "Parse le data (le_Dir le (ct_configPath c))") (auto simp: manager_env_def Let_def split: sum.splits)
    then obtain raw where raw: "DecodeStrict (le_json le) data (config_target (le_decode le)) = Inr raw"
      "Resolve (le_lib le) (le_environ le) (le_isWindows le) (Some raw) (le_Dir le (ct_configPath c)) (le_lookup le) = Inr resolved"
      by (rule Parse_Inr)
    then obtain data'' b where "le_decode le data'' = Inr (raw, b)"
      by (auto simp: DecodeStrict_def config_target_def Let_def split: if_splits option.splits sum.splits prod.splits)
    with assms(1) have wf: "wf_map (cfg_MCPServers raw)" "\<forall>(sid, s) \<in> set (cfg_MCPServers raw). wf_map (sc_Headers s)"
      unfolding decodes_maps_def by blast+
    note rk = Resolve_keys_wf [OF raw(2) wf(2)]
    have keys: "map fst (rc_Servers rc) = map fst (cfg_MCPServers raw)"
      and srv: "\<forall>e \<in> set (rc_Servers rc). wf_server (snd e)"
      unfolding applied(5) using rk stripStartupSecrets_servers by simp_all
    obtain r m' where ap: "Apply ops (Some rc) m = (r, m')" by fastforce
    have m': "ct_manager c' = Some m'"
      using applied(7) assms(2) ap by (auto simp: ctl_apply_manager_def manager_env_def Let_def split: prod.splits)
    note fx = Apply_effect [OF assms(3,4) _ srv ap, unfolded keys, OF wf(1)]
    have cfg: "\<forall>(sid, srv) \<in> set (rc_Servers rc). \<exists>ref w. mget (coords_of m') sid = Some ref \<and>
        mget (mw_store m') ref = Some w \<and> diffConfig (co_cfg (cw_co w)) srv = changeNone"
      using fx unfolding configured_def by fastforce
    have "(sid, ref) \<in> set (removed_servers rc (mw_mgr m))"
      if "(sid, ref) \<in> set (coords_of m)" "sid \<notin> set (mkeys (cfg_MCPServers raw))" for sid ref
      using that keys by (simp add: removed_servers_def flip: set_map)
    with fx have "\<forall>(sid, ref) \<in> set (coords_of m). sid \<notin> set (mkeys (cfg_MCPServers raw)) \<longrightarrow>
       (\<exists>w. mget (mw_store m') ref = Some w \<and> co_stopped (cw_co w))" by blast
    with d raw(1) m' applied(8) fx cfg show ?thesis
      by (intro exI [of _ data] exI [of _ raw] exI [of _ rc] exI [of _ m']) simp
  qed simp
qed

section \<open>Witnesses\<close>

definition demo_ctl_env :: "nat ctl_env" where
  "demo_ctl_env =
     \<lparr>ctl_digest = (\<lambda>data. data),
      ctl_Parse = (\<lambda>data _. if data = ''bad'' then Inl ''syntax'' else Inr fs_config),
      ctl_load = (\<lambda>data _. if data = ''bad'' then Inl ''syntax'' else Inr fs_config),
      ctl_apply = (\<lambda>_ n. (None, n + 1))\<rparr>"

definition demo_admin :: ResolvedConfig where
  "demo_admin = fs_config\<lparr>rc_AdminEnabled := True, rc_AdminToken := demo_token\<rparr>"

definition demo_controller :: "nat Controller" where
  "demo_controller = NewController demo_ctl_env (Some 0) ''/etc/hub.json'' DefaultListen (Some ''one'') (Some demo_admin)"

lemmas demo_ctl_defs = demo_ctl_env_def demo_controller_def NewController_def demo_admin_def

lemma demo_controller_fields:
  "ct_startup demo_controller = Some demo_admin" "ct_current demo_controller = Some demo_admin"
  "ct_manager demo_controller = Some 0"
  by (simp_all add: demo_controller_def NewController_def Let_def)


theorem poll_debounced_witness:
  "ct_manager (poll demo_ctl_env (Some ''two'') None demo_controller) = Some 0 \<and>
   ct_manager (poll demo_ctl_env (Some ''two'') (Some ''two'') (poll demo_ctl_env (Some ''two'') None demo_controller)) = Some 1"
proof -
  have "ctl_digest demo_ctl_env ''two'' \<noteq> ct_appliedDigest demo_controller"
    "ctl_digest demo_ctl_env ''two'' \<noteq> ct_candidateDigest demo_controller"
    by (simp_all add: demo_controller_def NewController_def Let_def) (simp_all add: demo_ctl_env_def)
  moreover have "ctl_load demo_ctl_env ''two'' (ct_configPath demo_controller) = Inr fs_config"
    by (simp add: demo_ctl_env_def)
  moreover have "\<not> publishes_admin_token fs_config (ct_startup demo_controller)"
    by (auto simp: publishes_admin_token_def demo_controller_fields demo_config_def)
  moreover have "ctl_apply_manager demo_ctl_env rc (ct_manager demo_controller) = (None, Some 1)" for rc
    by (simp add: ctl_apply_manager_def demo_controller_fields) (simp add: demo_ctl_env_def)
  ultimately show ?thesis
    using poll_debounced [of demo_ctl_env "''two''" demo_controller fs_config "Some 1" None] demo_controller_fields(3) by metis
qed

theorem admin_token_never_published_witness:
  "demo_token \<notin> set (ctl_BearerTokens (fold (ctl_run_op demo_ctl_env)
     [OpPoll (Some ''two'') None, OpPoll (Some ''two'') (Some ''two''), OpReload (Some ''bad'') None] demo_controller))"
proof -
  have "rc_AdminToken demo_admin \<notin> set (ctl_BearerTokens demo_controller)"
    by (simp add: ctl_BearerTokens_def demo_controller_fields) (simp add: demo_admin_def demo_config_def)
  moreover have "rc_AdminEnabled demo_admin" "rc_AdminToken demo_admin \<noteq> []" "rc_AdminToken demo_admin = demo_token"
    by (simp_all add: demo_admin_def demo_token_def)
  ultimately show ?thesis using admin_token_never_published [OF demo_controller_fields(1), of demo_ctl_env] by metis
qed

theorem reload_success_exact_witness:
  "\<exists>rc. ct_current (snd (reloadNow demo_ctl_env (Some ''two'') (Some ''two'') demo_controller)) = Some rc \<and>
     map fst (rc_Servers rc) = [''fs'']"
proof -
  obtain err c' where r: "reloadNow demo_ctl_env (Some ''two'') (Some ''two'') demo_controller = (err, c')" by fastforce
  then have "err = None"
    by (simp add: reloadNow_def load_and_apply_def ctl_Apply_def demo_ctl_defs publishes_admin_token_def demo_config_def
        demo_token_def ctl_apply_manager_def Let_def eval_nat_numeral)
  with r have "reloadNow demo_ctl_env (Some ''two'') (Some ''two'') demo_controller = (None, c')" by simp
  from reload_success_exact [OF this demo_controller_fields(1)]
  obtain data resolved rc where "Some ''two'' = Some data" "ctl_load demo_ctl_env data (ct_configPath demo_controller) = Inr resolved"
    "ct_current c' = Some rc" "map fst (rc_Servers rc) = map fst (rc_Servers resolved)"
    by (elim exE conjE)
  with r show ?thesis by (auto simp: demo_ctl_env_def demo_config_def)
qed

definition demo_load_env :: load_env where
  "demo_load_env =
     \<lparr>le_json = \<lparr>jl_tokens = (\<lambda>_. ([TObjOpen, TObjClose], None)), jl_any = (\<lambda>_. Inr (JObj []))\<rparr>,
      le_decode = (\<lambda>_. Inr (demo_raw, True)), le_lib = demo_lib, le_environ = demo_environ, le_isWindows = False,
      le_lookup = demo_lookup, le_Dir = (\<lambda>_. ''/etc'')\<rparr>"

lemma demo_parses: "Parse demo_load_env ''{}'' ''/etc'' = (Some demo_raw, Inr demo_resolved)"
proof -
  have "DecodeStrict (le_json demo_load_env) ''{}'' (config_target (le_decode demo_load_env)) = Inr demo_raw"
    by (simp add: DecodeStrict_def CheckDuplicateKeys_def validateExactJSONFieldNames_def demo_load_env_def config_target_def
        stripUTF8BOM_def utf8BOM_def MaxConfigFileSize_def validateJSONShape.simps Config_type_def trim_space_def
        trim_words.simps space_runes_def expect_key_def)
  moreover have "Validate demo_lib (Some demo_raw) = None" using demo_resolves by (auto elim: Resolve_Inr)
  ultimately show ?thesis using demo_resolves by (simp add: Parse_def demo_load_env_def)
qed

abbreviation demo_manager_env :: "CatalogPublisherAdapter mgr_world ctl_env" where
  "demo_manager_env \<equiv> manager_env demo_ops demo_load_env (\<lambda>data. data) (\<lambda>_. []) (\<lambda>_. [])"

theorem reload_reconciles_witness:
  "\<exists>m'. ct_manager (snd (reloadNow demo_manager_env (Some ''{}'') (Some ''{}'')
      (NewController demo_manager_env (Some demo_manager) ''/etc/hub.json'' DefaultListen None None))) = Some m' \<and>
    set (mkeys (coords_of m')) = {''fs''}"
proof -
  let ?c = "NewController demo_manager_env (Some demo_manager) ''/etc/hub.json'' DefaultListen None None"
  have wf: "decodes_maps demo_load_env" by (simp add: decodes_maps_def demo_load_env_def demo_raw_def)
  have c: "ct_manager ?c = Some demo_manager" "ct_startup ?c = None" "ct_configPath ?c = ''/etc/hub.json''"
    by (simp_all add: NewController_def Let_def)
  have ld: "ctl_load demo_manager_env ''{}'' ''/etc/hub.json'' = Inr demo_resolved"
    using demo_parses by (simp add: manager_env_def Let_def) (simp add: demo_load_env_def)
  have ap: "fst (Apply demo_ops (Some demo_resolved) demo_manager) = None"
    using demo_manager_inv(2) by (simp add: Apply_def Apply_locked_def Let_def)
  obtain err c' where r: "reloadNow demo_manager_env (Some ''{}'') (Some ''{}'') ?c = (err, c')" by fastforce
  have "ctl_apply demo_manager_env demo_resolved demo_manager =
      (None, snd (Apply demo_ops (Some demo_resolved) demo_manager))"
    using ap by (simp add: manager_env_def Let_def split_def)
  then have "err = None"
    using r ld c by (auto simp: reloadNow_def load_and_apply_def ctl_Apply_def publishes_admin_token_def stripStartupSecrets_def
        ctl_apply_manager_def Let_def)
  with r have "reloadNow demo_manager_env (Some ''{}'') (Some ''{}'') ?c = (None, c')" by simp
  from reload_reconciles [OF wf c(1) demo_manager_inv(1,2) this]
  obtain data raw rc m' where "DecodeStrict (le_json demo_load_env) data (config_target (le_decode demo_load_env)) = Inr raw"
    "ct_manager c' = Some m'" "set (mkeys (coords_of m')) = set (mkeys (cfg_MCPServers raw))"
    by (elim exE conjE)
  moreover from this(1) have "raw = demo_raw"
    by (auto simp: DecodeStrict_def config_target_def demo_load_env_def Let_def split: if_splits option.splits)
  ultimately show ?thesis using r by (simp add: demo_raw_def)
qed

end
