(* ===== verification/Admin_Properties.thy ===== *)
theory Admin_Properties
  imports Admin Controller
begin

text \<open>
  Correctness of the administration API: nothing changes without a live session, a matching CSRF token and a valid origin; the
  tables of sessions and login attempts are bounded and guessing is throttled; secrets are hidden and survive an edit;
  and a configuration transaction takes effect as a whole or not at all.
\<close>

section \<open>Guards\<close>

text \<open>Only requests with a mutating method reach a transaction.\<close>

lemma api_route_keeps:
  assumes "api_route env r sid sess w = (rp, w')" and "\<not> isMutation (rq_Method r)"
  shows "aw_disk w' = aw_disk w \<and> aw_mgr w' = aw_mgr w"
proof -
  have "rq_Method r \<noteq> ''POST''" "rq_Method r \<noteq> ''PUT''" "rq_Method r \<noteq> ''DELETE''"
    using assms(2) by (simp_all add: isMutation_def)
  with assms(1) show ?thesis
    unfolding api_route_def Let_def by (simp split: if_splits option.splits prod.splits)
qed

lemma pruned_session:
  assumes "mget (ah_sessions (pruneLocked now h)) v = Some s" and "wf_map (ah_sessions h)"
  shows "mget (ah_sessions h) v = Some s" and "now - as_lastSeen s \<le> ao_SessionTimeout (ah_opts h)"
    and "now - as_createdAt s \<le> 24 * 60 * minute"
proof -
  have "(v, s) \<in> set (ah_sessions (pruneLocked now h))" using assms(1) by (rule map_of_SomeD)
  then have m: "(v, s) \<in> set (ah_sessions h)" and
    l: "\<not> (now - as_lastSeen s > ao_SessionTimeout (ah_opts h) \<or> now - as_createdAt s > 24 * 60 * minute)"
    by (simp_all add: pruneLocked_def)
  from m assms(2) show "mget (ah_sessions h) v = Some s" by simp
  from l show "now - as_lastSeen s \<le> ao_SessionTimeout (ah_opts h)" "now - as_createdAt s \<le> 24 * 60 * minute" by simp_all
qed

lemma authenticate_Some:
  assumes "authenticate env r h = (Some (sid, sess), h')" and "wf_map (ah_sessions h)"
  obtains s where "mget (rq_Cookies r) (session_cookie env h r) = Some sid" "mget (ah_sessions h) sid = Some s"
    "ae_now1 env - as_lastSeen s \<le> ao_SessionTimeout (ah_opts h)" "ae_now1 env - as_createdAt s \<le> 24 * 60 * minute"
    "as_csrf sess = as_csrf s"
proof -
  from assms(1) obtain s where c: "mget (rq_Cookies r) (session_cookie env h r) = Some sid"
    and s: "mget (ah_sessions (pruneLocked (ae_now1 env) h)) sid = Some s" and csrf: "as_csrf sess = as_csrf s"
    by (auto simp: authenticate_def Let_def split: option.splits if_splits)
  from pruned_session [OF s assms(2)] that c csrf show ?thesis by blast
qed

text \<open>
  The configuration and the running system change only for a request that proves itself: it carries the cookie of a session
  that is neither idle too long nor older than a day, its \<^verbatim>\<open>X-CSRF-Token\<close> is that session's, its content type is JSON, its
  origin, if any, is the console's, and in public mode it came over HTTPS.
\<close>

theorem admin_changes_are_guarded:
  assumes "admin_ServeHTTP env r w = (rp, w')" and "wf_map (ah_sessions (aw_handler w))"
    and "aw_disk w' \<noteq> aw_disk w \<or> aw_mgr w' \<noteq> aw_mgr w"
  shows "\<exists>sid s. mget (rq_Cookies r) (session_cookie env (aw_handler w) r) = Some sid \<and>
    mget (ah_sessions (aw_handler w)) sid = Some s \<and>
    ae_now1 env - as_lastSeen s \<le> ao_SessionTimeout (ah_opts (aw_handler w)) \<and>
    ae_now1 env - as_createdAt s \<le> 24 * 60 * minute \<and>
    isMutation (rq_Method r) \<and> header_get r ''X-CSRF-Token'' = as_csrf s \<and> json_media env r \<and>
    validOrigin env (aw_handler w) r \<and>
    (ao_PublicMode (ah_opts (aw_handler w)) \<longrightarrow> isHTTPS env (aw_handler w) r)"
proof -
  let ?h = "aw_handler w"
  have https: "ao_PublicMode (ah_opts ?h) \<longrightarrow> isHTTPS env ?h r" and api: "serveAPI env r w = (rp, w')"
    using assms(1,3) by (auto simp: admin_ServeHTTP_def split: if_splits)
  have orig: "validOrigin env ?h r" and nl: "rq_Path r \<noteq> ''/api/admin/v1/auth/login''"
    using api assms(3) by (auto simp: serveAPI_def Let_def split: if_splits prod.splits)
  obtain a h1 where au: "authenticate env r ?h = (a, h1)" by fastforce
  obtain sid sess where a: "a = Some (sid, sess)"
    using api assms(3) orig nl au by (cases a) (auto simp: serveAPI_def Let_def)
  obtain b h2 where al: "allowAPI (ae_now2 env) sid h1 = (b, h2)" by fastforce
  have "b" using api assms(3) orig nl au a al by (cases b) (auto simp: serveAPI_def Let_def)
  with api assms(3) orig nl au a al have route: "api_route env r sid sess (w\<lparr>aw_handler := h2\<rparr>) = (rp, w')"
    and g: "isMutation (rq_Method r) \<Longrightarrow> json_media env r \<and> header_get r ''X-CSRF-Token'' = as_csrf sess"
    by (auto simp: serveAPI_def Let_def split: if_splits)
  have "isMutation (rq_Method r)" using api_route_keeps [OF route] assms(3) by fastforce
  moreover obtain s where "mget (rq_Cookies r) (session_cookie env ?h r) = Some sid" "mget (ah_sessions ?h) sid = Some s"
    "ae_now1 env - as_lastSeen s \<le> ao_SessionTimeout (ah_opts ?h)" "ae_now1 env - as_createdAt s \<le> 24 * 60 * minute"
    "as_csrf sess = as_csrf s"
    using authenticate_Some [OF au [unfolded a] assms(2)] by blast
  ultimately show ?thesis using g orig https by auto
qed

section \<open>Bounded tables\<close>

definition handler_ok :: "Handler \<Rightarrow> bool" where
  "handler_ok h \<longleftrightarrow>
     wf_map (ah_sessions h) \<and> length (ah_sessions h) \<le> maxAdminSessions \<and>
     wf_map (ah_loginLimit h) \<and> length (ah_loginLimit h) \<le> maxLoginWindows \<and>
     (\<forall>(ip, w) \<in> set (ah_loginLimit h). lw_started w \<noteq> None)"

lemma mput_length: "length (mput k v m) = (if k \<in> fst ` set m then length m else length m + 1)"
  by (induction m) auto

lemma mput_length_known: "mget m k \<noteq> None \<Longrightarrow> length (mput k v m) = length m"
  by (simp add: mput_length map_of_eq_None_iff)

lemma wf_map_filter: "wf_map m \<Longrightarrow> wf_map (filter P m)"
  by (rule distinct_map_filter)

lemma prune_windows_ok:
  "wf_map m \<Longrightarrow> wf_map (prune_windows now m)" "length (prune_windows now m) \<le> length m"
  "set (prune_windows now m) \<subseteq> set m"
  by (auto simp: prune_windows_def wf_map_filter)

lemma pruneLocked_ok: "handler_ok h \<Longrightarrow> handler_ok (pruneLocked now h)"
  using prune_windows_ok [where m = "ah_loginLimit h" and now = now]
  by (auto simp: handler_ok_def pruneLocked_def wf_map_filter intro: order_trans [OF length_filter_le])

lemma allowLogin_ok:
  assumes "handler_ok h" and "allowLogin now ip h = (b, h')"
  shows "handler_ok h'" and "ah_opts h' = ah_opts h" and "ah_sessions h' = ah_sessions h"
proof -
  let ?m = "prune_windows now (ah_loginLimit h)"
  note p = prune_windows_ok [where m = "ah_loginLimit h" and now = now]
  have started: "\<forall>(ip, w) \<in> set ?m. lw_started w \<noteq> None" using assms(1) p(3) unfolding handler_ok_def by blast
  have wf: "wf_map ?m" "length ?m \<le> maxLoginWindows" using assms(1) p by (auto simp: handler_ok_def)
  let ?w = "mget_or \<lparr>lw_started = None, lw_count = 0\<rparr> ?m ip"
  let ?w1 = "if window_expired now ?w then \<lparr>lw_started = Some now, lw_count = 0\<rparr> else ?w"
  let ?w2 = "?w1\<lparr>lw_count := lw_count ?w1 + 1\<rparr>"
  have h': "h' = h\<lparr>ah_loginLimit := ?m\<rparr> \<or>
      \<not> (lw_started ?w = None \<and> length ?m \<ge> maxLoginWindows) \<and> h' = h\<lparr>ah_loginLimit := mput ip ?w2 ?m\<rparr>"
    using assms(2) by (auto simp: allowLogin_def Let_def split: if_splits)
  then show "ah_opts h' = ah_opts h" "ah_sessions h' = ah_sessions h" by auto
  have known: "lw_started ?w \<noteq> None \<longleftrightarrow> mget ?m ip \<noteq> None"
    using started by (auto simp: mget_or_def split: option.splits dest!: map_of_SomeD)
  have s2: "lw_started ?w2 \<noteq> None" by (auto simp: window_expired_def split: option.splits)
  have "length (mput ip ?w2 ?m) \<le> maxLoginWindows" if "\<not> (lw_started ?w = None \<and> length ?m \<ge> maxLoginWindows)"
    using that known wf(2) mput_length_known [of ?m ip ?w2] by (cases "mget ?m ip") (auto simp: mput_length)
  moreover have "\<forall>(ip, w) \<in> set (mput ip ?w2 ?m). lw_started w \<noteq> None"
    using started s2 unfolding split_def by (metis fst_conv in_mput_iff [OF wf(1)] snd_conv)
  ultimately show "handler_ok h'"
    using h' wf started assms(1) by (auto simp: handler_ok_def)
qed

lemma handler_ok_sessions:
  "handler_ok h \<Longrightarrow> mget (ah_sessions h) sid \<noteq> None \<Longrightarrow> handler_ok (h\<lparr>ah_sessions := mput sid s (ah_sessions h)\<rparr>)"
  "handler_ok h \<Longrightarrow> handler_ok (h\<lparr>ah_sessions := mdel sid (ah_sessions h)\<rparr>)"
  by (auto simp: handler_ok_def mput_length_known AList.delete_eq intro: order_trans [OF length_filter_le] wf_map_filter)

lemma authenticate_ok:
  assumes "handler_ok h" and "authenticate env r h = (a, h')"
  shows "handler_ok h'"
  using assms pruneLocked_ok [OF assms(1), of "ae_now1 env"]
  by (auto simp: authenticate_def Let_def handler_ok_sessions split: option.splits if_splits)

lemma allowAPI_ok: "handler_ok h \<Longrightarrow> allowAPI now sid h = (b, h') \<Longrightarrow> handler_ok h'"
  by (auto simp: allowAPI_def Let_def handler_ok_sessions split: option.splits)

lemma admin_login_ok:
  assumes "handler_ok h" and "admin_login env r h = (rp, h')"
  shows "handler_ok h'"
proof -
  obtain b h1 where al: "allowLogin (ae_now1 env) (clientIP env h r) h = (b, h1)" by fastforce
  note h1 = allowLogin_ok(1) [OF assms(1) al]
  let ?h2 = "pruneLocked (ae_now2 env) h1"
  note h2 = pruneLocked_ok [OF h1, of "ae_now2 env"]
  have "h' = h \<or> h' = h1 \<or> h' = ?h2 \<or>
      (\<exists>sid s. length (ah_sessions ?h2) < maxAdminSessions \<and>
        h' = ?h2\<lparr>ah_sessions := mput sid s (ah_sessions ?h2), ah_loginLimit := mdel (clientIP env h r) (ah_loginLimit ?h2)\<rparr>)"
    using assms(2) al by (auto simp: admin_login_def Let_def split: if_splits option.splits)
  then show ?thesis
    using assms(1) h1 h2
    by (auto simp: handler_ok_def mput_length AList.delete_eq intro: order_trans [OF length_filter_le] wf_map_filter)
qed

lemma api_route_handler:
  assumes "api_route env r sid sess w = (rp, w')"
  shows "aw_handler w' = aw_handler w \<or>
    aw_handler w' = (aw_handler w)\<lparr>ah_sessions := mdel sid (ah_sessions (aw_handler w))\<rparr>"
  using assms unfolding api_route_def Let_def by (auto split: if_splits option.splits prod.splits)

lemma admin_ServeHTTP_ok:
  assumes "handler_ok (aw_handler w)" and "admin_ServeHTTP env r w = (rp, w')"
  shows "handler_ok (aw_handler w')"
proof (cases "w' = w")
  case False
  with assms(2) have api: "serveAPI env r w = (rp, w')" by (auto simp: admin_ServeHTTP_def split: if_splits)
  show ?thesis
  proof (cases "rq_Path r = ''/api/admin/v1/auth/login''")
    case True
    with api False show ?thesis
      by (auto simp: serveAPI_def Let_def split: if_splits prod.splits dest!: admin_login_ok [OF assms(1)])
  next
    case nl: False
    obtain a h1 where au: "authenticate env r (aw_handler w) = (a, h1)" by fastforce
    note h1 = authenticate_ok [OF assms(1) au]
    show ?thesis
    proof (cases a)
      case None
      with api nl au False h1 show ?thesis by (auto simp: serveAPI_def Let_def split: if_splits)
    next
      case (Some p)
      obtain sid sess where p: "p = (sid, sess)" by fastforce
      obtain b h2 where al: "allowAPI (ae_now2 env) sid h1 = (b, h2)" by fastforce
      note h2 = allowAPI_ok [OF h1 al]
      have "aw_handler w' = h2 \<or> api_route env r sid sess (w\<lparr>aw_handler := h2\<rparr>) = (rp, w')"
        using api nl au False Some p al by (auto simp: serveAPI_def Let_def split: if_splits bool.splits)
      then show ?thesis using h2 handler_ok_sessions(2) [OF h2] by (auto dest!: api_route_handler)
    qed
  qed
qed (use assms in simp)

text \<open>
  Whatever requests arrive, there are never more than 16 administrator sessions and never more than 4096 windows of
  login attempts, and both tables stay well formed.
\<close>

theorem admin_tables_bounded:
  assumes "admin_New lib parseCIDR opts = Inr h" and "aw_handler w = h"
  shows "handler_ok (aw_handler (fold (\<lambda>(env, r) w. snd (admin_ServeHTTP env r w)) reqs w))"
proof -
  have "handler_ok h" using assms(1) by (auto simp: admin_New_def Let_def handler_ok_def split: if_splits sum.splits)
  with assms(2) have "handler_ok (aw_handler w)" by simp
  then show ?thesis
  proof (induction reqs arbitrary: w)
    case (Cons x reqs)
    have "handler_ok (aw_handler (snd (admin_ServeHTTP (fst x) (snd x) w)))"
      by (rule admin_ServeHTTP_ok [OF Cons.prems prod.collapse [symmetric]])
    from Cons.IH [OF this] show ?case by (simp add: split_def)
  qed simp
qed

section \<open>Throttled guessing\<close>

text \<open>Login attempts in their order, each with its time and address, and which of them may present a token.\<close>

fun login_run :: "(int \<times> string) list \<Rightarrow> Handler \<Rightarrow> bool list" where
  "login_run [] h = []"
| "login_run ((now, ip) # attempts) h = (let (b, h') = allowLogin now ip h in b # login_run attempts h')"

lemma prune_windows_get:
  "wf_map m \<Longrightarrow> mget (prune_windows now m) ip =
     (case mget m ip of None \<Rightarrow> None | Some w \<Rightarrow> if window_expired now w then None else Some w)"
proof (induction m)
  case (Cons e m)
  then have "fst e = ip \<Longrightarrow> mget m ip = None" by (simp add: map_of_eq_None_iff)
  with Cons show ?case by (cases e) (auto simp: prune_windows_def split: option.splits)
qed (simp add: prune_windows_def)

text \<open>The window of an address that began at \<open>t0\<close> or later, with \<open>k\<close> attempts counted.\<close>

definition window_at :: "int \<Rightarrow> string \<Rightarrow> nat \<Rightarrow> Handler \<Rightarrow> bool" where
  "window_at t0 ip k h \<longleftrightarrow>
     (case mget (ah_loginLimit h) ip of
        None \<Rightarrow> k = 0
      | Some w \<Rightarrow> lw_count w = k \<and> (\<exists>s. lw_started w = Some s \<and> t0 \<le> s))"

lemma allowLogin_window:
  assumes "handler_ok h" and "window_at t0 ip k h" and "t0 \<le> now" "now \<le> t0 + 15 * minute" and "allowLogin now i h = (b, h')"
  shows "if i = ip then (b \<longrightarrow> k < 5 \<and> window_at t0 ip (k + 1) h') \<and> (\<not> b \<longrightarrow> window_at t0 ip k h' \<or> window_at t0 ip (k + 1) h')
    else window_at t0 ip k h'"
proof -
  let ?m = "prune_windows now (ah_loginLimit h)"
  have wf: "wf_map (ah_loginLimit h)" using assms(1) by (simp add: handler_ok_def)
  have live: "mget ?m ip = mget (ah_loginLimit h) ip"
    using assms(2-4) by (auto simp: prune_windows_get [OF wf] window_at_def window_expired_def split: option.splits)
  let ?w = "mget_or \<lparr>lw_started = None, lw_count = 0\<rparr> ?m i"
  let ?w1 = "if window_expired now ?w then \<lparr>lw_started = Some now, lw_count = 0\<rparr> else ?w"
  consider (full) "b = False" "h' = h\<lparr>ah_loginLimit := ?m\<rparr>"
    | (counted) "b \<longleftrightarrow> lw_count ?w1 + 1 \<le> 5" "h' = h\<lparr>ah_loginLimit := mput i (?w1\<lparr>lw_count := lw_count ?w1 + 1\<rparr>) ?m\<rparr>"
    using assms(5) by (auto simp: allowLogin_def Let_def split: if_splits)
  then show ?thesis
  proof cases
    case full
    then show ?thesis using assms(2) live by (simp add: window_at_def)
  next
    case counted
    show ?thesis
    proof (cases "i = ip")
      case False
      with counted assms(2) live show ?thesis by (simp add: window_at_def)
    next
      case True
      have "lw_count ?w1 = k \<and> (\<exists>s. lw_started ?w1 = Some s \<and> t0 \<le> s)"
        using assms(2-4) live True
        by (auto simp: window_at_def mget_or_def window_expired_def split: option.splits)
      with counted True show ?thesis by (auto simp: window_at_def)
    qed
  qed
qed

lemma login_run_bound:
  assumes "handler_ok h" and "window_at t0 ip k h" and "\<forall>(t, i) \<in> set attempts. t0 \<le> t \<and> t \<le> t0 + 15 * minute"
  shows "length (filter (\<lambda>((t, i), b). i = ip \<and> b) (zip attempts (login_run attempts h))) \<le> 5 - k"
  using assms
proof (induction attempts arbitrary: h k)
  case (Cons a attempts)
  obtain now i where a: "a = (now, i)" by fastforce
  obtain b h' where al: "allowLogin now i h = (b, h')" by fastforce
  have t: "t0 \<le> now" "now \<le> t0 + 15 * minute" and rest: "\<forall>(t, i) \<in> set attempts. t0 \<le> t \<and> t \<le> t0 + 15 * minute"
    using Cons.prems(3) a by auto
  note ok = allowLogin_ok(1) [OF Cons.prems(1) al] and win = allowLogin_window [OF Cons.prems(1,2) t al]
  let ?n = "length (filter (\<lambda>((t, i), b). i = ip \<and> b) (zip attempts (login_run attempts h')))"
  have IH: "window_at t0 ip k' h' \<Longrightarrow> ?n \<le> 5 - k'" for k' using Cons.IH [OF ok _ rest] by blast
  have n: "length (filter (\<lambda>((t, i), b). i = ip \<and> b) (zip (a # attempts) (login_run (a # attempts) h))) =
      (if i = ip \<and> b then ?n + 1 else ?n)"
    by (simp add: a al)
  show ?case unfolding n using win IH [of k] IH [of "k + 1"] by (auto split: if_splits)
qed simp


section \<open>Secrets\<close>

text \<open>
  C24. Secrets survive an edit: writing back a server exactly as the API showed it, with every secret replaced by the
  sentinel, changes nothing in the configuration.
\<close>

theorem redacted_put_roundtrip:
  assumes "mget (cfg_MCPServers cfg) sid = Some s" and "wf_map (sc_Env s)" and "wf_map (sc_Headers s)"
    and "mget (cfg_MCPServers (redactConfig cfg)) sid = Some shown"
  shows "put_edit sid shown cfg = Inr cfg"
proof -
  have merge: "mergeSecrets m (redact_values m) = m" if "wf_map m" for m
    using that
  proof -
    have "List.map_filter (\<lambda>(k, v). if v = secretSentinel then map_option (\<lambda>old. (k, old)) (mget m k) else Some (k, v))
        (map (\<lambda>(k, _). (k, secretSentinel)) xs) = xs" if "set xs \<subseteq> set m" for xs
      using that
    proof (induction xs)
      case (Cons x xs)
      then have "mget m (fst x) = Some (snd x)" using \<open>wf_map m\<close> by (cases x) simp
      with Cons show ?case by (cases x) (simp add: List.map_filter_simps)
    qed (simp add: List.map_filter_simps)
    then show ?thesis by (simp add: mergeSecrets_def redact_values_def)
  qed
  have sh: "shown = s\<lparr>sc_Env := redact_values (sc_Env s), sc_Headers := redact_values (sc_Headers s)\<rparr>"
    using assms(1,4) by (simp add: redactConfig_def Let_def mget_map_values [where f = "\<lambda>_ s. s\<lparr>sc_Env := redact_values (sc_Env s), sc_Headers := redact_values (sc_Headers s)\<rparr>"])
  have "mget m k = Some v \<Longrightarrow> mput k v m = m" for m and k :: string and v :: ServerConfig
    by (induction m) (auto split: if_splits)
  from this [OF assms(1)] have upd: "mput sid s (cfg_MCPServers cfg) = cfg_MCPServers cfg" .
  show ?thesis using assms(1) merge [OF assms(2)] merge [OF assms(3)] upd by (simp add: put_edit_def sh)
qed

section \<open>Witnesses\<close>

definition demo_admin_env :: "nat admin_env" where
  "demo_admin_env =
     \<lparr>ae_ParseIP = (\<lambda>s. Some s), ae_ParseCIDR = (\<lambda>_. None), ae_ParseMediaType = (\<lambda>s. Some s), ae_PathUnescape = (\<lambda>s. Some s),
      ae_static = (\<lambda>_. 200), ae_now1 = 10, ae_now2 = 11, ae_random1 = Some ''sid'', ae_random2 = Some ''csrf'',
      ae_load = demo_load_env, ae_decodeToken = (\<lambda>_. Inr (''tok'', True)), ae_decodeServer = (\<lambda>_. Inl ''unused''),
      ae_marshal = (\<lambda>_. Some ''new''), ae_hash = (\<lambda>d. d),
      ae_open = (\<lambda>c. Some \<lparr>of_stat = None, of_content = c, of_end = None\<rparr>), ae_between = (\<lambda>d. d),
      ae_write = demo_oracle ''t'', ae_rollback = demo_oracle ''t'', ae_preflight = None,
      ae_reload = Some (\<lambda>_ n. (None, n + 1))\<rparr>"

definition demo_handler :: Handler where
  "demo_handler =
     \<lparr>ah_opts = \<lparr>ao_ConfigPath = ''c'', ao_AdminToken = ''tok'', ao_PublicURL = [], ao_PublicMode = False, ao_TrustedProxies = [],
        ao_SessionTimeout = 30 * minute\<rparr>,
      ah_origin = [], ah_trusted = [], ah_sessions = [], ah_loginLimit = []\<rparr>"

lemma demo_handler_New: "admin_New demo_lib (\<lambda>_. None) (ah_opts demo_handler) = Inr demo_handler"
proof -
  have "trim_space ''c'' \<noteq> []" "trim_space ''tok'' \<noteq> []" by code_simp+
  then show ?thesis by (simp add: admin_New_def demo_handler_def minute_def second_def trim_right_chars_def)
qed

definition demo_session :: admin_session where
  "demo_session = \<lparr>as_csrf = ''csrf'', as_createdAt = 0, as_lastSeen = 0, as_apiStarted = None, as_apiCount = 0\<rparr>"

definition demo_world :: "nat admin_world" where
  "demo_world = \<lparr>aw_handler = demo_handler\<lparr>ah_sessions := [(''sid'', demo_session)]\<rparr>,
     aw_disk = demo_disk\<lparr>dk_files := [(''c'', ''{}'')]\<rparr>, aw_mgr = 0\<rparr>"

definition demo_delete :: http_request where
  "demo_delete = \<lparr>rq_Method = ''DELETE'', rq_Path = ''/api/admin/v1/servers/fs'', rq_Host = ''h'', rq_RemoteAddr = ''1.2.3.4:5'', rq_TLS = False,
     rq_Header = [(''X-CSRF-Token'', ''csrf''), (''Content-Type'', ''application/json''), (''If-Match'', ''{}'')],
     rq_Cookies = [(localCookieName, ''sid'')], rq_Body = None\<rparr>"

theorem admin_changes_are_guarded_witness:
  "aw_mgr (snd (admin_ServeHTTP demo_admin_env demo_delete demo_world)) = 1 \<and> header_get demo_delete ''X-CSRF-Token'' = as_csrf demo_session"
proof -
  obtain rp w' where r: "admin_ServeHTTP demo_admin_env demo_delete demo_world = (rp, w')" by fastforce
  have "aw_mgr (snd (admin_ServeHTTP demo_admin_env demo_delete demo_world)) = 1" by code_simp
  with r have one: "aw_mgr w' = 1" by simp
  have "wf_map (ah_sessions (aw_handler demo_world))" by (simp add: demo_world_def)
  moreover have "aw_disk w' \<noteq> aw_disk demo_world \<or> aw_mgr w' \<noteq> aw_mgr demo_world" using one by (simp add: demo_world_def)
  ultimately obtain sid s where "mget (rq_Cookies demo_delete) (session_cookie demo_admin_env (aw_handler demo_world) demo_delete) = Some sid"
    "mget (ah_sessions (aw_handler demo_world)) sid = Some s" "header_get demo_delete ''X-CSRF-Token'' = as_csrf s"
    using admin_changes_are_guarded [OF r] by blast
  with r one show ?thesis by (auto simp: demo_world_def split: if_splits)
qed

theorem admin_tables_bounded_witness:
  "length (ah_sessions (aw_handler (fold (\<lambda>(env, r) w. snd (admin_ServeHTTP env r w)) [(demo_admin_env, demo_delete)]
     (demo_world\<lparr>aw_handler := demo_handler\<rparr>)))) \<le> 16"
  using admin_tables_bounded [OF demo_handler_New, of "demo_world\<lparr>aw_handler := demo_handler\<rparr>" "[(demo_admin_env, demo_delete)]"]
  by (simp add: handler_ok_def maxAdminSessions_def)


theorem redacted_put_roundtrip_witness:
  "\<exists>shown. mget (cfg_MCPServers (redactConfig demo_raw)) ''fs'' = Some shown \<and> put_edit ''fs'' shown demo_raw = Inr demo_raw"
proof -
  obtain s where s: "mget (cfg_MCPServers demo_raw) ''fs'' = Some s" "wf_map (sc_Env s)" "wf_map (sc_Headers s)"
    by (simp add: demo_raw_def)
  obtain shown where sh: "mget (cfg_MCPServers (redactConfig demo_raw)) ''fs'' = Some shown"
    by (simp add: demo_raw_def redactConfig_def Let_def)
  from redacted_put_roundtrip [OF s sh] sh show ?thesis by blast
qed

end
