(* ===== verification/Admin_Transactions.thy ===== *)
theory Admin_Transactions
  imports Admin_Properties
begin

text \<open>
  The transactions of the administration API: what a change of the configuration leaves on disk and in the running
  system for every way it can end, and what editing the access tokens does to the tokens in force.
\<close>

section \<open>All or nothing\<close>

text \<open>How the disk stands to the code's reads and writes: files deliver their contents and temporary paths are new.\<close>

definition disk_honest :: "'m admin_env \<Rightarrow> string \<Rightarrow> disk \<Rightarrow> bool" where
  "disk_honest env path d \<longleftrightarrow>
     honest (ae_write env) path d \<and> honest (ae_rollback env) path d \<and> \<not> wo_removeFails (ae_write env) \<and>
     (\<forall>c f. ae_open env c = Some f \<longrightarrow> of_content f = c)"

lemma admin_read_Inr:
  assumes "admin_read env path d = Inr data" and "disk_honest env path d"
  shows "mget (dk_files d) path = Some data"
proof -
  from assms(1) obtain c f where c: "mget (dk_files d) path = Some c" "ae_open env c = Some f"
    and f: "ReadFileLimited (Some f) = Inr data"
    by (auto simp: admin_read_def ReadFileLimited_def split: option.splits)
  from f have "data = of_content f"
    by (auto simp: ReadFileLimited_def read_limited_def split: option.splits if_splits)
  with c assms(2) show ?thesis unfolding disk_honest_def by metis
qed

lemma honest_after_write:
  assumes "WriteConfigFileAtomic hash orc path data e d = (err, d')" and "honest orc path d" and "\<not> wo_removeFails orc"
    and "honest orc' path d"
  shows "honest orc' path d'"
  using WriteConfigFileAtomic_effect [OF assms(1,2)] assms(3,4) unfolding honest_def by metis

text \<open>The second half: after the write, the old contents \<open>previous\<close> being known.\<close>

lemma reload_or_rollback_effect:
  assumes "reload_or_rollback env path previous newDigest (d, m) = (rp, d', m')" and "honest (ae_rollback env) path d"
  shows "(rp_Status rp = 200 \<and> d' = d \<and> (case ae_reload env of None \<Rightarrow> m' = m | Some reload \<Rightarrow> reload d m = (None, m'))) \<or>
    (rp = http_error ''configuration reload failed and rollback could not be completed'' 500 \<and>
       (mget (dk_files d') path = mget (dk_files d) path \<or> mget (dk_files d') path = Some previous)) \<or>
    (rp_Status rp = 503 \<and> mget (dk_files d') path = Some previous \<and>
       (\<exists>reload m1 e e2. ae_reload env = Some reload \<and> reload d m = (Some e, m1) \<and> reload d' m1 = (e2, m') \<and>
          (rp_Text rp = ''configuration reload failed; change was rolled back'' \<longleftrightarrow> e2 = None)))"
proof (cases "ae_reload env")
  case None
  with assms(1) show ?thesis by (auto simp: reload_or_rollback_def Let_def writeJSON_def)
next
  case (Some reload)
  obtain e1 m1 where r1: "reload d m = (e1, m1)" by fastforce
  show ?thesis
  proof (cases e1)
    case None
    with assms(1) Some r1 show ?thesis by (auto simp: reload_or_rollback_def Let_def writeJSON_def)
  next
    case e1: (Some x)
    obtain we d1 where wr: "WriteConfigFileAtomic (ae_hash env) (ae_rollback env) path previous newDigest d = (we, d1)" by fastforce
    note fx = WriteConfigFileAtomic_effect [OF wr assms(2)]
    obtain e2 m2 where r2: "reload d1 m1 = (e2, m2)" by fastforce
    show ?thesis
    proof (cases we)
      case None
      have d1: "mget (dk_files d1) path = Some previous" using fx None by simp
      have "d' = d1" "m' = m2" "rp_Status rp = 503"
        "rp_Text rp = ''configuration reload failed; change was rolled back'' \<longleftrightarrow> e2 = None"
        using assms(1) unfolding reload_or_rollback_def
        by (auto simp: Let_def Some r1 e1 wr None r2 http_error_def split: option.splits)
      with d1 Some r1 e1 r2 show ?thesis by auto
    next
      case (Some y)
      have "d' = d1" "rp = http_error ''configuration reload failed and rollback could not be completed'' 500"
        using assms(1) unfolding reload_or_rollback_def
        by (auto simp: Let_def \<open>ae_reload env = Some reload\<close> r1 e1 wr Some)
      with fx show ?thesis by (auto split: if_splits)
    qed
  qed
qed

text \<open>The first half, up to the write, taken apart.\<close>

lemma writeConfigLocked_cases:
  assumes "writeConfigLocked env path cfg dig (d, m) = (rp, d', m')" and "disk_honest env path d"
  obtains (refused) "d' = d" "m' = m" "rp_Status rp \<noteq> 200" "rp_Status rp \<noteq> 503" "rp_Text rp \<noteq> ''configuration write failed''"
  | (failed) data e where "ae_marshal env cfg = Some data" "m' = m" "rp_Status rp = 409 \<or> rp = http_error ''configuration write failed'' 500"
      "WriteConfigFileAtomic (ae_hash env) (ae_write env) path (data @ [CHR 0x0A]) dig d = (Some e, d')"
      "rp_Status rp = 409 \<longleftrightarrow> (\<exists>a b. e = WriteMismatch a b)"
  | (written) data previous d1 where "ae_marshal env cfg = Some data" "mget (dk_files d) path = Some previous" "ae_hash env previous = dig"
      "WriteConfigFileAtomic (ae_hash env) (ae_write env) path (data @ [CHR 0x0A]) dig d = (None, d1)"
      "reload_or_rollback env path previous (ae_hash env (data @ [CHR 0x0A])) (d1, m) = (rp, d', m')"
proof -
  let ?le = "ae_load env"
  show thesis
  proof (cases "Validate (le_lib ?le) (Some cfg) = None \<and>
      (\<exists>rc. Resolve (le_lib ?le) (le_environ ?le) (le_isWindows ?le) (Some cfg) (le_Dir ?le path) (le_lookup ?le) = Inr rc \<and>
        \<not> (case ae_preflight env of None \<Rightarrow> False | Some pf \<Rightarrow> pf rc m \<noteq> None)) \<and>
      (\<exists>data previous. ae_marshal env cfg = Some data \<and> admin_read env path d = Inr previous \<and> ae_hash env previous = dig)")
    case False
    with assms(1) show thesis
      by (intro refused) (auto simp: writeConfigLocked_def Let_def http_error_def ComputeDigest_def split: option.splits sum.splits if_splits)
  next
    case True
    then obtain rc data previous where ok: "Validate (le_lib ?le) (Some cfg) = None"
      "Resolve (le_lib ?le) (le_environ ?le) (le_isWindows ?le) (Some cfg) (le_Dir ?le path) (le_lookup ?le) = Inr rc"
      "\<not> (case ae_preflight env of None \<Rightarrow> False | Some pf \<Rightarrow> pf rc m \<noteq> None)"
      "ae_marshal env cfg = Some data" "admin_read env path d = Inr previous" "ae_hash env previous = dig"
      by blast
    note prev = admin_read_Inr [OF ok(5) assms(2)]
    obtain we d1 where w: "WriteConfigFileAtomic (ae_hash env) (ae_write env) path (data @ [CHR 0x0A]) dig d = (we, d1)" by fastforce
    show thesis
    proof (cases we)
      case None
      from assms(1) have "reload_or_rollback env path previous (ae_hash env (data @ [CHR 0x0A])) (d1, m) = (rp, d', m')"
        unfolding writeConfigLocked_def by (simp add: ok ComputeDigest_def Let_def w None)
      with written ok(4,6) prev w None show thesis by blast
    next
      case (Some e)
      from assms(1) have "d' = d1" "m' = m" "rp_Status rp = 409 \<or> rp = http_error ''configuration write failed'' 500"
        "rp_Status rp = 409 \<longleftrightarrow> (\<exists>a b. e = WriteMismatch a b)"
        unfolding writeConfigLocked_def
        by (auto simp: ok ComputeDigest_def Let_def w Some http_error_def split: write_error.splits)
      with failed ok(4) w Some show thesis by blast
    qed
  qed
qed

text \<open>
  C22. A change of the configuration is a transaction. It answers 200 only when the file holds exactly the new configuration,
  the file it replaced was the version the client had read, and the running system has taken it over. In every other case the
  file is what it was before, except that a failed write and a rollback that could not be completed may leave the new
  file, and both say so.
\<close>

theorem writeConfigLocked_atomic:
  assumes "writeConfigLocked env path cfg dig (d, m) = (rp, d', m')" and "disk_honest env path d"
  shows "if rp_Status rp = 200
    then \<exists>old data. mget (dk_files d) path = Some old \<and> ae_hash env old = dig \<and> ae_marshal env cfg = Some data \<and>
      mget (dk_files d') path = Some (data @ [CHR 0x0A]) \<and>
      (case ae_reload env of None \<Rightarrow> m' = m | Some reload \<Rightarrow> reload d' m = (None, m'))
    else if rp = http_error ''configuration write failed'' 500 \<or>
      rp = http_error ''configuration reload failed and rollback could not be completed'' 500
    then mget (dk_files d') path = mget (dk_files d) path \<or>
      (\<exists>data. ae_marshal env cfg = Some data \<and> mget (dk_files d') path = Some (data @ [CHR 0x0A]))
    else mget (dk_files d') path = mget (dk_files d) path"
  using assms
proof (cases rule: writeConfigLocked_cases)
  case refused
  then show ?thesis by simp
next
  case (failed data e)
  have h: "honest (ae_write env) path d" using assms(2) by (simp add: disk_honest_def)
  note fx = WriteConfigFileAtomic_effect [OF failed(4) h]
  have "rp_Status rp = 409 \<Longrightarrow> mget (dk_files d') path = mget (dk_files d) path" using fx failed(5) by auto
  moreover have "mget (dk_files d') path = mget (dk_files d) path \<or> mget (dk_files d') path = Some (data @ [CHR 0x0A])"
    using fx by auto
  moreover have "rp_Status rp \<noteq> 200" using failed(3) by (auto simp: http_error_def)
  ultimately show ?thesis using failed(1,3) by (auto simp: http_error_def)
next
  case (written data previous d1)
  have h: "honest (ae_write env) path d" "\<not> wo_removeFails (ae_write env)" "honest (ae_rollback env) path d"
    using assms(2) by (simp_all add: disk_honest_def)
  note d1 = WriteConfigFileAtomic_content [OF written(4) h(1)]
  note fx = reload_or_rollback_effect [OF written(5) honest_after_write [OF written(4) h]]
  show ?thesis using fx d1 written(1-3) by (auto simp: http_error_def)
qed

text \<open>
  The failure that is not one: when only the synchronisation of the directory fails, the client is told that the write
  failed, the new file is in place all the same, and nothing is reloaded or rolled back.
\<close>

theorem write_failed_but_written:
  assumes "writeConfigLocked env path cfg dig (d, m) = (rp, d', m')" and "disk_honest env path d"
    and "\<forall>data. ae_marshal env cfg = Some data \<longrightarrow>
      fst (WriteConfigFileAtomic (ae_hash env) (ae_write env) path (data @ [CHR 0x0A]) dig d) = Some WriteSyncDir"
    and "rp_Text rp = ''configuration write failed''"
  shows "m' = m \<and> (\<exists>data. ae_marshal env cfg = Some data \<and> mget (dk_files d') path = Some (data @ [CHR 0x0A]))"
  using assms(1,2)
proof (cases rule: writeConfigLocked_cases)
  case refused
  with assms(4) show ?thesis by simp
next
  case (failed data e)
  have h: "honest (ae_write env) path d" using assms(2) by (simp add: disk_honest_def)
  have "e = WriteSyncDir" using failed(1,4) assms(3) by (metis fst_conv option.inject)
  with WriteConfigFileAtomic_effect [OF failed(4) h] failed(1,2) show ?thesis by auto
next
  case (written data previous d1)
  with assms(3) show ?thesis by (metis fst_conv option.distinct(1))
qed

section \<open>Rollback of the running system\<close>

text \<open>The reload function of the transaction is the controller's (\<^verbatim>\<open>WithConfigTransaction\<close>).\<close>

definition WithConfigTransaction :: "'m ctl_env \<Rightarrow> string \<Rightarrow> disk \<Rightarrow> 'm Controller \<Rightarrow> string option \<times> 'm Controller" where
  "WithConfigTransaction cenv path d c =
     (let file = mget (dk_files d) path; (err, c') = reloadNow cenv file file c
      in (map_option (\<lambda>_. ''reload failed'') err, c'))"

lemma reloadNow_constants:
  assumes "reloadNow cenv file file' c = (err, c')"
  shows "ct_configPath c' = ct_configPath c" and "ct_startup c' = ct_startup c"
  using assms
  by (auto simp: reloadNow_def load_and_apply_def ctl_Apply_def Let_def split: option.splits sum.splits prod.splits if_splits)

lemma reloadNow_loaded:
  assumes "reloadNow cenv (Some data) file' c = (None, c')"
  shows "\<exists>resolved. ctl_load cenv data (ct_configPath c) = Inr resolved \<and> ct_appliedDigest c' = ctl_digest cenv data \<and>
    ct_current c' = Some (stripStartupSecrets resolved (ct_startup c))"
proof -
  from assms have "load_and_apply cenv data file' c = (None, c')" by (simp add: reloadNow_def)
  then show ?thesis by (cases rule: load_and_apply_cases) auto
qed


section \<open>Access tokens\<close>

lemma trim_space_Nil [simp]: "trim_space [] = []"
  by (simp add: trim_space_def trim_words.simps find_None_iff space_runes_def)

text \<open>
  Deleting an access token removes exactly the one at the given position of the list that the API shows, and never the
  last one.
\<close>

theorem delete_token_exact:
  assumes "delete_token_edit index cfg = Inr cfg'"
  shows "0 \<le> index \<and> nat index < length (appendTokenValues (hub_Auth (cfg_Hub cfg))) \<and>
    appendTokenValues (hub_Auth (cfg_Hub cfg')) =
      take (nat index) (appendTokenValues (hub_Auth (cfg_Hub cfg))) @ drop (nat index + 1) (appendTokenValues (hub_Auth (cfg_Hub cfg))) \<and>
    appendTokenValues (hub_Auth (cfg_Hub cfg')) \<noteq> [] \<and>
    cfg'\<lparr>cfg_Hub := cfg_Hub cfg\<rparr> = cfg"
proof -
  let ?a = "hub_Auth (cfg_Hub cfg)"
  let ?ts = "auth_BearerTokens ?a"
  show ?thesis
  proof (cases "trim_space (auth_BearerToken ?a) = []")
    case True
    with assms have i: "0 \<le> index" "nat index < length ?ts" "length ?ts \<noteq> 1"
      and c: "cfg' = set_auth (\<lambda>a. a\<lparr>auth_BearerTokens := take (nat index) ?ts @ drop (nat index + 1) ?ts\<rparr>) cfg"
      by (auto simp: delete_token_edit_def Let_def split: if_splits)
    have "length (take (nat index) ?ts @ drop (nat index + 1) ?ts) > 0" using i by simp
    then have "take (nat index) ?ts @ drop (nat index + 1) ?ts \<noteq> []" by (rule length_greater_0_conv [THEN iffD1])
    with True i c show ?thesis by (auto simp: appendTokenValues_def set_auth_def)
  next
    case False
    show ?thesis
    proof (cases "index = 0")
      case True
      with False assms have "?ts \<noteq> []" "cfg' = set_auth (\<lambda>a. a\<lparr>auth_BearerToken := []\<rparr>) cfg"
        by (auto simp: delete_token_edit_def Let_def split: if_splits)
      with True False show ?thesis by (simp add: appendTokenValues_def set_auth_def)
    next
      case nz: False
      with False assms have i: "0 < index" "index < 1 + int (length ?ts)"
        and c: "cfg' = set_auth (\<lambda>a. a\<lparr>auth_BearerTokens := take (nat (index - 1)) ?ts @ drop (nat (index - 1) + 1) ?ts\<rparr>) cfg"
        by (auto simp: delete_token_edit_def Let_def split: if_splits)
      obtain n where n: "nat index = Suc n" "nat (index - 1) = n" using i(1) by (metis Suc_nat_eq_nat_zadd1 add.commute diff_add_cancel nat_eq_iff2 nat_le_0 not_le zle_diff1_eq)
      with i c False show ?thesis by (auto simp: appendTokenValues_def set_auth_def)
    qed
  qed
qed

lemma ExpandEnv_plain: "dollar \<notin> set s \<Longrightarrow> ExpandEnv s lookup = Inr s"
  using expand_prefix [of s lookup 0 "[]"] by (simp add: ExpandEnv_def)

lemma resolve_tokens_snoc:
  assumes "resolve_tokens lookup i seen raw = Inr vs" and "trim_space c \<noteq> []" and "ExpandEnv c lookup = Inr v"
    and "v \<notin> set seen" and "v \<notin> set vs"
  shows "resolve_tokens lookup i seen (raw @ [c]) = Inr (vs @ [v])"
  using assms
proof (induction raw arbitrary: i seen vs)
  case (Cons x raw)
  then obtain u us where u: "vs = u # us" "ExpandEnv x lookup = Inr u" "trim_space x \<noteq> []" "u \<notin> set seen"
    "resolve_tokens lookup (i + 1) (u # seen) raw = Inr us"
    by (auto simp: map_sum_Inr_iff split: if_splits sum.splits)
  from Cons.IH [OF u(5) Cons.prems(2,3)] Cons.prems(4,5) u(1)
  have "resolve_tokens lookup (i + 1) (u # seen) (raw @ [c]) = Inr (us @ [v])" by simp
  with u show ?case by simp
qed simp

lemma resolve_tokens_expand:
  "resolve_tokens lookup i seen raw = Inr vs \<Longrightarrow> v \<in> set vs \<Longrightarrow> \<exists>x \<in> set raw. ExpandEnv x lookup = Inr v \<and> trim_space x \<noteq> []"
proof (induction raw arbitrary: i seen vs)
  case (Cons x raw)
  then obtain u us where "vs = u # us" "ExpandEnv x lookup = Inr u" "trim_space x \<noteq> []"
    "resolve_tokens lookup (i + 1) (u # seen) raw = Inr us"
    by (auto simp: map_sum_Inr_iff split: if_splits sum.splits)
  with Cons show ?case by fastforce
qed simp

text \<open>
  A token that is posted becomes an access token of its own: the tokens in force are then the old ones followed by what the
  posted text expands to, and that is the posted token itself when there is no dollar sign in it.
\<close>

theorem post_token_effective:
  assumes "post_edit lookup candidate cfg = Inr cfg'" and "dollar \<notin> set candidate" and "trim_space candidate \<noteq> []"
    and "resolveBearerTokens (hub_Auth (cfg_Hub cfg)) lookup = Inr tokens"
  shows "resolveBearerTokens (hub_Auth (cfg_Hub cfg')) lookup = Inr (tokens @ [candidate])"
proof -
  let ?a = "hub_Auth (cfg_Hub cfg)"
  let ?raw = "(if auth_BearerToken ?a \<noteq> [] then [auth_BearerToken ?a] else []) @ auth_BearerTokens ?a"
  have new: "\<not> list_ex (\<lambda>e. ExpandEnv e lookup = Inr candidate) (appendTokenValues ?a)"
    and cfg': "hub_Auth (cfg_Hub cfg') = ?a\<lparr>auth_BearerTokens := auth_BearerTokens ?a @ [candidate]\<rparr>"
    using assms(1) by (auto simp: post_edit_def set_auth_def split: if_splits)
  have ts: "resolve_tokens lookup 0 [] ?raw = Inr tokens" using assms(4) by (simp add: resolveBearerTokens_def)
  have "candidate \<notin> set tokens"
  proof
    assume "candidate \<in> set tokens"
    from resolve_tokens_expand [OF ts this] obtain x where "x \<in> set ?raw" "ExpandEnv x lookup = Inr candidate" "trim_space x \<noteq> []"
      by blast
    then have "x \<in> set (appendTokenValues ?a)" by (auto simp: appendTokenValues_def split: if_splits)
    with new \<open>ExpandEnv x lookup = Inr candidate\<close> show False by (auto simp: list_ex_iff)
  qed
  then have "resolve_tokens lookup 0 [] (?raw @ [candidate]) = Inr (tokens @ [candidate])"
    by (intro resolve_tokens_snoc [OF ts assms(3) ExpandEnv_plain [OF assms(2)]]) simp_all
  moreover have "(if auth_BearerToken (hub_Auth (cfg_Hub cfg')) \<noteq> [] then [auth_BearerToken (hub_Auth (cfg_Hub cfg'))] else []) @
      auth_BearerTokens (hub_Auth (cfg_Hub cfg')) = ?raw @ [candidate]"
    by (simp add: cfg')
  ultimately show ?thesis unfolding resolveBearerTokens_def by (simp only:)
qed

definition dollar_token :: string where
  "dollar_token = replicate 31 (CHR ''a'') @ [dollar, dollar]"

text \<open>
  A posted token with a dollar sign is stored as it is and expanded when the file is loaded: the request is accepted, yet the
  token it named is not among the tokens in force.
\<close>

theorem posted_dollar_token_differs:
  "length dollar_token \<ge> MinAuthTokenLength \<and> \<not> contains_any dollar_token [CHR 0x0D, CHR 0x0A] \<and>
   (\<exists>cfg' tokens. post_edit demo_lookup dollar_token demo_raw = Inr cfg' \<and>
     resolveBearerTokens (hub_Auth (cfg_Hub cfg')) demo_lookup = Inr tokens \<and> dollar_token \<notin> set tokens \<and>
     replicate 31 (CHR ''a'') @ [dollar] \<in> set tokens)"
proof -
  have "length dollar_token \<ge> MinAuthTokenLength" "\<not> contains_any dollar_token [CHR 0x0D, CHR 0x0A]" by code_simp+
  moreover have "(case post_edit demo_lookup dollar_token demo_raw of Inl _ \<Rightarrow> False
      | Inr cfg' \<Rightarrow> resolveBearerTokens (hub_Auth (cfg_Hub cfg')) demo_lookup =
          Inr [demo_token, replicate 31 (CHR ''a'') @ [dollar]])"
    by code_simp
  moreover have "dollar_token \<notin> set [demo_token, replicate 31 (CHR ''a'') @ [dollar]]" by code_simp
  ultimately show ?thesis by (auto split: sum.splits)
qed

section \<open>Witnesses\<close>

lemma demo_disk_honest: "disk_honest demo_admin_env ''c'' demo_disk"
  using demo_honest by (simp add: disk_honest_def demo_admin_env_def demo_oracle_def)

lemma demo_valid: "Validate demo_lib (Some demo_raw) = None"
  using demo_resolves by (auto elim: Resolve_Inr)

lemmas demo_write_defs = writeConfigLocked_def reload_or_rollback_def admin_read_def ReadFileLimited_def stat_too_large_def
  read_limited_def MaxConfigFileSize_def ComputeDigest_def WriteConfigFileAtomic_def write_locked_def write_replace_def check_cas_def
  fill_temp_def demo_oracle_def demo_lock_oracle_def demo_disk_def AcquireLock_def tryLockFile_def writeLockDetails_def
  ComputeFileDigest_def replaceFile_def unlockFile_def

lemma demo_le [simp]:
  "le_lib demo_load_env = demo_lib" "le_environ demo_load_env = demo_environ" "le_isWindows demo_load_env = False"
  "le_Dir demo_load_env p = ''/etc''" "le_lookup demo_load_env = demo_lookup"
  by (simp_all add: demo_load_env_def)

theorem writeConfigLocked_atomic_witness:
  "mget (dk_files (fst (snd (writeConfigLocked demo_admin_env ''c'' demo_raw ''old'' (demo_disk, 0))))) ''c'' = Some (''new'' @ [CHR 0x0A]) \<and>
   snd (snd (writeConfigLocked demo_admin_env ''c'' demo_raw ''old'' (demo_disk, 0))) = 1"
proof -
  obtain rp d' m' where w: "writeConfigLocked demo_admin_env ''c'' demo_raw ''old'' (demo_disk, 0) = (rp, d', m')" by (metis surj_pair)
  then have "rp_Status rp = 200"
    by (auto simp: demo_write_defs demo_admin_env_def demo_valid demo_resolves Let_def writeJSON_def)
  with writeConfigLocked_atomic [OF w demo_disk_honest] w show ?thesis by (auto simp: demo_admin_env_def)
qed

abbreviation demo_sync_env :: "nat admin_env" where
  "demo_sync_env \<equiv> demo_admin_env\<lparr>ae_write := (demo_oracle ''t'')\<lparr>wo_syncDirFails := True\<rparr>\<rparr>"

theorem write_failed_but_written_witness:
  "rp_Text (fst (writeConfigLocked demo_sync_env ''c'' demo_raw ''old'' (demo_disk, 0))) = ''configuration write failed'' \<and>
   mget (dk_files (fst (snd (writeConfigLocked demo_sync_env ''c'' demo_raw ''old'' (demo_disk, 0))))) ''c'' = Some (''new'' @ [CHR 0x0A])"
proof -
  obtain rp d' m' where w: "writeConfigLocked demo_sync_env ''c'' demo_raw ''old'' (demo_disk, 0) = (rp, d', m')" by (metis surj_pair)
  then have t: "rp_Text rp = ''configuration write failed''"
    by (auto simp: demo_write_defs demo_admin_env_def demo_valid demo_resolves Let_def http_error_def)
  have h: "disk_honest demo_sync_env ''c'' demo_disk" using demo_disk_honest by (simp add: disk_honest_def honest_def demo_admin_env_def)
  have "\<forall>data. ae_marshal demo_sync_env demo_raw = Some data \<longrightarrow>
      fst (WriteConfigFileAtomic (ae_hash demo_sync_env) (ae_write demo_sync_env) ''c'' (data @ [CHR 0x0A]) ''old'' demo_disk) = Some WriteSyncDir"
    by (auto simp: demo_write_defs demo_admin_env_def Let_def)
  from write_failed_but_written [OF w h this t] w t show ?thesis by (auto simp: demo_admin_env_def)
qed

definition demo_rollback_env :: "nat Controller admin_env" where
  "demo_rollback_env =
     \<lparr>ae_ParseIP = (\<lambda>s. Some s), ae_ParseCIDR = (\<lambda>_. None), ae_ParseMediaType = (\<lambda>s. Some s), ae_PathUnescape = (\<lambda>s. Some s),
      ae_static = (\<lambda>_. 200), ae_now1 = 10, ae_now2 = 11, ae_random1 = Some ''sid'', ae_random2 = Some ''csrf'',
      ae_load = demo_load_env, ae_decodeToken = (\<lambda>_. Inr (''tok'', True)), ae_decodeServer = (\<lambda>_. Inl ''unused''),
      ae_marshal = (\<lambda>_. Some ''new''), ae_hash = (\<lambda>d. d),
      ae_open = (\<lambda>c. Some \<lparr>of_stat = None, of_content = c, of_end = None\<rparr>), ae_between = (\<lambda>d. d),
      ae_write = demo_oracle ''t'', ae_rollback = demo_oracle ''t'', ae_preflight = None,
      ae_reload = Some (WithConfigTransaction
        (demo_ctl_env\<lparr>ctl_load := (\<lambda>data _. if data = ''old'' then Inr fs_config else Inl ''bad'')\<rparr>) ''c'')\<rparr>"


theorem delete_token_exact_witness:
  "\<exists>cfg'. delete_token_edit 1 (set_auth (\<lambda>a. a\<lparr>auth_BearerTokens := [''b'']\<rparr>) demo_raw) = Inr cfg' \<and>
     appendTokenValues (hub_Auth (cfg_Hub cfg')) = [''${TOKEN}'']"
proof -
  let ?cfg = "set_auth (\<lambda>a. a\<lparr>auth_BearerTokens := [''b'']\<rparr>) demo_raw"
  have av: "appendTokenValues (hub_Auth (cfg_Hub ?cfg)) = [''${TOKEN}'', ''b'']" by code_simp
  have "\<not> isl (delete_token_edit 1 ?cfg)" by code_simp
  then obtain cfg' where c: "delete_token_edit 1 ?cfg = Inr cfg'" by (cases "delete_token_edit 1 ?cfg") auto
  from delete_token_exact [OF c] have "appendTokenValues (hub_Auth (cfg_Hub cfg')) = [''${TOKEN}'']" unfolding av by simp
  with c show ?thesis by blast
qed

theorem post_token_effective_witness:
  "\<exists>cfg'. post_edit demo_lookup (replicate 40 (CHR ''z'')) demo_raw = Inr cfg' \<and>
     resolveBearerTokens (hub_Auth (cfg_Hub cfg')) demo_lookup = Inr [demo_token, replicate 40 (CHR ''z'')]"
proof -
  have "\<not> isl (post_edit demo_lookup (replicate 40 (CHR ''z'')) demo_raw)" by code_simp
  then obtain cfg' where c: "post_edit demo_lookup (replicate 40 (CHR ''z'')) demo_raw = Inr cfg'"
    by (cases "post_edit demo_lookup (replicate 40 (CHR ''z'')) demo_raw") auto
  have "trim_space (replicate 40 (CHR ''z'')) \<noteq> []" by code_simp
  moreover have "resolveBearerTokens (hub_Auth (cfg_Hub demo_raw)) demo_lookup = Inr [demo_token]" by code_simp
  ultimately show ?thesis using post_token_effective [OF c] c by auto
qed

end
