(* ===== verification/Http_Front.thy ===== *)
theory Http_Front
  imports Admin Controller
begin

text \<open>
  The HTTP front (\<^verbatim>\<open>internal/inbound/http.go\<close>): construction, the security middleware, the request multiplexer, the MCP
  endpoint with its session admission, and the diagnostic endpoints; and how \<^verbatim>\<open>internal/cli/app.go\<close> sets it up from a
  resolved configuration.

  The multiplexer is the standard library's \<^verbatim>\<open>http.ServeMux\<close> on the patterns the code registers: it matches the unescaped
  segments of the escaped path and answers a path that is not clean with a redirection. The SDK's streamable handler is a
  parameter \<open>fe_sdk\<close> that acts on the SDK's state; the number of its sessions is read by \<open>fe_sessions\<close>. The manager behind
  the status pages is a value of type \<open>'m\<close> with the methods of \<^verbatim>\<open>ManagerCallback\<close>. Clocks and the results of other
  library calls in one request are fields of \<open>front_env\<close>.
\<close>

section \<open>Constants and data\<close>

definition MaxHTTPSessions :: int where "MaxHTTPSessions = 32"
definition MaxBodySize :: int where "MaxBodySize = 8 * 1024 * 1024"
definition DefaultSessionTimeout :: int where "DefaultSessionTimeout = 30 * minute"
definition InitReadDeadline :: int where "InitReadDeadline = 5 * second"
definition SessionPOSTReadDeadline :: int where "SessionPOSTReadDeadline = 15 * second"
definition latestStatefulProtocol :: string where "latestStatefulProtocol = ''2025-11-25''"

record StatusDTO =
  sd_Version :: string
  sd_UptimeSeconds :: int
  sd_CatalogRevision :: int
  sd_RestartRequired :: bool
  sd_LastReloadStatus :: string
  sd_Servers :: "ServerStatusDTO list"
  sd_RecentCalls :: "RecentCallDTO list"

text \<open>A nil slice of the callback is \<^term>\<open>None\<close>; \<open>cb_BearerTokens\<close> is there when the manager has that method.\<close>

record 'm ManagerCallback =
  cb_IsReady :: "'m \<Rightarrow> bool"
  cb_GetServerStatuses :: "'m \<Rightarrow> ServerStatusDTO list option"
  cb_GetRecentCalls :: "'m \<Rightarrow> RecentCallDTO list option"
  cb_RestartRequired :: "'m \<Rightarrow> bool"
  cb_LastReloadStatus :: "'m \<Rightarrow> string"
  cb_BearerTokens :: "('m \<Rightarrow> string list) option"

record HTTPServerOptions =
  ho_Version :: string
  ho_SessionTimeout :: int
  ho_MaxSessions :: int
  ho_MaxBodySize :: int
  ho_PublicMode :: bool
  ho_PublicURL :: string
  ho_AllowedHosts :: "string list"
  ho_TrustedProxies :: "string list"
  ho_BearerToken :: string
  ho_BearerTokens :: "string list"
  ho_AdminHandler :: bool

record HTTPServer =
  hs_boundHost :: string
  hs_boundPort :: string
  hs_startTime :: int
  hs_version :: string
  hs_sessionTimeout :: int
  hs_maxSessions :: int
  hs_maxBodySize :: int
  hs_publicMode :: bool
  hs_publicURL :: string
  hs_allowedHosts :: "(string, unit) gomap"
  hs_trustedProxies :: "(string \<Rightarrow> bool) list"
  hs_bearerToken :: string
  hs_bearerTokens :: "string list"
  hs_adminHandler :: bool

record ('m, 's) front_env =
  fe_lib :: go_lib
  fe_ParseIP :: "string \<Rightarrow> string option"
  fe_escaped :: string
  fe_now :: int
  fe_Revision :: int
  fe_provider :: "string list option"
  fe_manager :: "'m ManagerCallback option"
  fe_sessions :: "'s \<Rightarrow> nat"
  fe_sdk :: "int option \<Rightarrow> http_request \<Rightarrow> 's \<Rightarrow> http_response \<times> 's"
  fe_admin :: "'m admin_env"

record ('m, 's) front_world =
  fw_admin :: "'m admin_world"
  fw_sdk :: 's

datatype front_answer =
    AnsError string nat
  | AnsJSON string nat
  | AnsStatus StatusDTO
  | AnsRedirect string
  | AnsSDK http_response
  | AnsAdmin http_response

section \<open>Listening\<close>

definition front_isLoopbackHost :: "go_lib \<Rightarrow> string \<Rightarrow> bool" where
  "front_isLoopbackHost lib host =
     (let clean = trim_chars ''[]'' host
      in if equal_fold clean ''localhost'' then True
         else case lib_ParseIP lib clean of None \<Rightarrow> False | Some loopback \<Rightarrow> loopback)"

datatype bind_error = BindFormat | BindPort string | BindNotLoopback string | BindListen string

definition BindListener :: "go_lib \<Rightarrow> (string \<Rightarrow> string + 'l) \<Rightarrow> string \<Rightarrow> bool \<Rightarrow> bind_error + 'l" where
  "BindListener lib listen listenAddr allowPublic =
     (let listenAddr = (if trim_space listenAddr = [] then ''127.0.0.1:8080'' else listenAddr)
      in case SplitHostPort listenAddr of
           None \<Rightarrow> Inl BindFormat
         | Some (host, portStr) \<Rightarrow>
             (case atoi portStr of
                None \<Rightarrow> Inl (BindPort portStr)
              | Some port \<Rightarrow>
                  if port < 0 \<or> port > 65535 then Inl (BindPort portStr)
                  else if \<not> front_isLoopbackHost lib host \<and> \<not> allowPublic then Inl (BindNotLoopback host)
                  else (case listen listenAddr of Inl e \<Rightarrow> Inl (BindListen e) | Inr lis \<Rightarrow> Inr lis)))"

definition BindLoopbackListener :: "go_lib \<Rightarrow> (string \<Rightarrow> string + 'l) \<Rightarrow> string \<Rightarrow> bind_error + 'l" where
  "BindLoopbackListener lib listen listenAddr = BindListener lib listen listenAddr False"

section \<open>Construction\<close>

datatype front_error =
    FrontListenerNil
  | FrontPublisherNil
  | FrontAddress
  | FrontMaxSessions int
  | FrontMaxBodySize int
  | FrontProxyCIDR string

definition positive_or :: "int \<Rightarrow> int \<Rightarrow> int" where
  "positive_or d v = (if v > 0 then v else d)"

text \<open>
  \<open>laddr\<close> is the listener's address, \<^term>\<open>None\<close> for a nil listener. \<open>bi_version\<close> is the version compiled in. The provider
  of tokens in the options is a field of \<open>front_env\<close>, as it is called again for every request.
\<close>

definition NewHTTPServer ::
  "string \<Rightarrow> int \<Rightarrow> (string \<Rightarrow> (string \<Rightarrow> bool) option) \<Rightarrow> string option \<Rightarrow> bool \<Rightarrow> HTTPServerOptions option \<Rightarrow> front_error + HTTPServer" where
  "NewHTTPServer bi_version now parseCIDR laddr hasPublisher opts =
     (case laddr of
        None \<Rightarrow> Inl FrontListenerNil
      | Some addr \<Rightarrow>
          if \<not> hasPublisher then Inl FrontPublisherNil
          else case SplitHostPort addr of
                 None \<Rightarrow> Inl FrontAddress
               | Some (host, port) \<Rightarrow>
                   let version = (case opts of None \<Rightarrow> bi_version | Some o' \<Rightarrow> if ho_Version o' \<noteq> [] then ho_Version o' else bi_version);
                       timeout = (case opts of None \<Rightarrow> DefaultSessionTimeout | Some o' \<Rightarrow> positive_or DefaultSessionTimeout (ho_SessionTimeout o'));
                       maxSessions = (case opts of None \<Rightarrow> MaxHTTPSessions | Some o' \<Rightarrow> positive_or MaxHTTPSessions (ho_MaxSessions o'));
                       maxBody = (case opts of None \<Rightarrow> MaxBodySize | Some o' \<Rightarrow> positive_or MaxBodySize (ho_MaxBodySize o'))
                   in if maxSessions > MaxHTTPSessions then Inl (FrontMaxSessions maxSessions)
                      else if maxBody > MaxBodySize then Inl (FrontMaxBodySize maxBody)
                      else
                        let s = \<lparr>hs_boundHost = host, hs_boundPort = port, hs_startTime = now, hs_version = version,
                                 hs_sessionTimeout = timeout, hs_maxSessions = maxSessions, hs_maxBodySize = maxBody,
                                 hs_publicMode = False, hs_publicURL = [], hs_allowedHosts = [], hs_trustedProxies = [],
                                 hs_bearerToken = [], hs_bearerTokens = [], hs_adminHandler = False\<rparr>
                        in case opts of
                             None \<Rightarrow> Inr s
                           | Some o' \<Rightarrow>
                               (case try_map (\<lambda>raw. case parseCIDR raw of None \<Rightarrow> Inl (FrontProxyCIDR raw) | Some n \<Rightarrow> Inr n)
                                       (ho_TrustedProxies o') of
                                  Inl e \<Rightarrow> Inl e
                                | Inr networks \<Rightarrow>
                                    Inr (s\<lparr>hs_publicMode := ho_PublicMode o',
                                           hs_publicURL := trim_right_chars ''/'' (ho_PublicURL o'),
                                           hs_bearerToken := ho_BearerToken o',
                                           hs_bearerTokens :=
                                             (if length (ho_BearerTokens o') = 0 \<and> ho_BearerToken o' \<noteq> [] then [ho_BearerToken o']
                                              else ho_BearerTokens o'),
                                           hs_adminHandler := ho_AdminHandler o',
                                           hs_allowedHosts := fold (\<lambda>a m. mput (to_lower (trim_space a)) () m) (ho_AllowedHosts o') [],
                                           hs_trustedProxies := networks\<rparr>)))"

section \<open>The checks of the middleware\<close>

definition isHTTPSRequest :: "('m, 's) front_env \<Rightarrow> HTTPServer \<Rightarrow> http_request \<Rightarrow> bool" where
  "isHTTPSRequest env s r =
     (if rq_TLS r then True
      else
        let host = (case SplitHostPort (rq_RemoteAddr r) of None \<Rightarrow> rq_RemoteAddr r | Some (h, _) \<Rightarrow> h);
            trusted = (case fe_ParseIP env (trim_chars ''[]'' host) of
                         None \<Rightarrow> False | Some peer \<Rightarrow> list_ex (\<lambda>network. network peer) (hs_trustedProxies s))
        in if \<not> trusted then False
           else equal_fold (trim_space (hd (split_byte (CHR '','') (header_get r ''X-Forwarded-Proto'')))) ''https'')"

text \<open>The tokens a request is compared with, and whether somebody provides them.\<close>

definition front_tokens :: "('m, 's) front_env \<Rightarrow> HTTPServer \<Rightarrow> 'm \<Rightarrow> string list" where
  "front_tokens env s m =
     (let (hasProvider, tokens) =
        (case fe_provider env of
           Some ts \<Rightarrow> (True, ts)
         | None \<Rightarrow>
             (case fe_manager env of
                None \<Rightarrow> (False, hs_bearerTokens s)
              | Some cb \<Rightarrow> (case cb_BearerTokens cb of None \<Rightarrow> (False, hs_bearerTokens s) | Some f \<Rightarrow> (True, f m))))
      in if \<not> hasProvider \<and> length tokens = 0 \<and> hs_bearerToken s \<noteq> [] then [hs_bearerToken s] else tokens)"

text \<open>The constant-time comparison is equality; the loop over all tokens is a disjunction.\<close>

definition authorizedBearer :: "('m, 's) front_env \<Rightarrow> HTTPServer \<Rightarrow> 'm \<Rightarrow> http_request \<Rightarrow> bool" where
  "authorizedBearer env s m r =
     (let tokens = front_tokens env s m; auth = header_get r ''Authorization''
      in if length tokens = 0 then \<not> hs_publicMode s
         else if \<not> has_prefix auth ''Bearer '' then False
         else let candidate = trim_prefix auth ''Bearer ''
              in fold (\<lambda>token matched. matched \<or> candidate = token) tokens False)"

definition isAllowedHost :: "go_lib \<Rightarrow> HTTPServer \<Rightarrow> string \<Rightarrow> bool" where
  "isAllowedHost lib s hostHeader =
     (if trim_space hostHeader = [] then False
      else
        let (host, port) = (case SplitHostPort hostHeader of None \<Rightarrow> (hostHeader, []) | Some hp \<Rightarrow> hp)
        in if hs_publicMode s
           then if mhas (hs_allowedHosts s) (to_lower hostHeader) then True else mhas (hs_allowedHosts s) (to_lower host)
           else if hs_boundPort s \<noteq> [] \<and> (if port \<noteq> [] then port \<noteq> hs_boundPort s else hs_boundPort s \<noteq> ''80'') then False
           else front_isLoopbackHost lib host)"

text \<open>\<^verbatim>\<open>http.MaxBytesReader\<close>: reading past the limit is an error.\<close>

definition max_bytes_reader :: "nat \<Rightarrow> os_file \<Rightarrow> os_file" where
  "max_bytes_reader n f =
     (if length (of_content f) > n
      then f\<lparr>of_content := take n (of_content f), of_end := Some ''http: request body too large''\<rparr> else f)"

definition is_admin_path :: "string \<Rightarrow> bool" where
  "is_admin_path p \<longleftrightarrow> has_prefix p ''/admin'' \<or> has_prefix p ''/api/admin/''"

text \<open>The middleware: an answer of its own, or the request to pass on.\<close>

definition wrapSecurityMiddleware ::
  "('m, 's) front_env \<Rightarrow> HTTPServer \<Rightarrow> 'm \<Rightarrow> http_request \<Rightarrow> front_answer + http_request" where
  "wrapSecurityMiddleware env s m r =
     (let isAdmin = is_admin_path (rq_Path r)
      in if hs_publicMode s \<and> \<not> isHTTPSRequest env s r then Inl (AnsError ''HTTPS required'' 426)
         else if \<not> isAdmin \<and> mhas (rq_Header r) ''Origin'' then Inl (AnsError ''Forbidden: Origin header is not allowed'' 403)
         else if \<not> isAdmin \<and> rq_Path r \<noteq> ''/healthz'' \<and> \<not> authorizedBearer env s m r then Inl (AnsError ''Unauthorized'' 401)
         else if \<not> isAllowedHost (fe_lib env) s (rq_Host r) then Inl (AnsError ''Forbidden: invalid Host header'' 403)
         else Inr (r\<lparr>rq_Body := map_option (max_bytes_reader (nat (hs_maxBodySize s))) (rq_Body r)\<rparr>))"

section \<open>The multiplexer\<close>

definition is_hex :: "char \<Rightarrow> bool" where
  "is_hex c \<longleftrightarrow> is_digit c \<or> CHR ''a'' \<le> c \<and> c \<le> CHR ''f'' \<or> CHR ''A'' \<le> c \<and> c \<le> CHR ''F''"

definition unhex :: "char \<Rightarrow> nat" where
  "unhex c = (if is_digit c then of_char c - 48 else if CHR ''a'' \<le> c then of_char c - 87 else of_char c - 55)"

text \<open>\<^verbatim>\<open>url.PathUnescape\<close>.\<close>

fun path_unescape :: "string \<Rightarrow> string option" where
  "path_unescape [] = Some []"
| "path_unescape (c # cs) =
     (if c \<noteq> CHR ''%'' then map_option ((#) c) (path_unescape cs)
      else case cs of
             a # b # t \<Rightarrow> if is_hex a \<and> is_hex b then map_option ((#) (char_of (16 * unhex a + unhex b))) (path_unescape t) else None
           | _ \<Rightarrow> None)"

text \<open>\<^verbatim>\<open>path.Clean\<close> of a rooted path, with its final slash kept.\<close>

fun clean_segments :: "string list \<Rightarrow> string list \<Rightarrow> string list" where
  "clean_segments st [] = rev st"
| "clean_segments st (seg # segs) =
     (if seg = [] \<or> seg = ''.'' then clean_segments st segs
      else if seg = ''..'' then clean_segments (tl st) segs
      else clean_segments (seg # st) segs)"

definition clean_path :: "string \<Rightarrow> string" where
  "clean_path p =
     (let p = (if p = [] then ''/'' else if hd p \<noteq> CHR ''/'' then CHR ''/'' # p else p);
          segs = clean_segments [] (split_byte (CHR ''/'') p);
          np = (if segs = [] then ''/'' else concat (map ((#) (CHR ''/'')) segs))
      in if last p = CHR ''/'' \<and> np \<noteq> ''/'' then np @ ''/'' else np)"

datatype mux_handler = HMCP | HHealthz | HReadyz | HStatus | HAdmin

text \<open>A pattern is its segments and whether it ends with a slash, so that it matches everything below it.\<close>

definition mux_patterns :: "bool \<Rightarrow> ((string list \<times> bool) \<times> mux_handler) list" where
  "mux_patterns admin =
     [(([''mcp''], False), HMCP), (([''mcp''], True), HMCP), (([''healthz''], False), HHealthz), (([''readyz''], False), HReadyz),
      (([''api'', ''v1'', ''status''], False), HStatus)] @
     (if admin then [(([''admin''], False), HAdmin), (([''admin''], True), HAdmin), (([''api'', ''admin'', ''v1''], True), HAdmin)]
      else [])"

definition pattern_matches :: "string list \<Rightarrow> string list \<times> bool \<Rightarrow> bool" where
  "pattern_matches segs p \<longleftrightarrow>
     (if snd p then length (fst p) < length segs \<and> take (length (fst p)) segs = fst p else segs = fst p)"

definition unescape_segment :: "string \<Rightarrow> string" where
  "unescape_segment seg = (case path_unescape seg of None \<Rightarrow> seg | Some t \<Rightarrow> t)"

definition path_segments :: "string \<Rightarrow> string list" where
  "path_segments path = map unescape_segment (split_byte (CHR ''/'') (tl path))"

datatype mux_result = MuxHandler mux_handler | MuxRedirect string | MuxNotFound

definition mux_route :: "bool \<Rightarrow> string \<Rightarrow> string \<Rightarrow> string \<Rightarrow> mux_result" where
  "mux_route admin meth upath escaped =
     (let path = (if meth = ''CONNECT'' then escaped else clean_path escaped);
          segs = path_segments path; ps = mux_patterns admin;
          found = find (\<lambda>(p, _). pattern_matches segs p) ps
      in if list_ex (\<lambda>(p, _). snd p \<and> fst p = segs) ps \<and> \<not> list_ex (\<lambda>(p, _). \<not> snd p \<and> fst p = segs) ps
         then MuxRedirect (clean_path upath @ ''/'')
         else if path \<noteq> escaped then MuxRedirect path
         else case found of None \<Rightarrow> MuxNotFound | Some (_, h) \<Rightarrow> MuxHandler h)"

section \<open>The endpoints\<close>

text \<open>
  The MCP endpoint. \<open>mcp_refused\<close> is the check of the protocol version, \<open>is_init_POST\<close> the request that opens a session,
  \<open>read_deadline\<close> the time the handler leaves for the request body.
\<close>

definition mcp_refused :: "http_request \<Rightarrow> bool" where
  "mcp_refused r \<longleftrightarrow> trim_space (header_get r ''Mcp-Protocol-Version'') > latestStatefulProtocol"

definition is_init_POST :: "http_request \<Rightarrow> bool" where
  "is_init_POST r \<longleftrightarrow> rq_Method r = ''POST'' \<and> header_get r ''Mcp-Session-Id'' = []"

definition read_deadline :: "int \<Rightarrow> http_request \<Rightarrow> int option" where
  "read_deadline now r =
     (if rq_Method r = ''POST'' then Some (now + (if is_init_POST r then InitReadDeadline else SessionPOSTReadDeadline)) else None)"

definition at_capacity :: "('m, 's) front_env \<Rightarrow> HTTPServer \<Rightarrow> 's \<Rightarrow> bool" where
  "at_capacity env s k \<longleftrightarrow> int (fe_sessions env k) \<ge> hs_maxSessions s"

definition handleMCP :: "('m, 's) front_env \<Rightarrow> HTTPServer \<Rightarrow> http_request \<Rightarrow> 's \<Rightarrow> front_answer \<times> 's" where
  "handleMCP env s r k =
     (if mcp_refused r
      then (AnsError (''Bad Request: this stateful endpoint supports MCP through '' @ latestStatefulProtocol) 400, k)
      else if is_init_POST r \<and> at_capacity env s k then (AnsError ''server session capacity reached'' 503, k)
      else let (rp, k') = fe_sdk env (read_deadline (fe_now env) r) r k in (AnsSDK rp, k'))"

definition handleHealthz :: "http_request \<Rightarrow> front_answer" where
  "handleHealthz r =
     (if rq_Method r \<noteq> ''GET'' then AnsError ''Method Not Allowed'' 405 else AnsJSON ''{\"status\":\"ok\"}'' 200)"

definition handleReadyz :: "('m, 's) front_env \<Rightarrow> 'm \<Rightarrow> http_request \<Rightarrow> front_answer" where
  "handleReadyz env m r =
     (if rq_Method r \<noteq> ''GET'' then AnsError ''Method Not Allowed'' 405
      else
        let ready = (case fe_manager env of None \<Rightarrow> True | Some cb \<Rightarrow> cb_IsReady cb m)
        in if ready then AnsJSON ''{\"status\":\"ready\"}'' 200 else AnsJSON ''{\"status\":\"not ready\"}'' 503)"

definition handleStatus :: "('m, 's) front_env \<Rightarrow> HTTPServer \<Rightarrow> 'm \<Rightarrow> http_request \<Rightarrow> front_answer" where
  "handleStatus env s m r =
     (if rq_Method r \<noteq> ''GET'' then AnsError ''Method Not Allowed'' 405
      else
        let status = \<lparr>sd_Version = hs_version s, sd_UptimeSeconds = (fe_now env - hs_startTime s) div second,
                      sd_CatalogRevision = fe_Revision env, sd_RestartRequired = False, sd_LastReloadStatus = ''ok'',
                      sd_Servers = [], sd_RecentCalls = []\<rparr>
        in AnsStatus (case fe_manager env of
             None \<Rightarrow> status
           | Some cb \<Rightarrow>
               status\<lparr>sd_RestartRequired := cb_RestartRequired cb m, sd_LastReloadStatus := cb_LastReloadStatus cb m,
                      sd_Servers := (case cb_GetServerStatuses cb m of None \<Rightarrow> [] | Some srvs \<Rightarrow> srvs),
                      sd_RecentCalls := (case cb_GetRecentCalls cb m of None \<Rightarrow> [] | Some calls \<Rightarrow> calls)\<rparr>))"

text \<open>The root handler.\<close>

definition front_ServeHTTP ::
  "('m, 's) front_env \<Rightarrow> HTTPServer \<Rightarrow> http_request \<Rightarrow> ('m, 's) front_world \<Rightarrow> front_answer \<times> ('m, 's) front_world" where
  "front_ServeHTTP env s r w =
     (let m = aw_mgr (fw_admin w)
      in case wrapSecurityMiddleware env s m r of
           Inl a \<Rightarrow> (a, w)
         | Inr r \<Rightarrow>
             (case mux_route (hs_adminHandler s) (rq_Method r) (rq_Path r) (fe_escaped env) of
                MuxNotFound \<Rightarrow> (AnsError ''404 page not found'' 404, w)
              | MuxRedirect p \<Rightarrow> (AnsRedirect p, w)
              | MuxHandler h \<Rightarrow>
                  (case h of
                     HMCP \<Rightarrow> let (a, k) = handleMCP env s r (fw_sdk w) in (a, w\<lparr>fw_sdk := k\<rparr>)
                   | HHealthz \<Rightarrow> (handleHealthz r, w)
                   | HReadyz \<Rightarrow> (handleReadyz env m r, w)
                   | HStatus \<Rightarrow> (handleStatus env s m r, w)
                   | HAdmin \<Rightarrow> let (rp, aw) = admin_ServeHTTP (fe_admin env) r (fw_admin w) in (AnsAdmin rp, w\<lparr>fw_admin := aw\<rparr>))))"

definition JoinHostPort :: "string \<Rightarrow> string \<Rightarrow> string" where
  "JoinHostPort host port =
     (if CHR '':'' \<in> set host \<or> CHR ''%'' \<in> set host then ''['' @ host @ '']:'' @ port else host @ '':'' @ port)"

definition front_URL :: "HTTPServer \<Rightarrow> string" where
  "front_URL s =
     (if equal_fold (hs_boundHost s) ''localhost'' then ''http://'' @ JoinHostPort ''localhost'' (hs_boundPort s)
      else ''http://'' @ JoinHostPort (trim_chars ''[]'' (hs_boundHost s)) (hs_boundPort s))"

section \<open>The hub's wiring\<close>

definition serve_admin_options :: "string \<Rightarrow> ResolvedConfig \<Rightarrow> admin_options" where
  "serve_admin_options configPath resolved =
     \<lparr>ao_ConfigPath = configPath, ao_AdminToken = rc_AdminToken resolved, ao_PublicURL = rc_PublicURL resolved,
      ao_PublicMode = rc_PublicMode resolved, ao_TrustedProxies = rc_TrustedProxies resolved,
      ao_SessionTimeout = rc_AdminSessionTimeout resolved\<rparr>"

definition serve_http_options :: "string \<Rightarrow> ResolvedConfig \<Rightarrow> HTTPServerOptions" where
  "serve_http_options bi_version resolved =
     \<lparr>ho_Version = bi_version, ho_SessionTimeout = 0, ho_MaxSessions = 0, ho_MaxBodySize = 0,
      ho_PublicMode = rc_PublicMode resolved, ho_PublicURL = rc_PublicURL resolved, ho_AllowedHosts = rc_AllowedHosts resolved,
      ho_TrustedProxies = rc_TrustedProxies resolved, ho_BearerToken = rc_BearerToken resolved, ho_BearerTokens = [],
      ho_AdminHandler = rc_AdminEnabled resolved\<rparr>"

text \<open>The controller as the front's manager.\<close>

definition controller_callback ::
  "('m \<Rightarrow> bool) \<Rightarrow> ('m \<Rightarrow> ServerStatusDTO list) \<Rightarrow> ('m \<Rightarrow> RecentCallDTO list) \<Rightarrow> 'm Controller ManagerCallback" where
  "controller_callback ready statuses calls =
     \<lparr>cb_IsReady = ctl_IsReady ready,
      cb_GetServerStatuses = (\<lambda>c. map_option statuses (ct_manager c)),
      cb_GetRecentCalls = (\<lambda>c. map_option calls (ct_manager c)),
      cb_RestartRequired = ct_restartRequired,
      cb_LastReloadStatus = ct_lastReload,
      cb_BearerTokens = Some ctl_BearerTokens\<rparr>"

end
