(* ===== verification/Http_Front_Properties.thy ===== *)
theory Http_Front_Properties
  imports Http_Front Admin_Properties
begin

text \<open>
  What the HTTP front guarantees: which requests get to the MCP endpoint, to the status page and to the administration API
  behind it, the number of MCP sessions, and the agreement of the front with the parts it is set up from.
\<close>

section \<open>Paths and the multiplexer\<close>

fun join_slash :: "string list \<Rightarrow> string" where
  "join_slash [] = []"
| "join_slash [seg] = seg"
| "join_slash (seg # segs) = seg @ CHR ''/'' # join_slash segs"

lemma join_slash_Cons: "segs \<noteq> [] \<Longrightarrow> join_slash (seg # segs) = seg @ CHR ''/'' # join_slash segs"
  by (cases segs) auto

lemma split_byte_none: "b \<notin> set t \<Longrightarrow> split_byte b t = [t]"
  by (induction t) auto

lemma split_byte_first: "b \<notin> set xs \<Longrightarrow> split_byte b (xs @ b # ys) = xs # split_byte b ys"
  by (induction xs) auto

lemma not_hex_slash: "\<not> is_hex (CHR ''/'')"
  by (simp add: is_hex_def is_digit_def less_eq_char_def)

lemma path_unescape_slash:
  "path_unescape (xs @ CHR ''/'' # ys) = Some z \<Longrightarrow>
   \<exists>a b. path_unescape xs = Some a \<and> path_unescape ys = Some b \<and> z = a @ CHR ''/'' # b"
proof (induction xs arbitrary: z rule: path_unescape.induct)
  case 1
  then show ?case by auto
next
  case (2 c cs)
  show ?case
  proof (cases "c = CHR ''%''")
    case False
    with 2 show ?thesis by fastforce
  next
    case True
    show ?thesis
    proof (cases cs)
      case Nil
      with True 2(3) show ?thesis by (cases ys) (auto simp: not_hex_slash)
    next
      case (Cons a cs')
      show ?thesis
      proof (cases cs')
        case Nil
        with True Cons 2(3) show ?thesis by (auto simp: not_hex_slash)
      next
        case (Cons b t)
        with True \<open>cs = a # cs'\<close> 2(2) [of a cs' b t] 2(3) show ?thesis by (fastforce split: if_splits)
      qed
    qed
  qed
qed

lemma path_unescape_join:
  "path_unescape t = Some u \<Longrightarrow> u = join_slash (map unescape_segment (split_byte (CHR ''/'') t))"
proof (induction t arbitrary: u rule: length_induct)
  case (1 t)
  show ?case
  proof (cases "CHR ''/'' \<in> set t")
    case False
    with 1(2) show ?thesis by (simp add: split_byte_none unescape_segment_def)
  next
    case True
    then obtain xs ys where t: "t = xs @ CHR ''/'' # ys" and xs: "CHR ''/'' \<notin> set xs" by (meson split_list_first)
    from path_unescape_slash [OF 1(2) [unfolded t]] obtain a b
      where u: "path_unescape xs = Some a" "path_unescape ys = Some b" "u = a @ CHR ''/'' # b" by blast
    with 1(1) t have "b = join_slash (map unescape_segment (split_byte (CHR ''/'') ys))" by auto
    moreover have "unescape_segment xs = a" using u(1) by (simp add: unescape_segment_def)
    ultimately show ?thesis using u(3) by (simp add: t split_byte_first [OF xs] join_slash_Cons)
  qed
qed

text \<open>
  What the library guarantees of a request's URL: the escaped path is an encoding of the path, and the path of a request
  to a server is rooted or empty.
\<close>

definition url_ok :: "('m, 's) front_env \<Rightarrow> http_request \<Rightarrow> bool" where
  "url_ok env r \<longleftrightarrow> path_unescape (fe_escaped env) = Some (rq_Path r) \<and> (fe_escaped env = [] \<or> hd (fe_escaped env) = CHR ''/'')"

lemma url_ok_segments:
  assumes "url_ok env r" and "fe_escaped env \<noteq> []"
  shows "rq_Path r = CHR ''/'' # join_slash (path_segments (fe_escaped env))"
proof -
  from assms obtain t where e: "fe_escaped env = CHR ''/'' # t" by (cases "fe_escaped env") (auto simp: url_ok_def)
  with assms(1) obtain u where "path_unescape t = Some u" "rq_Path r = CHR ''/'' # u" by (auto simp: url_ok_def)
  with path_unescape_join show ?thesis by (simp add: path_segments_def e)
qed

lemma mux_route_handler:
  assumes "mux_route admin meth upath escaped = MuxHandler h"
  shows "\<exists>p. (p, h) \<in> set (mux_patterns admin) \<and> pattern_matches (path_segments escaped) p"
proof -
  have "\<exists>p. find (\<lambda>(p, _). pattern_matches (path_segments escaped) p) (mux_patterns admin) = Some (p, h)"
    using assms by (auto simp: mux_route_def Let_def split: if_splits option.splits)
  then show ?thesis by (fastforce simp: find_Some_iff dest: nth_mem)
qed

lemma pattern_below:
  assumes "pattern_matches segs (p, True)" and "p \<noteq> []"
  shows "\<exists>rest. join_slash segs = join_slash p @ CHR ''/'' # rest"
proof -
  from assms obtain q where q: "segs = p @ q" "q \<noteq> []"
    by (metis append_take_drop_id drop_eq_Nil fst_conv leD pattern_matches_def snd_conv)
  have "p \<noteq> [] \<Longrightarrow> join_slash (p @ q) = join_slash p @ CHR ''/'' # join_slash q" for p
    using q(2)
  proof (induction p)
    case (Cons x p)
    then show ?case by (cases "p = []") (simp_all add: join_slash_Cons)
  qed simp
  with assms(2) q show ?thesis by blast
qed

text \<open>Which paths reach which handler.\<close>

lemma routed_path:
  assumes "mux_route admin meth upath (fe_escaped env) = MuxHandler h" and "url_ok env r"
  shows "case h of HMCP \<Rightarrow> rq_Path r = ''/mcp'' \<or> has_prefix (rq_Path r) ''/mcp/''
    | HHealthz \<Rightarrow> rq_Path r = ''/healthz'' | HReadyz \<Rightarrow> rq_Path r = ''/readyz'' | HStatus \<Rightarrow> rq_Path r = ''/api/v1/status''
    | HAdmin \<Rightarrow> admin \<and> is_admin_path (rq_Path r)"
proof -
  let ?segs = "path_segments (fe_escaped env)"
  obtain p where p: "(p, h) \<in> set (mux_patterns admin)" and m: "pattern_matches ?segs p"
    using mux_route_handler [OF assms(1)] by blast
  have ne: "fe_escaped env \<noteq> []"
  proof
    assume "fe_escaped env = []"
    then have "?segs = [[]]" by (simp add: path_segments_def unescape_segment_def)
    with p m show False by (auto simp: mux_patterns_def pattern_matches_def split: if_splits)
  qed
  note path = url_ok_segments [OF assms(2) ne]
  obtain ps sub where pp: "p = (ps, sub)" by fastforce
  show ?thesis
  proof (cases sub)
    case True
    then obtain rest where "join_slash ?segs = join_slash ps @ CHR ''/'' # rest"
      using pattern_below m pp p by (fastforce simp: mux_patterns_def split: if_splits)
    with path p pp True show ?thesis by (auto simp: mux_patterns_def is_admin_path_def has_prefix_iff split: if_splits)
  next
    case False
    with m pp have "?segs = ps" by (simp add: pattern_matches_def)
    with path p pp False show ?thesis by (auto simp: mux_patterns_def is_admin_path_def split: if_splits)
  qed
qed

section \<open>Authorization\<close>

lemma authorizedBearer_iff:
  "authorizedBearer env s m r \<longleftrightarrow>
     (if front_tokens env s m = [] then \<not> hs_publicMode s
      else \<exists>t \<in> set (front_tokens env s m). header_get r ''Authorization'' = ''Bearer '' @ t)"
proof -
  have f: "fold (\<lambda>token matched. matched \<or> c = token) ts b \<longleftrightarrow> b \<or> c \<in> set ts" for c :: string and ts b
    by (induction ts arbitrary: b) auto
  have pre: "has_prefix a p \<and> trim_prefix a p \<in> T \<longleftrightarrow> (\<exists>t \<in> T. a = p @ t)" for a p T
    by (auto simp: trim_prefix_def has_prefix_iff)
  show ?thesis by (simp add: authorizedBearer_def Let_def f pre [symmetric] del: append.simps)
qed

lemma middleware_passes:
  assumes "wrapSecurityMiddleware env s m r = Inr r'"
  shows "r' = r\<lparr>rq_Body := map_option (max_bytes_reader (nat (hs_maxBodySize s))) (rq_Body r)\<rparr>"
    "hs_publicMode s \<Longrightarrow> isHTTPSRequest env s r" "isAllowedHost (fe_lib env) s (rq_Host r)"
    "\<not> is_admin_path (rq_Path r) \<Longrightarrow> \<not> mhas (rq_Header r) ''Origin'' \<and> (rq_Path r \<noteq> ''/healthz'' \<longrightarrow> authorizedBearer env s m r)"
  using assms by (auto simp: wrapSecurityMiddleware_def Let_def split: if_splits)

lemma front_handled:
  assumes "front_ServeHTTP env s r w = (a, w')" and "w' \<noteq> w \<or> (\<exists>rp. a = AnsSDK rp) \<or> (\<exists>st. a = AnsStatus st)"
  obtains h r' where "wrapSecurityMiddleware env s (aw_mgr (fw_admin w)) r = Inr r'"
    "mux_route (hs_adminHandler s) (rq_Method r) (rq_Path r) (fe_escaped env) = MuxHandler h"
    "h = HMCP \<and> handleMCP env s r' (fw_sdk w) = (a, fw_sdk w') \<and> fw_admin w' = fw_admin w \<or> h = HStatus \<and> w' = w \<or>
     h = HAdmin \<and> fw_sdk w' = fw_sdk w \<and>
       (\<exists>rp. a = AnsAdmin rp \<and> admin_ServeHTTP (fe_admin env) r' (fw_admin w) = (rp, fw_admin w'))"
proof -
  let ?m = "aw_mgr (fw_admin w)"
  obtain r' where r': "wrapSecurityMiddleware env s ?m r = Inr r'"
    using assms by (cases "wrapSecurityMiddleware env s ?m r")
      (auto simp: front_ServeHTTP_def wrapSecurityMiddleware_def Let_def split: if_splits)
  note same = middleware_passes(1) [OF r']
  obtain h where h: "mux_route (hs_adminHandler s) (rq_Method r) (rq_Path r) (fe_escaped env) = MuxHandler h"
    using assms r' same by (cases "mux_route (hs_adminHandler s) (rq_Method r) (rq_Path r) (fe_escaped env)")
      (auto simp: front_ServeHTTP_def)
  show ?thesis
    by (rule that [OF r' h], cases h)
      (use assms r' h same in \<open>auto simp: front_ServeHTTP_def handleHealthz_def handleReadyz_def Let_def split: prod.splits if_splits\<close>)
qed

lemma access_guarded:
  assumes "front_ServeHTTP env s r w = (a, w')" and "url_ok env r"
    and "fw_sdk w' \<noteq> fw_sdk w \<or> (\<exists>rp. a = AnsSDK rp) \<or> (\<exists>st. a = AnsStatus st)"
  shows "(hs_publicMode s \<or> front_tokens env s (aw_mgr (fw_admin w)) \<noteq> [] \<longrightarrow>
      (\<exists>t \<in> set (front_tokens env s (aw_mgr (fw_admin w))). header_get r ''Authorization'' = ''Bearer '' @ t)) \<and>
    (hs_publicMode s \<longrightarrow> isHTTPSRequest env s r) \<and> \<not> mhas (rq_Header r) ''Origin'' \<and> isAllowedHost (fe_lib env) s (rq_Host r)"
proof -
  have "w' \<noteq> w \<or> (\<exists>rp. a = AnsSDK rp) \<or> (\<exists>st. a = AnsStatus st)" using assms(3) by auto
  with assms(1) obtain h r' where r': "wrapSecurityMiddleware env s (aw_mgr (fw_admin w)) r = Inr r'"
      and h: "mux_route (hs_adminHandler s) (rq_Method r) (rq_Path r) (fe_escaped env) = MuxHandler h"
      and "h = HMCP \<or> h = HStatus"
  proof (rule front_handled)
    fix h r'
    assume *: "wrapSecurityMiddleware env s (aw_mgr (fw_admin w)) r = Inr r'"
      "mux_route (hs_adminHandler s) (rq_Method r) (rq_Path r) (fe_escaped env) = MuxHandler h"
      "h = HMCP \<and> handleMCP env s r' (fw_sdk w) = (a, fw_sdk w') \<and> fw_admin w' = fw_admin w \<or> h = HStatus \<and> w' = w \<or>
       h = HAdmin \<and> fw_sdk w' = fw_sdk w \<and>
         (\<exists>rp. a = AnsAdmin rp \<and> admin_ServeHTTP (fe_admin env) r' (fw_admin w) = (rp, fw_admin w'))"
    have "h = HMCP \<or> h = HStatus" using *(3) assms(3) by auto
    with that *(1,2) show thesis by blast
  qed
  with routed_path [OF h assms(2)] have "\<not> is_admin_path (rq_Path r) \<and> rq_Path r \<noteq> ''/healthz''"
    by (auto simp: is_admin_path_def has_prefix_iff)
  with middleware_passes [OF r'] show ?thesis by (auto simp: authorizedBearer_iff split: if_splits)
qed

lemma sdk_access_token:
  assumes "front_ServeHTTP env s r w = (a, w')" and "url_ok env r" and "fw_sdk w' \<noteq> fw_sdk w" and "hs_publicMode s"
  shows "\<exists>t \<in> set (front_tokens env s (aw_mgr (fw_admin w))). header_get r ''Authorization'' = ''Bearer '' @ t"
  using access_guarded [OF assms(1,2)] assms(3,4) by blast

text \<open>
  C28. Nobody gets to the MCP endpoint or to the status page around the checks: a request that reaches the SDK or is shown
  the status carries one of the access tokens in force whenever there are any, carries one for certain in public mode,
  has no browser origin, names an allowed host, and in public mode came over HTTPS. No spelling of its path helps.
\<close>

theorem mcp_access_guarded:
  assumes "front_ServeHTTP env s r w = (a, w')" and "url_ok env r"
    and "fw_sdk w' \<noteq> fw_sdk w \<or> (\<exists>rp. a = AnsSDK rp) \<or> (\<exists>st. a = AnsStatus st)"
  shows "(hs_publicMode s \<or> front_tokens env s (aw_mgr (fw_admin w)) \<noteq> [] \<longrightarrow>
      (\<exists>t \<in> set (front_tokens env s (aw_mgr (fw_admin w))). header_get r ''Authorization'' = ''Bearer '' @ t)) \<and>
    (hs_publicMode s \<longrightarrow> isHTTPSRequest env s r) \<and> \<not> mhas (rq_Header r) ''Origin'' \<and> isAllowedHost (fe_lib env) s (rq_Host r)"
  by (rule access_guarded [OF assms])

section \<open>The administrator's credential\<close>

text \<open>
  C30. The two credentials stay apart across the whole hub: with the controller behind the front, whatever files it has
  reloaded or polled since it was started, a request to a hub in public mode that reaches the SDK carries a token of the
  configuration in force, and this is never the administrator's.
\<close>

theorem admin_token_opens_no_session:
  assumes "ct_startup c = Some st" and "rc_AdminEnabled st" and "rc_AdminToken st \<noteq> []"
    and "rc_AdminToken st \<notin> set (ctl_BearerTokens c)"
    and "aw_mgr (fw_admin w) = fold (ctl_run_op cenv) ops c"
    and "fe_manager env = Some (controller_callback ready statuses calls)" and "fe_provider env = None"
    and "front_ServeHTTP env s r w = (a, w')" and "url_ok env r" and "hs_publicMode s" and "fw_sdk w' \<noteq> fw_sdk w"
  shows "(\<exists>t \<in> set (ctl_BearerTokens (fold (ctl_run_op cenv) ops c)). header_get r ''Authorization'' = ''Bearer '' @ t) \<and>
    header_get r ''Authorization'' \<noteq> ''Bearer '' @ rc_AdminToken st"
proof -
  have "front_tokens env s (aw_mgr (fw_admin w)) = ctl_BearerTokens (fold (ctl_run_op cenv) ops c)"
    using assms(5-7) by (simp add: front_tokens_def controller_callback_def)
  then have "\<exists>t \<in> set (ctl_BearerTokens (fold (ctl_run_op cenv) ops c)). header_get r ''Authorization'' = ''Bearer '' @ t"
    using sdk_access_token [OF assms(8,9,11,10)] by auto
  moreover have "rc_AdminToken st \<notin> set (ctl_BearerTokens (fold (ctl_run_op cenv) ops c))"
    by (rule admin_token_never_published [OF assms(1-4)])
  ultimately show ?thesis by auto
qed

section \<open>Changes through the front\<close>

text \<open>
  C29. Through the front as a whole, the configuration file and the running system change only for a request that names an
  allowed host, came over HTTPS in public mode, and proves itself to the administration API: the cookie of a session
  that is neither idle too long nor older than a day, that session's \<^verbatim>\<open>X-CSRF-Token\<close>, a JSON content type, and no origin
  but the console's.
\<close>

theorem changes_are_guarded:
  assumes "front_ServeHTTP env s r w = (a, w')" and "url_ok env r"
    and "wf_map (ah_sessions (aw_handler (fw_admin w)))"
    and "aw_disk (fw_admin w') \<noteq> aw_disk (fw_admin w) \<or> aw_mgr (fw_admin w') \<noteq> aw_mgr (fw_admin w)"
  shows "hs_adminHandler s \<and> isAllowedHost (fe_lib env) s (rq_Host r) \<and> (hs_publicMode s \<longrightarrow> isHTTPSRequest env s r) \<and>
    (\<exists>sid sess. mget (rq_Cookies r) (session_cookie (fe_admin env) (aw_handler (fw_admin w)) r) = Some sid \<and>
      mget (ah_sessions (aw_handler (fw_admin w))) sid = Some sess \<and>
      ae_now1 (fe_admin env) - as_lastSeen sess \<le> ao_SessionTimeout (ah_opts (aw_handler (fw_admin w))) \<and>
      ae_now1 (fe_admin env) - as_createdAt sess \<le> 24 * 60 * minute \<and>
      isMutation (rq_Method r) \<and> header_get r ''X-CSRF-Token'' = as_csrf sess \<and> json_media (fe_admin env) r \<and>
      validOrigin (fe_admin env) (aw_handler (fw_admin w)) r)"
proof -
  have "w' \<noteq> w \<or> (\<exists>rp. a = AnsSDK rp) \<or> (\<exists>st. a = AnsStatus st)" using assms(4) by auto
  with assms(1) show ?thesis
  proof (rule front_handled)
    fix h r'
    assume r': "wrapSecurityMiddleware env s (aw_mgr (fw_admin w)) r = Inr r'"
      and h: "mux_route (hs_adminHandler s) (rq_Method r) (rq_Path r) (fe_escaped env) = MuxHandler h"
      and "h = HMCP \<and> handleMCP env s r' (fw_sdk w) = (a, fw_sdk w') \<and> fw_admin w' = fw_admin w \<or> h = HStatus \<and> w' = w \<or>
       h = HAdmin \<and> fw_sdk w' = fw_sdk w \<and>
         (\<exists>rp. a = AnsAdmin rp \<and> admin_ServeHTTP (fe_admin env) r' (fw_admin w) = (rp, fw_admin w'))"
    then obtain rp where ad: "h = HAdmin" "admin_ServeHTTP (fe_admin env) r' (fw_admin w) = (rp, fw_admin w')"
      using assms(4) by auto
    note same = middleware_passes(1) [OF r']
    have eq: "session_cookie e hh r' = session_cookie e hh r" "header_get r' = header_get r" "json_media e r' = json_media e r"
      "validOrigin e hh r' = validOrigin e hh r" "rq_Cookies r' = rq_Cookies r" "rq_Method r' = rq_Method r" for e hh
      by (auto simp: same fun_eq_iff session_cookie_def isHTTPS_def header_get_def json_media_def validOrigin_def forwarded_https_def)
    from admin_changes_are_guarded [OF ad(2) assms(3,4), unfolded eq] middleware_passes(2,3) [OF r'] routed_path [OF h assms(2)] ad(1)
    show ?thesis by auto
  qed
qed

section \<open>Session capacity\<close>

text \<open>
  Requests to the MCP endpoint in progress: an initial POST takes \<^verbatim>\<open>initMu\<close>, counts, and holds the lock while the SDK serves
  it; all other requests, and the SDK's own expiry of idle sessions, happen at any time.
\<close>

inductive mcp_step :: "('m, 's) front_env \<Rightarrow> HTTPServer \<Rightarrow> 's \<times> http_request option \<Rightarrow> 's \<times> http_request option \<Rightarrow> bool" for env s where
  admit: "is_init_POST r \<Longrightarrow> \<not> mcp_refused r \<Longrightarrow> \<not> at_capacity env s k \<Longrightarrow> mcp_step env s (k, None) (k, Some r)"
| serve_init: "mcp_step env s (k, Some r) (snd (fe_sdk env (read_deadline now r) r k), None)"
| serve: "\<not> is_init_POST r \<Longrightarrow> mcp_step env s (k, l) (snd (fe_sdk env (read_deadline now r) r k), l)"
| expire: "fe_sessions env k' \<le> fe_sessions env k \<Longrightarrow> mcp_step env s (k, l) (k', l)"

inductive mcp_reachable :: "('m, 's) front_env \<Rightarrow> HTTPServer \<Rightarrow> 's \<times> http_request option \<Rightarrow> bool" for env s where
  init: "fe_sessions env k = 0 \<Longrightarrow> mcp_reachable env s (k, None)"
| step: "mcp_reachable env s x \<Longrightarrow> mcp_step env s x y \<Longrightarrow> mcp_reachable env s y"

text \<open>What the SDK documents: only an initial POST opens a session, and it opens one.\<close>

definition sdk_sessions_law :: "('m, 's) front_env \<Rightarrow> bool" where
  "sdk_sessions_law env \<longleftrightarrow>
     (\<forall>dl r k. fe_sessions env (snd (fe_sdk env dl r k)) \<le> fe_sessions env k + (if is_init_POST r then 1 else 0))"

text \<open>A request handled in one piece is a run of these steps, or leaves the SDK alone.\<close>

lemma handleMCP_steps:
  assumes "handleMCP env s r k = (a, k')"
  shows "k' = k \<or> mcp_step env s (k, None) (k', None) \<or> mcp_step env s (k, None) (k, Some r) \<and> mcp_step env s (k, Some r) (k', None)"
proof (cases "mcp_refused r \<or> is_init_POST r \<and> at_capacity env s k")
  case True
  with assms show ?thesis by (auto simp: handleMCP_def split: if_splits)
next
  case False
  with assms have "k' = snd (fe_sdk env (read_deadline (fe_now env) r) r k)"
    by (auto simp: handleMCP_def split: if_splits prod.splits)
  with False show ?thesis by (metis mcp_step.admit mcp_step.serve mcp_step.serve_init)
qed

lemma mcp_bound:
  assumes "mcp_reachable env s x" and "sdk_sessions_law env" and "0 < hs_maxSessions s"
  shows "int (fe_sessions env (fst x)) + (if snd x = None then 0 else 1) \<le> hs_maxSessions s \<and>
    (\<forall>r. snd x = Some r \<longrightarrow> is_init_POST r)"
  using assms(1)
proof induction
  case (init k)
  with assms(3) show ?case by simp
next
  case (step x y)
  note law = assms(2) [unfolded sdk_sessions_law_def, rule_format]
  from step(2) show ?case
  proof cases
    case (admit r k)
    then show ?thesis by (simp add: at_capacity_def)
  next
    case (serve_init k r now)
    with step.IH law [of "read_deadline now r" r k] show ?thesis by auto
  next
    case (serve r k l now)
    with step.IH law [of "read_deadline now r" r k] show ?thesis by auto
  next
    case (expire k' k l)
    with step.IH show ?thesis by auto
  qed
qed

lemma NewHTTPServer_limits:
  assumes "NewHTTPServer v now parseCIDR laddr hasPub opts = Inr s"
  shows "0 < hs_maxSessions s \<and> hs_maxSessions s \<le> 32 \<and> 0 < hs_maxBodySize s \<and> hs_maxBodySize s \<le> 8 * 1024 * 1024"
proof -
  have "positive_or d v > 0" if "d > 0" for d v using that by (simp add: positive_or_def)
  then have "positive_or MaxHTTPSessions v > 0" "positive_or MaxBodySize v > 0" for v
    by (simp_all add: MaxHTTPSessions_def MaxBodySize_def)
  then show ?thesis using assms
    by (cases opts) (auto simp: NewHTTPServer_def Let_def MaxHTTPSessions_def MaxBodySize_def split: option.splits if_splits sum.splits)
qed

text \<open>
  C32. However requests arrive and overlap, a server built with any options never has more than 32 MCP sessions open, and
  never more than its own limit.
\<close>

theorem mcp_sessions_bounded:
  assumes "NewHTTPServer v now parseCIDR laddr hasPub opts = Inr s" and "sdk_sessions_law env" and "mcp_reachable env s (k, l)"
  shows "int (fe_sessions env k) \<le> hs_maxSessions s \<and> fe_sessions env k \<le> 32"
  using mcp_bound [OF assms(3,2)] NewHTTPServer_limits [OF assms(1)] by (auto split: if_splits)

section \<open>Agreement with the other parts\<close>

lemma front_isLoopbackHost_eq: "front_isLoopbackHost lib = isLoopbackHost lib"
  by (auto simp: fun_eq_iff front_isLoopbackHost_def isLoopbackHost_def Let_def split: option.splits)

lemma NewHTTPServer_Some:
  assumes "NewHTTPServer v now parseCIDR laddr hasPub (Some opts) = Inr s"
  shows "try_map (\<lambda>raw. case parseCIDR raw of None \<Rightarrow> Inl (FrontProxyCIDR raw) | Some n \<Rightarrow> Inr n) (ho_TrustedProxies opts) =
      Inr (hs_trustedProxies s)"
    "hs_publicMode s = ho_PublicMode opts" "hs_adminHandler s = ho_AdminHandler opts"
    "\<exists>addr. laddr = Some addr \<and> SplitHostPort addr = Some (hs_boundHost s, hs_boundPort s)"
  using assms by (auto simp: NewHTTPServer_def Let_def split: option.splits if_splits sum.splits)

lemma try_map_option:
  "try_map (\<lambda>x. case f x of None \<Rightarrow> Inl (e x) | Some y \<Rightarrow> Inr y) xs = Inr ys \<longleftrightarrow> map f xs = map Some ys"
proof (induction xs arbitrary: ys)
  case (Cons x xs)
  show ?case using Cons.IH [of "tl ys"] by (cases ys) (auto split: option.splits sum.splits)
qed auto

text \<open>
  The front and the administration API, set up from one configuration, never disagree on whether a request came over
  HTTPS: the two separately written checks are the same function.
\<close>

theorem https_checks_agree:
  assumes "NewHTTPServer v now parseCIDR laddr hasPub (Some (serve_http_options v resolved)) = Inr s"
    and "admin_New lib parseCIDR (serve_admin_options path resolved) = Inr h"
    and "fe_ParseIP env = ae_ParseIP aenv"
  shows "isHTTPSRequest env s r = isHTTPS aenv h r"
proof -
  have "ah_trusted h = hs_trustedProxies s"
  proof -
    have "map parseCIDR (rc_TrustedProxies resolved) = map Some (hs_trustedProxies s)"
      using NewHTTPServer_Some(1) [OF assms(1)] by (simp add: serve_http_options_def try_map_option)
    moreover have "map parseCIDR (rc_TrustedProxies resolved) = map Some (ah_trusted h)"
      using assms(2) by (auto simp: admin_New_def serve_admin_options_def Let_def try_map_option split: if_splits sum.splits option.splits)
    ultimately show ?thesis by (metis inj_Some list.inj_map_strong option.inject)
  qed
  with assms(3) show ?thesis
    by (auto simp: isHTTPSRequest_def isHTTPS_def isTrusted_def remoteIP_def forwarded_https_def Let_def split: option.splits)
qed

text \<open>
  C31. A hub that a resolved configuration lets listen beyond the loopback interface serves no anonymous MCP request: its
  configuration is in public mode, so whoever reaches the SDK carries a token and came over HTTPS, even after a reload
  that left no token at all.
\<close>

theorem remote_hub_not_anonymous:
  assumes "Resolve lib environ isWindows (Some cfg) configDir lookup = Inr resolved"
    and "SplitHostPort (rc_Listen resolved) = Some (host, port)" and "\<not> isLoopbackHost lib host"
    and "NewHTTPServer v now parseCIDR laddr hasPub (Some (serve_http_options v resolved)) = Inr s"
    and "front_ServeHTTP env s r w = (a, w')" and "url_ok env r" and "fw_sdk w' \<noteq> fw_sdk w"
  shows "isHTTPSRequest env s r \<and> isAllowedHost (fe_lib env) s (rq_Host r) \<and>
    (\<exists>t \<in> set (front_tokens env s (aw_mgr (fw_admin w))). header_get r ''Authorization'' = ''Bearer '' @ t)"
proof -
  from assms(1) have "validateListenAddress lib (rc_Listen resolved) (rc_PublicMode resolved) = None"
    by (auto elim!: Resolve_Inr Validate_None)
  with assms(2,3) have "rc_PublicMode resolved" by (auto elim!: validateListen_None)
  then have "hs_publicMode s" using NewHTTPServer_Some(2) [OF assms(4)] by (simp add: serve_http_options_def)
  then show ?thesis using access_guarded [OF assms(5,6)] assms(7) by auto
qed

text \<open>
  And nobody is turned away without a reason: a request to the MCP endpoint that carries a token in force, has no
  origin header, names an allowed host and, in public mode, came over HTTPS is handed to the endpoint with its body
  limited, and the answer is the endpoint's.
\<close>

theorem authorized_request_served:
  assumes "rq_Path r = ''/mcp''" and "fe_escaped env = ''/mcp''" and "hs_publicMode s \<longrightarrow> isHTTPSRequest env s r"
    and "\<not> mhas (rq_Header r) ''Origin''" and "isAllowedHost (fe_lib env) s (rq_Host r)"
    and "t \<in> set (front_tokens env s (aw_mgr (fw_admin w)))" and "header_get r ''Authorization'' = ''Bearer '' @ t"
    and "handleMCP env s (r\<lparr>rq_Body := map_option (max_bytes_reader (nat (hs_maxBodySize s))) (rq_Body r)\<rparr>) (fw_sdk w) = (a, k)"
  shows "front_ServeHTTP env s r w = (a, w\<lparr>fw_sdk := k\<rparr>)"
proof -
  have "front_tokens env s (aw_mgr (fw_admin w)) \<noteq> []" using assms(6) by auto
  then have "authorizedBearer env s (aw_mgr (fw_admin w)) r" using assms(6,7) unfolding authorizedBearer_iff by auto
  then have "wrapSecurityMiddleware env s (aw_mgr (fw_admin w)) r =
      Inr (r\<lparr>rq_Body := map_option (max_bytes_reader (nat (hs_maxBodySize s))) (rq_Body r)\<rparr>)"
    using assms(1,3-5) by (simp add: wrapSecurityMiddleware_def is_admin_path_def Let_def)
  moreover have "mux_route b meth ''/mcp'' ''/mcp'' = MuxHandler HMCP" for b meth
  proof -
    have "clean_path ''/mcp'' = ''/mcp''" "path_segments ''/mcp'' = [''mcp'']" by code_simp+
    then show ?thesis by (cases b) (auto simp: mux_route_def mux_patterns_def pattern_matches_def)
  qed
  ultimately show ?thesis using assms(1,2,8) by (simp add: front_ServeHTTP_def)
qed

section \<open>Witnesses\<close>

text \<open>A hub in public mode with administration, resolved from a configuration and set up as the program does.\<close>

definition public_lib :: go_lib where
  "public_lib = demo_lib\<lparr>lib_urlParse := (\<lambda>_. Some \<lparr>url_Scheme = ''https'', url_Host = ''hub'', url_Hostname = ''hub'', url_hasUser = False,
     url_Opaque = [], url_Path = [], url_RawPath = [], url_RawQuery = [], url_ForceQuery = False, url_Fragment = []\<rparr>)\<rparr>"

definition public_raw :: Config where
  "public_raw = demo_raw\<lparr>cfg_Hub := (cfg_Hub demo_raw)\<lparr>hub_Listen := ''10.0.0.1:8443'', hub_PublicMode := True, hub_PublicURL := ''https://hub'',
     hub_AllowedHosts := [''hub''], hub_Admin := \<lparr>adm_Enabled = True, adm_Token = replicate 32 (CHR ''a''), adm_SessionTimeout = []\<rparr>\<rparr>\<rparr>"

definition public_resolved :: ResolvedConfig where
  "public_resolved = projr (Resolve public_lib demo_environ False (Some public_raw) ''/etc'' demo_lookup)"

lemma public_resolves: "Resolve public_lib demo_environ False (Some public_raw) ''/etc'' demo_lookup = Inr public_resolved"
proof -
  have "\<not> isl (Resolve public_lib demo_environ False (Some public_raw) ''/etc'' demo_lookup)" by code_simp
  then show ?thesis by (simp add: public_resolved_def)
qed

definition demo_front :: HTTPServer where
  "demo_front = projr (NewHTTPServer ''1'' 0 (\<lambda>_. None) (Some ''10.0.0.1:8443'') True (Some (serve_http_options ''1'' public_resolved)))"

lemma demo_front_New:
  "NewHTTPServer ''1'' 0 (\<lambda>_. None) (Some ''10.0.0.1:8443'') True (Some (serve_http_options ''1'' public_resolved)) = Inr demo_front"
proof -
  have "\<not> isl (NewHTTPServer ''1'' 0 (\<lambda>_. None) (Some ''10.0.0.1:8443'') True (Some (serve_http_options ''1'' public_resolved)))" by code_simp
  then show ?thesis by (simp add: demo_front_def)
qed

definition public_controller :: "nat Controller" where
  "public_controller = NewController demo_ctl_env (Some 0) ''c'' ''10.0.0.1:8443'' (Some ''one'') (Some public_resolved)"

definition public_admin_env :: "nat Controller admin_env" where
  "public_admin_env =
     \<lparr>ae_ParseIP = ae_ParseIP demo_admin_env, ae_ParseCIDR = ae_ParseCIDR demo_admin_env,
      ae_ParseMediaType = ae_ParseMediaType demo_admin_env, ae_PathUnescape = ae_PathUnescape demo_admin_env,
      ae_static = (\<lambda>_. 200), ae_now1 = 10, ae_now2 = 11, ae_random1 = None, ae_random2 = None,
      ae_load = demo_load_env, ae_decodeToken = ae_decodeToken demo_admin_env, ae_decodeServer = ae_decodeServer demo_admin_env,
      ae_marshal = ae_marshal demo_admin_env, ae_hash = ae_hash demo_admin_env, ae_open = ae_open demo_admin_env, ae_between = (\<lambda>d. d),
      ae_write = demo_oracle ''t'', ae_rollback = demo_oracle ''t'', ae_preflight = None, ae_reload = None\<rparr>"

text \<open>An SDK that counts its sessions.\<close>

definition public_env :: "string \<Rightarrow> (nat Controller, nat) front_env" where
  "public_env escaped =
     \<lparr>fe_lib = public_lib, fe_ParseIP = (\<lambda>s. Some s), fe_escaped = escaped, fe_now = 0, fe_Revision = 1, fe_provider = None,
      fe_manager = Some (controller_callback (\<lambda>_. True) (\<lambda>_. []) (\<lambda>_. [])), fe_sessions = (\<lambda>k. k),
      fe_sdk = (\<lambda>_ r k. (writeJSON 200 PayOK, if is_init_POST r then k + 1 else k)), fe_admin = public_admin_env\<rparr>"

definition public_world :: "(nat Controller, nat) front_world" where
  "public_world =
     \<lparr>fw_admin = \<lparr>aw_handler = demo_handler\<lparr>ah_sessions := [(''sid'', demo_session)]\<rparr>,
        aw_disk = demo_disk\<lparr>dk_files := [(''c'', ''{}'')]\<rparr>, aw_mgr = public_controller\<rparr>,
      fw_sdk = 0\<rparr>"

definition public_open :: http_request where
  "public_open = \<lparr>rq_Method = ''POST'', rq_Path = ''/mcp'', rq_Host = ''Hub'', rq_RemoteAddr = ''1.2.3.4:5'', rq_TLS = True,
     rq_Header = [(''Authorization'', ''Bearer '' @ demo_token)], rq_Cookies = [], rq_Body = None\<rparr>"

definition public_delete :: http_request where
  "public_delete = demo_delete\<lparr>rq_Host := ''hub'', rq_TLS := True, rq_Cookies := [(cookieName, ''sid'')]\<rparr>"

lemma public_open_changes:
  "fw_sdk (snd (front_ServeHTTP (public_env ''/%6dcp'') demo_front public_open public_world)) \<noteq> fw_sdk public_world"
  by code_simp

lemma public_open_ok: "url_ok (public_env ''/%6dcp'') public_open" "hs_publicMode demo_front"
  by code_simp+

lemma public_env_simps:
  "fe_manager (public_env e) = Some (controller_callback (\<lambda>_. True) (\<lambda>_. []) (\<lambda>_. []))" "fe_provider (public_env e) = None"
  "fe_ParseIP (public_env e) = ae_ParseIP public_admin_env" "fe_sessions (public_env e) = (\<lambda>k. k)"
  by (simp_all add: public_env_def public_admin_env_def demo_admin_env_def)

theorem mcp_access_guarded_witness:
  "isAllowedHost public_lib demo_front ''Hub'' \<and> isHTTPSRequest (public_env ''/%6dcp'') demo_front public_open"
proof -
  obtain a w' where r: "front_ServeHTTP (public_env ''/%6dcp'') demo_front public_open public_world = (a, w')" by fastforce
  have "fw_sdk w' \<noteq> fw_sdk public_world" using public_open_changes r by simp
  then show ?thesis using mcp_access_guarded [OF r public_open_ok(1)] public_open_ok(2)
    by (auto simp: public_env_def public_open_def)
qed

theorem admin_token_opens_no_session_witness:
  "header_get public_open ''Authorization'' \<noteq> ''Bearer '' @ rc_AdminToken public_resolved"
proof -
  obtain a w' where r: "front_ServeHTTP (public_env ''/%6dcp'') demo_front public_open public_world = (a, w')" by fastforce
  have ch: "fw_sdk w' \<noteq> fw_sdk public_world" using public_open_changes r by simp
  have st: "ct_startup public_controller = Some public_resolved" by (simp add: public_controller_def NewController_def Let_def)
  have en: "rc_AdminEnabled public_resolved" "rc_AdminToken public_resolved \<noteq> []"
    "rc_AdminToken public_resolved \<notin> set (ctl_BearerTokens public_controller)"
    by code_simp+
  have "aw_mgr (fw_admin public_world) = fold (ctl_run_op demo_ctl_env) [] public_controller" by (simp add: public_world_def)
  from admin_token_opens_no_session [OF st en this public_env_simps(1,2) r public_open_ok(1,2) ch] show ?thesis by blast
qed

theorem changes_are_guarded_witness:
  "aw_disk (fw_admin (snd (front_ServeHTTP (public_env ''/api/admin/v1/servers/fs'') demo_front public_delete public_world))) \<noteq>
     aw_disk (fw_admin public_world) \<and> header_get public_delete ''X-CSRF-Token'' = as_csrf demo_session"
proof -
  obtain a w' where r: "front_ServeHTTP (public_env ''/api/admin/v1/servers/fs'') demo_front public_delete public_world = (a, w')" by fastforce
  have "dk_files (aw_disk (fw_admin (snd (front_ServeHTTP (public_env ''/api/admin/v1/servers/fs'') demo_front public_delete public_world)))) \<noteq>
      dk_files (aw_disk (fw_admin public_world))"
    by code_simp
  with r have ch: "aw_disk (fw_admin w') \<noteq> aw_disk (fw_admin public_world)" by auto
  have u: "url_ok (public_env ''/api/admin/v1/servers/fs'') public_delete" by code_simp
  have wf: "wf_map (ah_sessions (aw_handler (fw_admin public_world)))" by (simp add: public_world_def)
  from changes_are_guarded [OF r u wf disjI1 [OF ch]] obtain sid sess where
    "mget (ah_sessions (aw_handler (fw_admin public_world))) sid = Some sess" "header_get public_delete ''X-CSRF-Token'' = as_csrf sess"
    by blast
  with r ch show ?thesis by (auto simp: public_world_def split: if_splits)
qed

theorem mcp_sessions_bounded_witness:
  "mcp_reachable (public_env []) demo_front (1, None) \<and> (1::nat) \<le> 32"
proof -
  have law: "sdk_sessions_law (public_env [])" by (simp add: sdk_sessions_law_def public_env_def)
  have "is_init_POST public_open \<and> \<not> mcp_refused public_open \<and> \<not> at_capacity (public_env []) demo_front 0" by code_simp
  then have "mcp_step (public_env []) demo_front (0, None) (0, Some public_open)" by (intro mcp_step.admit) auto
  moreover have "mcp_reachable (public_env []) demo_front (0, None)" by (rule mcp_reachable.init) (simp add: public_env_simps)
  moreover have "mcp_step (public_env []) demo_front (0, Some public_open) (1, None)"
    using mcp_step.serve_init [of "public_env []" demo_front 0 public_open 0]
    by (simp add: public_env_def is_init_POST_def public_open_def header_get_def mget_or_def)
  ultimately have "mcp_reachable (public_env []) demo_front (1, None)" by (blast intro: mcp_reachable.step)
  with mcp_sessions_bounded [OF demo_front_New law this] show ?thesis by (simp add: public_env_simps)
qed

theorem https_checks_agree_witness:
  "isHTTPSRequest (public_env []) demo_front public_open =
   isHTTPS public_admin_env (projr (admin_New public_lib (\<lambda>_. None) (serve_admin_options ''c'' public_resolved))) public_open"
proof -
  have "\<not> isl (admin_New public_lib (\<lambda>_. None) (serve_admin_options ''c'' public_resolved))" by code_simp
  then have "admin_New public_lib (\<lambda>_. None) (serve_admin_options ''c'' public_resolved) =
      Inr (projr (admin_New public_lib (\<lambda>_. None) (serve_admin_options ''c'' public_resolved)))" by simp
  from https_checks_agree [OF demo_front_New this public_env_simps(3)] show ?thesis .
qed

theorem remote_hub_not_anonymous_witness:
  "isHTTPSRequest (public_env ''/%6dcp'') demo_front public_open \<and> \<not> isLoopbackHost public_lib ''10.0.0.1''"
proof -
  obtain a w' where r: "front_ServeHTTP (public_env ''/%6dcp'') demo_front public_open public_world = (a, w')" by fastforce
  have ch: "fw_sdk w' \<noteq> fw_sdk public_world" using public_open_changes r by simp
  have hp: "SplitHostPort (rc_Listen public_resolved) = Some (''10.0.0.1'', ''8443'')" "\<not> isLoopbackHost public_lib ''10.0.0.1''"
    by code_simp+
  from remote_hub_not_anonymous [OF public_resolves hp demo_front_New r public_open_ok(1) ch] hp(2) show ?thesis by blast
qed

theorem authorized_request_served_witness:
  "fw_sdk (snd (front_ServeHTTP (public_env ''/mcp'') demo_front public_open public_world)) = 1"
proof -
  obtain a k where h: "handleMCP (public_env ''/mcp'') demo_front
      (public_open\<lparr>rq_Body := map_option (max_bytes_reader (nat (hs_maxBodySize demo_front))) (rq_Body public_open)\<rparr>) (fw_sdk public_world) = (a, k)"
    by fastforce
  have "snd (handleMCP (public_env ''/mcp'') demo_front
      (public_open\<lparr>rq_Body := map_option (max_bytes_reader (nat (hs_maxBodySize demo_front))) (rq_Body public_open)\<rparr>) (fw_sdk public_world)) = 1"
    by code_simp
  with h have k: "k = 1" by simp
  have c: "rq_Path public_open = ''/mcp''" "fe_escaped (public_env ''/mcp'') = ''/mcp''"
    "isHTTPSRequest (public_env ''/mcp'') demo_front public_open" "\<not> mhas (rq_Header public_open) ''Origin''"
    "isAllowedHost (fe_lib (public_env ''/mcp'')) demo_front (rq_Host public_open)"
    "demo_token \<in> set (front_tokens (public_env ''/mcp'') demo_front (aw_mgr (fw_admin public_world)))"
    "header_get public_open ''Authorization'' = ''Bearer '' @ demo_token"
    by code_simp+
  from authorized_request_served [OF c(1,2) impI [OF c(3)] c(4-7) h] k show ?thesis by simp
qed

end
