(* ===== verification/Bridge.thy ===== *)
theory Bridge
  imports Publisher Discovery Config_Validate
begin

text \<open>
  The stdio bridge (\<^verbatim>\<open>internal/bridge/bridge.go\<close>, \<^verbatim>\<open>disconnect.go\<close>): a local MCP server that mirrors the tools of a hub and
  forwards calls to it, with the calls of a session (\<^verbatim>\<open>downstream/session.go\<close>) that it makes.

  The local SDK server is the registry interface of \<open>Publisher\<close>. The contents of the hub's list are given by its version:
  \<open>hub v\<close> is what a listing at version \<open>v\<close> returns. The goroutines of the bridge are a step relation: the watcher of change
  notifications, the local client's \<^verbatim>\<open>tools/list\<close> requests that find the table out of date, and the hub, with one step for each
  atomic access. The end of the bridge (cancellation, closing) is given by functions of its own.
\<close>

section \<open>Calls through a session\<close>

record CallToolParams =
  cp_Meta :: "(string, json) gomap"
  cp_Name :: string
  cp_Arguments :: string

text \<open>The keys of the SDK's identity metadata, and the results of the call of the raw session.\<close>

record call_lib =
  cl_ProtocolVersion :: string
  cl_ClientInfo :: string
  cl_ClientCapabilities :: string

definition cloneForwardableMeta :: "call_lib \<Rightarrow> (string, json) gomap \<Rightarrow> (string, json) gomap" where
  "cloneForwardableMeta cl meta =
     filter (\<lambda>(key, _). \<not> (key = cl_ProtocolVersion cl \<or> key = cl_ClientInfo cl \<or> key = cl_ClientCapabilities cl)) meta"

datatype bridge_error =
    ErrInvalidEndpoint string
  | BrInvalidRequest
  | ErrBridgeClosed
  | ErrHubSessionClosed
  | BrSessionClosed
  | BrCall string
  | BrConnect string
  | BrInitialTools discovery_error
  | BrHubTerminated string
  | BrContext string
  | BrServer string

definition CallToolWithParams ::
  "call_lib \<Rightarrow> (CallToolParams option \<Rightarrow> string + CallToolResult) \<Rightarrow> bool \<Rightarrow> CallToolParams option \<Rightarrow> bridge_error + CallToolResult" where
  "CallToolWithParams cl raw isClosed params =
     (if isClosed then Inl BrSessionClosed
      else case raw (map_option (\<lambda>p. p\<lparr>cp_Meta := cloneForwardableMeta cl (cp_Meta p)\<rparr>) params) of
             Inl e \<Rightarrow> Inl (BrCall e)
           | Inr res \<Rightarrow> Inr res)"

definition ses_CallTool ::
  "(CallToolParams option \<Rightarrow> string + CallToolResult) \<Rightarrow> bool \<Rightarrow> string \<Rightarrow> string \<Rightarrow> bridge_error + CallToolResult" where
  "ses_CallTool raw isClosed name args =
     (if isClosed then Inl BrSessionClosed
      else case raw (Some \<lparr>cp_Meta = [], cp_Name = name, cp_Arguments = args\<rparr>) of Inl e \<Rightarrow> Inl (BrCall e) | Inr res \<Rightarrow> Inr res)"

section \<open>Construction\<close>

definition bridge_DefaultStartupTimeout :: int where "bridge_DefaultStartupTimeout = 10 * second"

record bridge_options =
  bo_Endpoint :: string
  bo_Headers :: "(string, string) gomap"
  bo_StartupTimeout :: int
  bo_ClientInfo :: "(string \<times> string) option"
  bo_ServerInfo :: "(string \<times> string) option"

definition bridge_Validate :: "go_lib \<Rightarrow> bridge_options \<Rightarrow> bridge_error option" where
  "bridge_Validate lib opts =
     (if bo_Endpoint opts = [] then Some (ErrInvalidEndpoint [])
      else case lib_urlParse lib (bo_Endpoint opts) of
             None \<Rightarrow> Some (ErrInvalidEndpoint (bo_Endpoint opts))
           | Some u \<Rightarrow>
               if url_Scheme u \<noteq> ''http'' \<and> url_Scheme u \<noteq> ''https'' \<or> url_Host u = []
               then Some (ErrInvalidEndpoint (bo_Endpoint opts)) else None)"

record 'srv Bridge =
  br_opts :: bridge_options
  br_server :: 'srv
  br_currentTools :: "(string, tool) gomap"
  br_hubFailureErr :: "string option"
  br_closed :: bool
  br_listChanged :: bool
  br_changeSeq :: "64 word"
  br_syncedSeq :: "64 word"
  br_syncNeeded :: bool

text \<open>\<open>srv\<close> is the empty SDK server that \<^verbatim>\<open>RunWithOptions\<close> creates for the bridge.\<close>

definition bridge_New :: "go_lib \<Rightarrow> string \<Rightarrow> 'srv \<Rightarrow> bridge_options \<Rightarrow> bridge_error + 'srv Bridge" where
  "bridge_New lib version srv opts =
     (case bridge_Validate lib opts of
        Some e \<Rightarrow> Inl e
      | None \<Rightarrow>
          let info = (\<lambda>i. case i of None \<Rightarrow> Some (''mcp-manager-bridge'', version) | Some x \<Rightarrow> Some x);
              opts = opts\<lparr>bo_StartupTimeout := (if bo_StartupTimeout opts \<le> 0 then bridge_DefaultStartupTimeout else bo_StartupTimeout opts),
                          bo_ClientInfo := info (bo_ClientInfo opts), bo_ServerInfo := info (bo_ServerInfo opts)\<rparr>
          in Inr \<lparr>br_opts = opts, br_server = srv, br_currentTools = [], br_hubFailureErr = None, br_closed = False,
                  br_listChanged = False, br_changeSeq = 0, br_syncedSeq = 0, br_syncNeeded = False\<rparr>)"

definition RunAuthenticated_options :: "string \<Rightarrow> string \<Rightarrow> bridge_options" where
  "RunAuthenticated_options endpoint token =
     \<lparr>bo_Endpoint = endpoint, bo_Headers = (if token \<noteq> [] then [(''Authorization'', ''Bearer '' @ token)] else []),
      bo_StartupTimeout = 0, bo_ClientInfo = None, bo_ServerInfo = None\<rparr>"

section \<open>The mirrored table\<close>

definition with_schema :: "tool \<Rightarrow> tool" where
  "with_schema t =
     (if tool_InputSchema t = AnyNil then t\<lparr>tool_InputSchema := Marshals (JObj [(''type'', JStr ''object'')])\<rparr> else t)"

definition named_tools :: "tool option list \<Rightarrow> (string, tool) gomap" where
  "named_tools tools =
     fold (\<lambda>t m. case t of None \<Rightarrow> m | Some t \<Rightarrow> if tool_Name t = [] then m else mput (tool_Name t) (with_schema t) m) tools []"

definition same_encoding :: "(tool \<Rightarrow> string + string) \<Rightarrow> tool \<Rightarrow> tool \<Rightarrow> bool" where
  "same_encoding marshal old new \<longleftrightarrow> (\<exists>j. marshal old = Inr j \<and> marshal new = Inr j)"

lemma same_encoding_code [code]:
  "same_encoding marshal old new = (case (marshal old, marshal new) of (Inr a, Inr b) \<Rightarrow> a = b | _ \<Rightarrow> False)"
  by (auto simp: same_encoding_def split: sum.splits)

definition add_or_update ::
  "(tool \<Rightarrow> string + string) \<Rightarrow> 'srv sdk_ops \<Rightarrow> string \<times> tool \<Rightarrow> 'srv Bridge \<Rightarrow> 'srv Bridge" where
  "add_or_update marshal ops e b =
     (let (name, t) = e
      in if (case mget (br_currentTools b) name of None \<Rightarrow> False | Some old \<Rightarrow> same_encoding marshal old t) then b
         else b\<lparr>br_server := sdk_AddTool ops t (br_server b), br_currentTools := mput name t (br_currentTools b)\<rparr>)"

definition updateRegisteredTools ::
  "(tool \<Rightarrow> string + string) \<Rightarrow> 'srv sdk_ops \<Rightarrow> tool option list \<Rightarrow> 'srv Bridge \<Rightarrow> 'srv Bridge" where
  "updateRegisteredTools marshal ops tools b =
     (let newTools = named_tools tools;
          toRemove = filter (\<lambda>old. \<not> mhas newTools old) (mkeys (br_currentTools b));
          b = (if length toRemove > 0
               then b\<lparr>br_server := sdk_RemoveTools ops toRemove (br_server b),
                      br_currentTools := filter (\<lambda>(name, _). name \<notin> set toRemove) (br_currentTools b)\<rparr>
               else b)
      in fold (add_or_update marshal ops) newTools b)"

section \<open>Running\<close>

text \<open>Up to the point where the local client is served: \<open>dial\<close> and \<open>listed\<close> are the results of the connection and of the first listing.\<close>

definition bridge_start ::
  "go_lib \<Rightarrow> string \<Rightarrow> (tool \<Rightarrow> string + string) \<Rightarrow> 'srv sdk_ops \<Rightarrow> 'srv \<Rightarrow> string option \<Rightarrow> discovery_error + tool list \<Rightarrow>
   bridge_options \<Rightarrow> bridge_error + 'srv Bridge" where
  "bridge_start lib version marshal ops srv dial listed opts =
     (case bridge_New lib version srv opts of
        Inl e \<Rightarrow> Inl e
      | Inr b \<Rightarrow>
          (case dial of
             Some e \<Rightarrow> Inl (BrConnect e)
           | None \<Rightarrow>
               (case listed of
                  Inl e \<Rightarrow> Inl (BrInitialTools e)
                | Inr tools \<Rightarrow>
                    let b = (updateRegisteredTools marshal ops (map Some tools) b)\<lparr>br_listChanged := True\<rparr>
                    in Inr (b\<lparr>br_syncedSeq := br_changeSeq b\<rparr>))))"

definition monitorHubSession :: "string option \<Rightarrow> bool \<Rightarrow> 'srv Bridge \<Rightarrow> 'srv Bridge" where
  "monitorHubSession waitErr ctxDone b =
     (if \<not> br_closed b \<and> \<not> ctxDone
      then b\<lparr>br_hubFailureErr := Some (case waitErr of None \<Rightarrow> ''hub session is closed'' | Some e \<Rightarrow> e)\<rparr>
      else b)"

datatype server_error_kind = SrvEOF | SrvClosedPipe | SrvCanceled | SrvOther

text \<open>An error of the SDK server: which of the known errors it wraps, and its text.\<close>

definition isNormalLocalDisconnect :: "(server_error_kind \<times> string) option \<Rightarrow> bool" where
  "isNormalLocalDisconnect err =
     (case err of
        None \<Rightarrow> True
      | Some (kind, msg) \<Rightarrow>
          if kind \<noteq> SrvOther then True else has_prefix msg ''server is closing:'' \<and> has_suffix msg '': EOF'')"

definition bridge_result :: "'srv Bridge \<Rightarrow> string option \<Rightarrow> (server_error_kind \<times> string) option \<Rightarrow> bridge_error option" where
  "bridge_result b ctxErr serverErr =
     (case br_hubFailureErr b of
        Some failure \<Rightarrow> Some (BrHubTerminated failure)
      | None \<Rightarrow>
          (case ctxErr of
             Some e \<Rightarrow> Some (BrContext e)
           | None \<Rightarrow> if isNormalLocalDisconnect serverErr then None else map_option (\<lambda>(_, msg). BrServer msg) serverErr))"

text \<open>A call of the local client: \<open>hubClosed\<close> is whether the hub's session is closed; a request or its parameters may be nil.\<close>

definition bridge_dispatchTool ::
  "call_lib \<Rightarrow> (CallToolParams option \<Rightarrow> string + CallToolResult) \<Rightarrow> bool \<Rightarrow> 'srv Bridge \<Rightarrow> CallToolParams option \<Rightarrow>
   bridge_error + CallToolResult" where
  "bridge_dispatchTool cl raw hubClosed b req =
     (case req of
        None \<Rightarrow> Inl BrInvalidRequest
      | Some p \<Rightarrow>
          if br_closed b then Inl ErrBridgeClosed
          else if br_hubFailureErr b \<noteq> None then Inl ErrHubSessionClosed
          else if hubClosed then Inl ErrHubSessionClosed
          else CallToolWithParams cl raw hubClosed (Some p))"

section \<open>The goroutines\<close>

datatype sync_owner = SyncWatcher | SyncClient

text \<open>Where the holder of \<^verbatim>\<open>syncMu\<close> stands in \<^verbatim>\<open>syncTools\<close>.\<close>

datatype sync_pc =
    SyncFree
  | SyncLocked sync_owner
  | SyncListed sync_owner nat
  | SyncRegistered sync_owner
  | SyncMarked sync_owner

datatype watcher_pc = WIdle | WBurst | WSleep | WSync

text \<open>
  \<open>by_hub\<close> is the version of the hub's list, \<open>by_wire\<close> whether a notification is on its way, \<open>by_change\<close> how many wait in the
  session's channel, which holds sixteen. \<open>by_local\<close>, the version last registered, and \<open>by_failed\<close>, whether a listing of the watcher failed, are there for
  the proofs.
\<close>

record 'srv bridge_sys =
  by_bridge :: "'srv Bridge"
  by_hub :: nat
  by_wire :: bool
  by_change :: nat
  by_watcher :: watcher_pc
  by_sync :: sync_pc
  by_local :: nat
  by_failed :: bool

definition out_of_date :: "'srv Bridge \<Rightarrow> bool" where
  "out_of_date b \<longleftrightarrow> br_syncNeeded b \<or> br_changeSeq b \<noteq> br_syncedSeq b"

definition note_change :: "'srv Bridge \<Rightarrow> 'srv Bridge" where
  "note_change b = b\<lparr>br_changeSeq := br_changeSeq b + 1, br_syncNeeded := True\<rparr>"

text \<open>The watcher goes back to its loop when a synchronization of its own ends.\<close>

definition sync_done :: "sync_owner \<Rightarrow> 'srv bridge_sys \<Rightarrow> 'srv bridge_sys" where
  "sync_done who s = s\<lparr>by_sync := SyncFree, by_watcher := (if who = SyncWatcher then WIdle else by_watcher s)\<rparr>"

inductive bridge_step ::
  "(tool \<Rightarrow> string + string) \<Rightarrow> 'srv sdk_ops \<Rightarrow> (nat \<Rightarrow> tool list) \<Rightarrow> 'srv bridge_sys \<Rightarrow> 'srv bridge_sys \<Rightarrow> bool" for marshal ops hub where
  hub_change: "bridge_step marshal ops hub s (s\<lparr>by_hub := by_hub s + 1, by_wire := True\<rparr>)"
| deliver: "by_wire s \<Longrightarrow> bridge_step marshal ops hub s (s\<lparr>by_wire := False, by_change := (if by_change s < 16 then by_change s + 1 else by_change s)\<rparr>)"
| watch_take: "by_watcher s = WIdle \<or> by_watcher s = WBurst \<Longrightarrow> by_change s > 0 \<Longrightarrow>
    bridge_step marshal ops hub s (s\<lparr>by_change := by_change s - 1, by_watcher := WBurst, by_bridge := note_change (by_bridge s)\<rparr>)"
| watch_drained: "by_watcher s = WBurst \<Longrightarrow> by_change s = 0 \<Longrightarrow> bridge_step marshal ops hub s (s\<lparr>by_watcher := WSleep\<rparr>)"
| watch_wake: "by_watcher s = WSleep \<Longrightarrow> bridge_step marshal ops hub s (s\<lparr>by_watcher := WSync\<rparr>)"
| watch_sync: "by_watcher s = WSync \<Longrightarrow> by_sync s = SyncFree \<Longrightarrow> bridge_step marshal ops hub s (s\<lparr>by_sync := SyncLocked SyncWatcher\<rparr>)"
| client_sync: "out_of_date (by_bridge s) \<Longrightarrow> by_sync s = SyncFree \<Longrightarrow>
    bridge_step marshal ops hub s (s\<lparr>by_sync := SyncLocked SyncClient\<rparr>)"
| sync_list: "by_sync s = SyncLocked who \<Longrightarrow> bridge_step marshal ops hub s (s\<lparr>by_sync := SyncListed who (by_hub s)\<rparr>)"
| sync_fail: "by_sync s = SyncLocked who \<Longrightarrow>
    bridge_step marshal ops hub s ((sync_done who s)\<lparr>by_failed := by_failed s \<or> who = SyncWatcher\<rparr>)"
| sync_register: "by_sync s = SyncListed who v \<Longrightarrow>
    bridge_step marshal ops hub s
      (s\<lparr>by_sync := SyncRegistered who, by_local := v,
         by_bridge := updateRegisteredTools marshal ops (map Some (hub v)) (by_bridge s)\<rparr>)"
| sync_mark: "by_sync s = SyncRegistered who \<Longrightarrow>
    bridge_step marshal ops hub s
      (s\<lparr>by_sync := SyncMarked who, by_bridge := (by_bridge s)\<lparr>br_syncedSeq := br_changeSeq (by_bridge s)\<rparr>\<rparr>)"
| sync_clear: "by_sync s = SyncMarked who \<Longrightarrow>
    bridge_step marshal ops hub s ((sync_done who s)\<lparr>by_bridge := (by_bridge s)\<lparr>br_syncNeeded := False\<rparr>\<rparr>)"

text \<open>A bridge that was started with the list of version 0 and now serves its client.\<close>

inductive bridge_reachable ::
  "(tool \<Rightarrow> string + string) \<Rightarrow> 'srv sdk_ops \<Rightarrow> (nat \<Rightarrow> tool list) \<Rightarrow> 'srv bridge_sys \<Rightarrow> bool" for marshal ops hub where
  init: "bridge_start lib version marshal ops srv None (Inr (hub 0)) opts = Inr b \<Longrightarrow> sdk_tools ops srv = Map.empty \<Longrightarrow>
    bridge_reachable marshal ops hub
      \<lparr>by_bridge = b, by_hub = 0, by_wire = False, by_change = 0, by_watcher = WIdle, by_sync = SyncFree, by_local = 0, by_failed = False\<rparr>"
| step: "bridge_reachable marshal ops hub s \<Longrightarrow> bridge_step marshal ops hub s s' \<Longrightarrow> bridge_reachable marshal ops hub s'"

section \<open>The table mirrors the list\<close>

text \<open>The local registry is the bridge's own table.\<close>

definition mirrored :: "'srv sdk_ops \<Rightarrow> 'srv Bridge \<Rightarrow> bool" where
  "mirrored ops b \<longleftrightarrow> sdk_tools ops (br_server b) = mget (br_currentTools b)"

lemma named_tools_step:
  assumes "wf_map m" and "\<forall>(n, t) \<in> set m. tool_Name t = n"
  shows "let m' = fold (\<lambda>t m. case t of None \<Rightarrow> m | Some t \<Rightarrow> if tool_Name t = [] then m else mput (tool_Name t) (with_schema t) m) tools m
    in wf_map m' \<and> (\<forall>(n, t) \<in> set m'. tool_Name t = n)"
  using assms
proof (induction tools arbitrary: m)
  case (Cons t tools)
  show ?case
  proof (cases t)
    case None
    with Cons show ?thesis by simp
  next
    case (Some u)
    have "tool_Name (with_schema u) = tool_Name u" by (simp add: with_schema_def)
    then have "\<forall>(n, t) \<in> set (mput (tool_Name u) (with_schema u) m). tool_Name t = n"
      using Cons.prems by (auto simp: in_mput_iff)
    with Some Cons show ?thesis by (cases "tool_Name u = []") (simp_all add: Cons.IH)
  qed
qed simp

lemma named_tools_wf: "wf_map (named_tools tools)" "(n, t) \<in> set (named_tools tools) \<Longrightarrow> tool_Name t = n"
  using named_tools_step [of "[]" tools] by (auto simp: named_tools_def Let_def)

text \<open>One round of additions: every listed tool ends up with an equal encoding, the others are untouched.\<close>

lemma add_all:
  assumes "sdk_laws ops" and "mirrored ops b" and "wf_map ts" and "\<forall>(n, t) \<in> set ts. tool_Name t = n"
  shows "mirrored ops (fold (add_or_update marshal ops) ts b) \<and>
    (\<forall>n. case mget ts n of
       None \<Rightarrow> mget (br_currentTools (fold (add_or_update marshal ops) ts b)) n = mget (br_currentTools b) n
     | Some t \<Rightarrow> \<exists>u. mget (br_currentTools (fold (add_or_update marshal ops) ts b)) n = Some u \<and> (u = t \<or> same_encoding marshal u t))"
  using assms(2-4)
proof (induction ts arbitrary: b)
  case (Cons e ts)
  obtain n t where e: "e = (n, t)" by fastforce
  let ?b = "add_or_update marshal ops e b"
  have nm: "tool_Name t = n" and fresh: "mget ts n = None" using Cons.prems e by (auto simp: map_of_eq_None_iff)
  have m: "mirrored ops ?b"
    using Cons.prems(1) assms(1) nm by (auto simp: add_or_update_def e mirrored_def sdk_laws_def Let_def)
  have c: "mget (br_currentTools ?b) k = (if k = n then mget (br_currentTools ?b) n else mget (br_currentTools b) k)" for k
    by (simp add: add_or_update_def e Let_def)
  have own: "\<exists>u. mget (br_currentTools ?b) n = Some u \<and> (u = t \<or> same_encoding marshal u t)"
    by (auto simp: add_or_update_def e Let_def split: option.splits)
  have IH: "mirrored ops (fold (add_or_update marshal ops) ts ?b) \<and>
    (\<forall>n. case mget ts n of
       None \<Rightarrow> mget (br_currentTools (fold (add_or_update marshal ops) ts ?b)) n = mget (br_currentTools ?b) n
     | Some t \<Rightarrow> \<exists>u. mget (br_currentTools (fold (add_or_update marshal ops) ts ?b)) n = Some u \<and> (u = t \<or> same_encoding marshal u t))"
    using Cons.IH [OF m] Cons.prems by auto
  show ?case
  proof (intro conjI allI)
    show "mirrored ops (fold (add_or_update marshal ops) (e # ts) b)" using IH by simp
    fix k
    show "case mget (e # ts) k of
       None \<Rightarrow> mget (br_currentTools (fold (add_or_update marshal ops) (e # ts) b)) k = mget (br_currentTools b) k
     | Some t \<Rightarrow> \<exists>u. mget (br_currentTools (fold (add_or_update marshal ops) (e # ts) b)) k = Some u \<and> (u = t \<or> same_encoding marshal u t)"
      using conjunct2 [OF IH, rule_format, of k] fresh own c [of k] by (cases "k = n") (auto simp: e split: option.splits)
  qed
qed simp

lemma map_of_drop_keys: "map_of (filter (\<lambda>(k, _). k \<notin> A) m) = map_of m |` (- A)"
  by (induction m) (auto simp: restrict_map_def fun_eq_iff)

lemma update_mirrors:
  assumes "sdk_laws ops" and "mirrored ops b"
  shows "mirrored ops (updateRegisteredTools marshal ops tools b)"
    "case mget (named_tools tools) n of
       None \<Rightarrow> sdk_tools ops (br_server (updateRegisteredTools marshal ops tools b)) n = None
     | Some t \<Rightarrow> \<exists>u. sdk_tools ops (br_server (updateRegisteredTools marshal ops tools b)) n = Some u \<and> (u = t \<or> same_encoding marshal u t)"
proof -
  let ?new = "named_tools tools"
  define rm where "rm = filter (\<lambda>old. \<not> mhas ?new old) (mkeys (br_currentTools b))"
  define b' where "b' = (if length rm > 0 then b\<lparr>br_server := sdk_RemoveTools ops rm (br_server b),
      br_currentTools := filter (\<lambda>(name, _). name \<notin> set rm) (br_currentTools b)\<rparr> else b)"
  have m: "mirrored ops b'"
    using assms by (simp add: b'_def mirrored_def sdk_laws_def map_of_drop_keys)
  have "mget (br_currentTools b') = mget (br_currentTools b) |` (- set rm)"
    by (auto simp: b'_def map_of_drop_keys restrict_map_def fun_eq_iff)
  then have g: "mget (br_currentTools b') n = None" if "mget ?new n = None" for n
    using that by (auto simp: restrict_map_def rm_def mhas_iff map_of_eq_None_iff image_iff)
  have u: "updateRegisteredTools marshal ops tools b = fold (add_or_update marshal ops) ?new b'"
    unfolding updateRegisteredTools_def Let_def b'_def rm_def by (rule refl)
  have "\<forall>(n, t) \<in> set ?new. tool_Name t = n" using named_tools_wf(2) by blast
  note all = add_all [OF assms(1) m named_tools_wf(1) this, of marshal, folded u]
  show m2: "mirrored ops (updateRegisteredTools marshal ops tools b)" using all by blast
  show "case mget (named_tools tools) n of
       None \<Rightarrow> sdk_tools ops (br_server (updateRegisteredTools marshal ops tools b)) n = None
     | Some t \<Rightarrow> \<exists>u. sdk_tools ops (br_server (updateRegisteredTools marshal ops tools b)) n = Some u \<and> (u = t \<or> same_encoding marshal u t)"
    using conjunct2 [OF all, rule_format, of n] g [of n] m2 by (auto simp: mirrored_def split: option.splits)
qed

text \<open>What a client sees of a registry: the encodings under their names.\<close>

definition shows_list :: "(tool \<Rightarrow> string + string) \<Rightarrow> 'srv sdk_ops \<Rightarrow> 'srv Bridge \<Rightarrow> tool list \<Rightarrow> bool" where
  "shows_list marshal ops b tools \<longleftrightarrow>
     (\<forall>n. map_option marshal (sdk_tools ops (br_server b) n) = map_option marshal (mget (named_tools (map Some tools)) n))"

lemma update_shows:
  assumes "sdk_laws ops" and "mirrored ops b"
  shows "shows_list marshal ops (updateRegisteredTools marshal ops (map Some tools) b) tools"
  unfolding shows_list_def
proof
  fix n
  show "map_option marshal (sdk_tools ops (br_server (updateRegisteredTools marshal ops (map Some tools) b)) n) =
      map_option marshal (mget (named_tools (map Some tools)) n)"
    using update_mirrors(2) [OF assms, of marshal "map Some tools" n] by (auto simp: same_encoding_def split: option.splits)
qed

text \<open>
  C34. One synchronization makes the local server show exactly the hub's list, whatever it showed before: under every name
  the encoding of the hub's last tool of that name, completed with an object schema where there was none, and nothing
  under any other name.
\<close>

theorem updateRegisteredTools_mirrors:
  assumes "sdk_laws ops" and "sdk_tools ops (br_server b) = mget (br_currentTools b)"
  shows "(\<forall>n. map_option marshal (sdk_tools ops (br_server (updateRegisteredTools marshal ops tools b)) n) =
      map_option marshal (mget (named_tools tools) n)) \<and>
    sdk_tools ops (br_server (updateRegisteredTools marshal ops tools b)) =
      mget (br_currentTools (updateRegisteredTools marshal ops tools b))"
proof -
  have m: "mirrored ops b" using assms(2) by (simp add: mirrored_def)
  have "map_option marshal (sdk_tools ops (br_server (updateRegisteredTools marshal ops tools b)) n) =
      map_option marshal (mget (named_tools tools) n)" for n
    using update_mirrors(2) [OF assms(1) m, of marshal tools n] by (auto simp: same_encoding_def split: option.splits)
  with update_mirrors(1) [OF assms(1) m, of marshal tools] show ?thesis by (simp add: mirrored_def)
qed

section \<open>Changes of the hub's list\<close>

lemma update_seqs [simp]:
  "br_changeSeq (updateRegisteredTools marshal ops tools b) = br_changeSeq b"
  "br_syncedSeq (updateRegisteredTools marshal ops tools b) = br_syncedSeq b"
  "br_syncNeeded (updateRegisteredTools marshal ops tools b) = br_syncNeeded b"
proof -
  have "br_changeSeq (fold (add_or_update marshal ops) ts b) = br_changeSeq b \<and>
      br_syncedSeq (fold (add_or_update marshal ops) ts b) = br_syncedSeq b \<and>
      br_syncNeeded (fold (add_or_update marshal ops) ts b) = br_syncNeeded b" for ts b
    by (induction ts arbitrary: b) (simp_all add: add_or_update_def split_def Let_def)
  then show "br_changeSeq (updateRegisteredTools marshal ops tools b) = br_changeSeq b"
    "br_syncedSeq (updateRegisteredTools marshal ops tools b) = br_syncedSeq b"
    "br_syncNeeded (updateRegisteredTools marshal ops tools b) = br_syncNeeded b"
    by (simp_all add: updateRegisteredTools_def Let_def)
qed

text \<open>
  Somebody still has to bring the table up to date: a notification is under way, or the watcher took one and has not
  listed yet.
\<close>

definition change_pending :: "'srv bridge_sys \<Rightarrow> bool" where
  "change_pending s \<longleftrightarrow>
     by_wire s \<or> by_change s > 0 \<or> by_watcher s = WBurst \<or> by_watcher s = WSleep \<or>
     by_watcher s = WSync \<and> (\<forall>v. by_sync s \<noteq> SyncListed SyncWatcher v) \<and>
       by_sync s \<noteq> SyncRegistered SyncWatcher \<and> by_sync s \<noteq> SyncMarked SyncWatcher"

fun sync_owner_of :: "sync_pc \<Rightarrow> sync_owner option" where
  "sync_owner_of SyncFree = None"
| "sync_owner_of (SyncLocked who) = Some who"
| "sync_owner_of (SyncListed who _) = Some who"
| "sync_owner_of (SyncRegistered who) = Some who"
| "sync_owner_of (SyncMarked who) = Some who"

definition bridge_inv :: "(tool \<Rightarrow> string + string) \<Rightarrow> 'srv sdk_ops \<Rightarrow> (nat \<Rightarrow> tool list) \<Rightarrow> 'srv bridge_sys \<Rightarrow> bool" where
  "bridge_inv marshal ops hub s \<longleftrightarrow>
     mirrored ops (by_bridge s) \<and> shows_list marshal ops (by_bridge s) (hub (by_local s)) \<and>
     (sync_owner_of (by_sync s) = Some SyncWatcher \<longrightarrow> by_watcher s = WSync) \<and>
     (case by_sync s of SyncListed _ v \<Rightarrow> v = by_hub s \<or> by_failed s \<or> change_pending s | _ \<Rightarrow> True) \<and>
     (by_local s = by_hub s \<or> by_failed s \<or> change_pending s \<or> by_sync s = SyncListed SyncWatcher (by_hub s))"

lemma bridge_inv_step:
  assumes "sdk_laws ops" and "bridge_step marshal ops hub s s'" and "bridge_inv marshal ops hub s"
  shows "bridge_inv marshal ops hub s'"
  using assms(2)
proof cases
  case (sync_register who v)
  with assms(1,3) show ?thesis
    by (auto simp: bridge_inv_def change_pending_def update_mirrors(1) update_shows)
qed (use assms(3) in \<open>auto simp: bridge_inv_def change_pending_def mirrored_def shows_list_def note_change_def sync_done_def
      split: sync_pc.splits sync_owner.splits\<close>)

lemma bridge_start_inv:
  assumes "bridge_start lib version marshal ops srv None (Inr tools) opts = Inr b" and "sdk_laws ops" and "sdk_tools ops srv = Map.empty"
  shows "mirrored ops b \<and> shows_list marshal ops b tools"
proof -
  obtain b0 where b0: "bridge_New lib version srv opts = Inr b0"
    using assms(1) by (auto simp: bridge_start_def split: sum.splits)
  then have "mirrored ops b0"
    using assms(3) by (auto simp: bridge_New_def mirrored_def Let_def split: option.splits)
  from update_mirrors(1) [OF assms(2) this, of marshal "map Some tools"] update_shows [OF assms(2) this, of marshal tools]
  show ?thesis using assms(1) b0 by (auto simp: bridge_start_def mirrored_def shows_list_def Let_def)
qed

lemma bridge_reachable_inv:
  assumes "bridge_reachable marshal ops hub s" and "sdk_laws ops"
  shows "bridge_inv marshal ops hub s"
  using assms(1)
proof induction
  case (init lib version srv opts b)
  with bridge_start_inv [OF init(1) assms(2) init(2)] show ?case by (simp add: bridge_inv_def)
next
  case (step s s')
  with bridge_inv_step [OF assms(2)] show ?case by blast
qed

text \<open>
  C33. The bridge catches up: in every interleaving of the hub's changes, their notifications, the watcher and the client's
  requests, once no notification is on its way or waiting, the watcher is back in its loop and nobody synchronizes, the local
  server shows exactly the hub's current list, unless a listing of the watcher failed.
\<close>

theorem bridge_converges:
  assumes "bridge_reachable marshal ops hub s" and "sdk_laws ops"
    and "\<not> by_wire s" and "by_change s = 0" and "by_watcher s = WIdle" and "by_sync s = SyncFree" and "\<not> by_failed s"
  shows "\<forall>n. map_option marshal (sdk_tools ops (br_server (by_bridge s)) n) =
    map_option marshal (mget (named_tools (map Some (hub (by_hub s)))) n)"
proof -
  have "\<not> change_pending s" using assms(3-6) by (simp add: change_pending_def)
  with bridge_reachable_inv [OF assms(1,2)] assms(6,7) have "shows_list marshal ops (by_bridge s) (hub (by_hub s))"
    by (auto simp: bridge_inv_def)
  then show ?thesis by (simp add: shows_list_def)
qed

section \<open>Ending\<close>

text \<open>
  A bridge whose hub went away says so and forwards nothing more: when the hub's session ends while the bridge is
  running, the bridge ends with that error whatever else happens, even when its client disconnects normally, and every
  call in the meantime is refused without reaching the hub.
\<close>

theorem hub_failure_reported:
  assumes "\<not> br_closed b" and "\<not> ctxDone"
  shows "bridge_result (monitorHubSession waitErr ctxDone b) ctxErr serverErr =
      Some (BrHubTerminated (case waitErr of None \<Rightarrow> ''hub session is closed'' | Some e \<Rightarrow> e)) \<and>
    bridge_dispatchTool cl raw hubClosed (monitorHubSession waitErr ctxDone b) (Some p) = Inl ErrHubSessionClosed"
  using assms by (simp add: monitorHubSession_def bridge_result_def bridge_dispatchTool_def)

text \<open>
  A forwarded call reaches the hub with the client's tool name and raw arguments, and with its metadata except the
  three keys that describe the client's own protocol session.
\<close>

theorem forwarded_call_unchanged:
  assumes "bridge_dispatchTool cl raw hubClosed b (Some p) = Inr res"
  shows "\<exists>q. raw (Some q) = Inr res \<and> cp_Name q = cp_Name p \<and> cp_Arguments q = cp_Arguments p \<and>
    (\<forall>k. mget (cp_Meta q) k =
      (if k \<in> {cl_ProtocolVersion cl, cl_ClientInfo cl, cl_ClientCapabilities cl} then None else mget (cp_Meta p) k))"
proof -
  let ?q = "p\<lparr>cp_Meta := cloneForwardableMeta cl (cp_Meta p)\<rparr>"
  have "raw (Some ?q) = Inr res"
    using assms by (auto simp: bridge_dispatchTool_def CallToolWithParams_def split: if_splits sum.splits)
  moreover have "mget (cloneForwardableMeta cl m) = mget m |` (- {cl_ProtocolVersion cl, cl_ClientInfo cl, cl_ClientCapabilities cl})" for m
    using map_of_drop_keys [of "{cl_ProtocolVersion cl, cl_ClientInfo cl, cl_ClientCapabilities cl}" m] by (simp add: cloneForwardableMeta_def)
  ultimately show ?thesis by (intro exI [of _ ?q]) (simp add: restrict_map_def)
qed

section \<open>A change that is forgotten\<close>

text \<open>
  The watermark can run ahead of the table. A client's request lists version 1; the hub changes again and the watcher
  counts the notification; the request registers version 1 and then marks everything counted so far as synchronized. When
  the watcher's own listing fails, only a warning is logged, and the bridge serves version 1 for good.
\<close>

definition demo_hub :: "nat \<Rightarrow> tool list" where
  "demo_hub v = (if v = 2 then [] else [\<lparr>tool_Name = ''t'', tool_InputSchema = AnyNil, tool_OutputSchema = AnyNil, tool_Rest = []\<rparr>])"

definition demo_url_lib :: go_lib where
  "demo_url_lib = \<lparr>lib_urlParse = (\<lambda>_. Some \<lparr>url_Scheme = ''http'', url_Host = ''h'', url_Hostname = ''h'', url_hasUser = False, url_Opaque = [],
       url_Path = [], url_RawPath = [], url_RawQuery = [], url_ForceQuery = False, url_Fragment = []\<rparr>),
     lib_ParseIP = (\<lambda>_. None), lib_ParseCIDR = (\<lambda>_. False), lib_ParseDuration = (\<lambda>_. None), lib_IsAbs = (\<lambda>_. True), lib_Join = (\<lambda>a _. a)\<rparr>"

abbreviation demo_marshal :: "tool \<Rightarrow> string + string" where
  "demo_marshal \<equiv> \<lambda>t. Inr (tool_Name t)"

definition demo_bridge :: "(string, tool) gomap Bridge" where
  "demo_bridge = projr (bridge_start demo_url_lib ''1'' demo_marshal map_sdk [] None (Inr (demo_hub 0)) (RunAuthenticated_options ''http://h'' ''t''))"

definition demo_bridge_sys :: "(string, tool) gomap bridge_sys" where
  "demo_bridge_sys = \<lparr>by_bridge = demo_bridge, by_hub = 0, by_wire = False, by_change = 0, by_watcher = WIdle, by_sync = SyncFree,
     by_local = 0, by_failed = False\<rparr>"

lemma demo_bridge_start:
  "bridge_start demo_url_lib ''1'' demo_marshal map_sdk [] None (Inr (demo_hub 0)) (RunAuthenticated_options ''http://h'' ''t'') = Inr demo_bridge"
proof -
  have "\<not> isl (bridge_start demo_url_lib ''1'' demo_marshal map_sdk [] None (Inr (demo_hub 0)) (RunAuthenticated_options ''http://h'' ''t''))"
    by code_simp
  then show ?thesis by (simp add: demo_bridge_def)
qed

lemma demo_bridge_reachable: "bridge_reachable demo_marshal map_sdk demo_hub demo_bridge_sys"
  unfolding demo_bridge_sys_def by (rule bridge_reachable.init, rule demo_bridge_start) (simp add: map_sdk_def)

lemma forgetful_run:
  fixes ops :: "'srv sdk_ops"
  defines "st \<equiv> \<lambda>(b :: 'srv Bridge) h wi ch wa sy lo fa. \<lparr>by_bridge = b, by_hub = h, by_wire = wi, by_change = ch, by_watcher = wa, by_sync = sy,
    by_local = lo, by_failed = fa\<rparr>"
  assumes "bridge_reachable marshal ops hub (st b 0 False 0 WIdle SyncFree 0 False)"
  shows "bridge_reachable marshal ops hub
    (st (let b' = updateRegisteredTools marshal ops (map Some (hub 1)) (note_change (note_change b))
         in b'\<lparr>br_syncedSeq := br_changeSeq b', br_syncNeeded := False\<rparr>) 2 False 0 WIdle SyncFree 1 True)"
proof -
  let ?R = "bridge_reachable marshal ops hub" and ?n = "note_change"
  let ?b = "updateRegisteredTools marshal ops (map Some (hub 1)) (?n (?n b))"
  let ?c = "?b\<lparr>br_syncedSeq := br_changeSeq ?b\<rparr>" and ?d = "?b\<lparr>br_syncedSeq := br_changeSeq ?b, br_syncNeeded := False\<rparr>"
  have step: "?R s \<Longrightarrow> bridge_step marshal ops hub s s' \<Longrightarrow> s'' = s' \<Longrightarrow> ?R s''" for s s' s''
    by (auto intro: bridge_reachable.step)
  note sd = st_def sync_done_def
  have "?R (st b 1 True 0 WIdle SyncFree 0 False)"
    by (rule step [OF assms(2) bridge_step.hub_change]) (simp add: sd)
  then have "?R (st b 1 False 1 WIdle SyncFree 0 False)"
    by (rule step [OF _ bridge_step.deliver]) (simp_all add: sd)
  then have "?R (st (?n b) 1 False 0 WBurst SyncFree 0 False)"
    by (rule step [OF _ bridge_step.watch_take]) (simp_all add: sd)
  then have "?R (st (?n b) 1 False 0 WBurst (SyncLocked SyncClient) 0 False)"
    by (rule step [OF _ bridge_step.client_sync]) (simp_all add: sd out_of_date_def note_change_def)
  then have "?R (st (?n b) 1 False 0 WBurst (SyncListed SyncClient 1) 0 False)"
    by (rule step [OF _ bridge_step.sync_list [where who = SyncClient]]) (simp_all add: sd)
  then have "?R (st (?n b) 2 True 0 WBurst (SyncListed SyncClient 1) 0 False)"
    by (rule step [OF _ bridge_step.hub_change]) (simp_all add: sd)
  then have "?R (st (?n b) 2 False 1 WBurst (SyncListed SyncClient 1) 0 False)"
    by (rule step [OF _ bridge_step.deliver]) (simp_all add: sd)
  then have "?R (st (?n (?n b)) 2 False 0 WBurst (SyncListed SyncClient 1) 0 False)"
    by (rule step [OF _ bridge_step.watch_take]) (simp_all add: sd)
  then have "?R (st (?n (?n b)) 2 False 0 WSleep (SyncListed SyncClient 1) 0 False)"
    by (rule step [OF _ bridge_step.watch_drained]) (simp_all add: sd)
  then have "?R (st (?n (?n b)) 2 False 0 WSync (SyncListed SyncClient 1) 0 False)"
    by (rule step [OF _ bridge_step.watch_wake]) (simp_all add: sd)
  then have "?R (st ?b 2 False 0 WSync (SyncRegistered SyncClient) 1 False)"
    by (rule step [OF _ bridge_step.sync_register [where who = SyncClient and v = 1]]) (simp_all add: sd)
  then have "?R (st ?c 2 False 0 WSync (SyncMarked SyncClient) 1 False)"
    by (rule step [OF _ bridge_step.sync_mark [where who = SyncClient]]) (simp_all add: sd)
  then have "?R (st ?d 2 False 0 WSync SyncFree 1 False)"
    by (rule step [OF _ bridge_step.sync_clear [where who = SyncClient]]) (simp_all add: sd)
  then have "?R (st ?d 2 False 0 WSync (SyncLocked SyncWatcher) 1 False)"
    by (rule step [OF _ bridge_step.watch_sync]) (simp_all add: sd)
  then have "?R (st ?d 2 False 0 WIdle SyncFree 1 True)"
    by (rule step [OF _ bridge_step.sync_fail [where who = SyncWatcher]]) (simp_all add: sd)
  then show ?thesis by (simp add: Let_def)
qed

text \<open>
  C35. A run that forgets a change: everything has come to rest, the watermark says that the table is up to date, so
  \<^verbatim>\<open>tools/list\<close> is answered from it, and it still shows a tool that the hub withdrew.
\<close>

theorem bridge_forgets_change:
  "\<exists>s. bridge_reachable demo_marshal map_sdk demo_hub s \<and> \<not> by_wire s \<and> by_change s = 0 \<and> by_watcher s = WIdle \<and> by_sync s = SyncFree \<and>
     \<not> out_of_date (by_bridge s) \<and> demo_hub (by_hub s) = [] \<and> sdk_tools map_sdk (br_server (by_bridge s)) ''t'' \<noteq> None"
proof -
  let ?b = "updateRegisteredTools demo_marshal map_sdk (map Some (demo_hub 1)) (note_change (note_change demo_bridge))"
  have "sdk_tools map_sdk (br_server ?b) ''t'' \<noteq> None" by code_simp
  moreover have "demo_hub 2 = []" by (simp add: demo_hub_def)
  ultimately show ?thesis
    using forgetful_run [OF demo_bridge_reachable [unfolded demo_bridge_sys_def]]
    by (intro exI conjI) (assumption | simp add: out_of_date_def Let_def)+
qed

section \<open>Witnesses\<close>

theorem updateRegisteredTools_mirrors_witness:
  "map_option demo_marshal (sdk_tools map_sdk (br_server (updateRegisteredTools demo_marshal map_sdk [] demo_bridge)) ''t'') = None"
proof -
  have "sdk_tools map_sdk (br_server demo_bridge) = mget (br_currentTools demo_bridge)"
    using bridge_start_inv [OF demo_bridge_start map_sdk_laws] by (simp add: mirrored_def map_sdk_def)
  from conjunct1 [OF updateRegisteredTools_mirrors [OF map_sdk_laws this, of demo_marshal "[]"]] show ?thesis by (simp add: named_tools_def)
qed

theorem bridge_converges_witness:
  "map_option demo_marshal (sdk_tools map_sdk (br_server demo_bridge) ''t'') = Some (Inr ''t'')"
proof -
  have "map_option demo_marshal (sdk_tools map_sdk (br_server (by_bridge demo_bridge_sys)) ''t'') =
      map_option demo_marshal (mget (named_tools (map Some (demo_hub (by_hub demo_bridge_sys)))) ''t'')"
    using bridge_converges [OF demo_bridge_reachable map_sdk_laws] by (simp add: demo_bridge_sys_def)
  then show ?thesis by (simp add: demo_bridge_sys_def demo_hub_def named_tools_def with_schema_def)
qed

theorem hub_failure_reported_witness:
  "bridge_result (monitorHubSession None False demo_bridge) None None = Some (BrHubTerminated ''hub session is closed'')"
proof -
  have "\<not> br_closed demo_bridge" by code_simp
  from hub_failure_reported [OF this, of False None None None] show ?thesis by simp
qed

theorem forwarded_call_unchanged_witness:
  "\<exists>q :: CallToolParams. cp_Name q = ''t'' \<and> cp_Arguments q = ''{}'' \<and> mget (cp_Meta q) ''v'' = None \<and> mget (cp_Meta q) ''x'' = Some JNull"
proof -
  let ?cl = "\<lparr>cl_ProtocolVersion = ''v'', cl_ClientInfo = ''i'', cl_ClientCapabilities = ''c''\<rparr>"
  let ?p = "\<lparr>cp_Meta = [(''v'', JNull), (''x'', JNull)], cp_Name = ''t'', cp_Arguments = ''{}''\<rparr>"
  let ?res = "\<lparr>res_IsError = False, res_Text = ''ok''\<rparr>"
  have "\<not> br_closed demo_bridge \<and> br_hubFailureErr demo_bridge = None" by code_simp
  then have "bridge_dispatchTool ?cl (\<lambda>_. Inr ?res) False demo_bridge (Some ?p) = Inr ?res"
    by (simp add: bridge_dispatchTool_def CallToolWithParams_def)
  from forwarded_call_unchanged [OF this] obtain q :: CallToolParams where q: "cp_Name q = cp_Name ?p" "cp_Arguments q = cp_Arguments ?p"
    and m: "\<forall>k. mget (cp_Meta q) k = (if k \<in> {cl_ProtocolVersion ?cl, cl_ClientInfo ?cl, cl_ClientCapabilities ?cl} then None
      else mget (cp_Meta ?p) k)"
    by (elim exE conjE)
  have "mget (cp_Meta q) ''v'' = None" "mget (cp_Meta q) ''x'' = Some JNull" using m by simp_all
  with q show ?thesis by (intro exI [of _ q]) simp
qed

end
