(* ===== verification/Endpoints.thy ===== *)
theory Endpoints
  imports Config_Properties Wire_Limit
begin

text \<open>
  Reaching downstream servers: the policy for endpoint URLs (\<^verbatim>\<open>internal/netpolicy/hub_endpoint.go\<close>), the options and the HTTP
  client of a downstream connection (\<^verbatim>\<open>downstream/options.go\<close>, \<^verbatim>\<open>roundtripper.go\<close>, the dial functions of \<^verbatim>\<open>session.go\<close>) and the
  session factory of the manager (\<^verbatim>\<open>manager/session.go\<close>).

  The SDK's connection and the launching of a process are parameters. Headers of a request are a map from canonical names.
\<close>

section \<open>Endpoint policy\<close>

datatype endpoint_error =
    EndpointEmpty
  | EndpointInvalid
  | EndpointNoHost
  | EndpointUserinfo
  | EndpointFragment
  | EndpointPlaintext
  | EndpointScheme string
  | EndpointQuery

definition net_isLoopbackHost :: "go_lib \<Rightarrow> string \<Rightarrow> bool" where
  "net_isLoopbackHost lib host =
     (let host = trim_chars ''[]'' host
      in if equal_fold host ''localhost'' then True
         else case lib_ParseIP lib host of None \<Rightarrow> False | Some loopback \<Rightarrow> loopback)"

definition ValidateMCPHTTPURL :: "go_lib \<Rightarrow> string \<Rightarrow> endpoint_error + url_parts" where
  "ValidateMCPHTTPURL lib raw =
     (let raw = trim_space raw
      in if raw = [] then Inl EndpointEmpty
         else case lib_urlParse lib raw of
                None \<Rightarrow> Inl EndpointInvalid
              | Some u \<Rightarrow>
                  if url_Hostname u = [] \<or> url_Opaque u \<noteq> [] then Inl EndpointNoHost
                  else if url_hasUser u then Inl EndpointUserinfo
                  else if url_Fragment u \<noteq> [] then Inl EndpointFragment
                  else if to_lower (url_Scheme u) = ''https'' then Inr u
                  else if to_lower (url_Scheme u) = ''http''
                  then if \<not> net_isLoopbackHost lib (url_Hostname u) then Inl EndpointPlaintext else Inr u
                  else Inl (EndpointScheme (url_Scheme u)))"

definition ValidateHubEndpoint :: "go_lib \<Rightarrow> string \<Rightarrow> endpoint_error + url_parts" where
  "ValidateHubEndpoint lib raw =
     (case ValidateMCPHTTPURL lib raw of
        Inl e \<Rightarrow> Inl e
      | Inr u \<Rightarrow> if url_RawQuery u \<noteq> [] \<or> url_ForceQuery u then Inl EndpointQuery else Inr u)"

text \<open>\<open>show_url\<close> is \<^verbatim>\<open>URL.String\<close>.\<close>

definition SafeURL :: "go_lib \<Rightarrow> (url_parts \<Rightarrow> string) \<Rightarrow> string \<Rightarrow> string" where
  "SafeURL lib show_url raw =
     (case lib_urlParse lib (trim_space raw) of
        None \<Rightarrow> ''<invalid-endpoint>''
      | Some u \<Rightarrow>
          if url_Host u = [] then ''<invalid-endpoint>''
          else show_url (u\<lparr>url_hasUser := False, url_RawQuery := [], url_ForceQuery := False, url_Fragment := []\<rparr>))"

section \<open>Options of a connection\<close>

datatype downstream_error =
    DsUnsupportedTransport string
  | DsInvalidOptions endpoint_error
  | DsEndpointEmpty
  | DsForbiddenHeader string
  | DsReaderNil
  | DsWriterNil
  | DsConnect string

definition ds_forbiddenHeaders :: "string list" where
  "ds_forbiddenHeaders =
     [''host'', ''content-length'', ''connection'', ''transfer-encoding'', ''upgrade'', ''trailer'', ''te'', ''keep-alive'',
      ''proxy-authorization'', ''proxy-connection'', ''mcp-session-id'', ''mcp-protocol-version'']"

definition ValidateHeaders :: "(string, string) gomap \<Rightarrow> downstream_error option" where
  "ValidateHeaders headers =
     first_failure (\<lambda>k. if to_lower (trim_space k) \<in> set ds_forbiddenHeaders then Some (DsForbiddenHeader k) else None) (mkeys headers)"

record HTTPOptions =
  hop_Endpoint :: string
  hop_Headers :: "(string, string) gomap"
  hop_DisableStandaloneSSE :: bool
  hop_MaxRetries :: int
  hop_StartupTimeout :: int

definition HTTPOptions_Validate :: "go_lib \<Rightarrow> HTTPOptions \<Rightarrow> downstream_error option" where
  "HTTPOptions_Validate lib opts =
     (if hop_Endpoint opts = [] then Some DsEndpointEmpty
      else case ValidateMCPHTTPURL lib (hop_Endpoint opts) of
             Inl e \<Rightarrow> Some (DsInvalidOptions e)
           | Inr _ \<Rightarrow> ValidateHeaders (hop_Headers opts))"

text \<open>A reader or writer is known by whether it is there.\<close>

record IOOptions =
  iop_Reader :: bool
  iop_Writer :: bool
  iop_StartupTimeout :: int

definition IOOptions_Validate :: "IOOptions \<Rightarrow> downstream_error option" where
  "IOOptions_Validate opts =
     (if \<not> iop_Reader opts then Some DsReaderNil else if \<not> iop_Writer opts then Some DsWriterNil else None)"

definition TransportTypeStreamableHTTP :: string where "TransportTypeStreamableHTTP = ''streamable_http''"
definition TransportTypeIO :: string where "TransportTypeIO = ''io''"

record ds_Options =
  dso_Type :: string
  dso_http :: HTTPOptions
  dso_io :: IOOptions

definition Options_Validate :: "go_lib \<Rightarrow> ds_Options \<Rightarrow> downstream_error option" where
  "Options_Validate lib opts =
     (if dso_Type opts = TransportTypeStreamableHTTP then HTTPOptions_Validate lib (dso_http opts)
      else if dso_Type opts = TransportTypeIO then IOOptions_Validate (dso_io opts)
      else Some (DsUnsupportedTransport (dso_Type opts)))"

section \<open>The HTTP client\<close>

text \<open>\<^verbatim>\<open>textproto.CanonicalMIMEHeaderKey\<close>: a name with a byte that no header name has is kept as it is.\<close>

definition header_char :: "char \<Rightarrow> bool" where
  "header_char c \<longleftrightarrow> is_lower c \<or> is_upper c \<or> is_digit c \<or> c \<in> set ''!#$%&*+-.^_|~'' \<or> c = CHR 0x27 \<or> c = CHR 0x60"

fun canon_from :: "bool \<Rightarrow> string \<Rightarrow> string" where
  "canon_from up [] = []"
| "canon_from up (c # cs) = (if up then upper_char c else lower_char c) # canon_from (c = CHR ''-'') cs"

definition canonicalKey :: "string \<Rightarrow> string" where
  "canonicalKey k = (if list_all header_char k then canon_from True k else k)"

definition inject_headers :: "(string, string) gomap \<Rightarrow> (string, string) gomap \<Rightarrow> (string, string) gomap" where
  "inject_headers headers h = fold (\<lambda>(k, v) h. mput (canonicalKey k) v h) headers h"

text \<open>\<open>mediaType\<close> is the first result of \<^verbatim>\<open>mime.ParseMediaType\<close>, which may be there beside an error.\<close>

definition response_framing :: "nat \<Rightarrow> string \<Rightarrow> Framing" where
  "response_framing status mediaType =
     (if status \<ge> 200 \<and> status < 300 \<and> mediaType = ''text/event-stream'' then SSEEvents else WholeBody)"

record http_reply =
  hr_Status :: nat
  hr_MediaType :: string
  hr_Framing :: "Framing option"

text \<open>\<open>base\<close> performs the exchange; the framing of a response without a body stays \<^term>\<open>None\<close>.\<close>

definition RoundTrip ::
  "(string, string) gomap \<Rightarrow> ((string, string) gomap \<Rightarrow> string + http_reply \<times> bool) \<Rightarrow> (string, string) gomap \<Rightarrow> string + http_reply" where
  "RoundTrip headers base req =
     (case base (inject_headers headers req) of
        Inl e \<Rightarrow> Inl e
      | Inr (resp, hasBody) \<Rightarrow>
          Inr (if hasBody then resp\<lparr>hr_Framing := Some (response_framing (hr_Status resp) (hr_MediaType resp))\<rparr> else resp))"

record http_client =
  hc_Headers :: "(string, string) gomap"
  hc_FollowRedirects :: bool
  hc_Timeout :: int

definition newHTTPClient :: "(string, string) gomap \<Rightarrow> downstream_error + http_client" where
  "newHTTPClient headers =
     (case ValidateHeaders headers of
        Some e \<Rightarrow> Inl e
      | None \<Rightarrow> Inr \<lparr>hc_Headers = headers, hc_FollowRedirects = False, hc_Timeout = 0\<rparr>)"

section \<open>Dialling\<close>

definition DialHTTP :: "go_lib \<Rightarrow> (http_client \<Rightarrow> HTTPOptions \<Rightarrow> string + 's) \<Rightarrow> HTTPOptions \<Rightarrow> downstream_error + 's" where
  "DialHTTP lib connect opts =
     (case HTTPOptions_Validate lib opts of
        Some e \<Rightarrow> Inl e
      | None \<Rightarrow>
          (case newHTTPClient (hop_Headers opts) of
             Inl e \<Rightarrow> Inl e
           | Inr client \<Rightarrow> (case connect client opts of Inl e \<Rightarrow> Inl (DsConnect e) | Inr s \<Rightarrow> Inr s)))"

definition DialIO :: "(Framing \<Rightarrow> IOOptions \<Rightarrow> string + 's) \<Rightarrow> IOOptions \<Rightarrow> downstream_error + 's" where
  "DialIO connect opts =
     (case IOOptions_Validate opts of
        Some e \<Rightarrow> Inl e
      | None \<Rightarrow> (case connect JSONLines opts of Inl e \<Rightarrow> Inl (DsConnect e) | Inr s \<Rightarrow> Inr s))"

definition Dial ::
  "go_lib \<Rightarrow> (http_client \<Rightarrow> HTTPOptions \<Rightarrow> string + 's) \<Rightarrow> (Framing \<Rightarrow> IOOptions \<Rightarrow> string + 's) \<Rightarrow> ds_Options \<Rightarrow> downstream_error + 's" where
  "Dial lib connectHTTP connectIO opts =
     (if dso_Type opts = TransportTypeStreamableHTTP then DialHTTP lib connectHTTP (dso_http opts)
      else if dso_Type opts = TransportTypeIO then DialIO connectIO (dso_io opts)
      else Inl (DsUnsupportedTransport (dso_Type opts)))"

section \<open>The session factory\<close>

text \<open>\<^verbatim>\<open>process.Spec\<close>; an environment that is \<^verbatim>\<open>nil\<close> is inherited, an empty one is not.\<close>

record process_spec =
  ps_Command :: string
  ps_Args :: "string list"
  ps_Dir :: string
  ps_Env :: "string list option"

datatype factory_error =
    FacDial downstream_error
  | FacLaunch string
  | FacDialIO downstream_error
  | FacTransport string

text \<open>
  \<open>fac_launch\<close> starts a process, given by its number, when it succeeds; the second component of the result of
  \<^verbatim>\<open>CreateSession\<close> is what is handed to the caller to close, the last is the list of processes that are running.
\<close>

record 's factory_env =
  fac_lib :: go_lib
  fac_connectHTTP :: "http_client \<Rightarrow> HTTPOptions \<Rightarrow> string + 's"
  fac_connectIO :: "nat \<Rightarrow> Framing \<Rightarrow> IOOptions \<Rightarrow> string + 's"
  fac_launch :: "process_spec \<Rightarrow> string + nat"

definition server_http_options :: "ResolvedServer \<Rightarrow> HTTPOptions" where
  "server_http_options srv =
     \<lparr>hop_Endpoint = rs_URL srv, hop_Headers = rs_Headers srv, hop_DisableStandaloneSSE = True, hop_MaxRetries = 0,
      hop_StartupTimeout = rs_StartupTimeout srv\<rparr>"

definition server_process_spec :: "ResolvedServer \<Rightarrow> process_spec" where
  "server_process_spec srv =
     \<lparr>ps_Command = rs_Command srv, ps_Args = rs_Args srv, ps_Dir = rs_Cwd srv, ps_Env = Some (map (\<lambda>(k, v). k @ ''='' @ v) (rs_Env srv))\<rparr>"

definition CreateSession ::
  "'s factory_env \<Rightarrow> ResolvedServer \<Rightarrow> nat list \<Rightarrow> (factory_error + 's \<times> nat option) \<times> nat list" where
  "CreateSession env srv running =
     (if rs_Type srv = ServerTypeStreamableHTTP then
        (case DialHTTP (fac_lib env) (fac_connectHTTP env) (server_http_options srv) of
           Inl e \<Rightarrow> (Inl (FacDial e), running)
         | Inr s \<Rightarrow> (Inr (s, None), running))
      else if rs_Type srv = ServerTypeStdio then
        (case fac_launch env (server_process_spec srv) of
           Inl e \<Rightarrow> (Inl (FacLaunch e), running)
         | Inr pid \<Rightarrow>
             let running = pid # running
             in case DialIO (fac_connectIO env pid) \<lparr>iop_Reader = True, iop_Writer = True, iop_StartupTimeout = rs_StartupTimeout srv\<rparr> of
                  Inl e \<Rightarrow> (Inl (FacDialIO e), remove1 pid running)
                | Inr s \<Rightarrow> (Inr (s, Some pid), running))
      else (Inl (FacTransport (rs_Type srv)), running))"

section \<open>Properties\<close>

lemma net_isLoopbackHost_eq: "net_isLoopbackHost lib = isLoopbackHost lib"
  by (auto simp: fun_eq_iff net_isLoopbackHost_def isLoopbackHost_def Let_def split: option.splits)

lemma forbidden_same: "set ds_forbiddenHeaders = set forbiddenHeaders"
proof -
  have "list_all (\<lambda>h. h \<in> set forbiddenHeaders) ds_forbiddenHeaders" "list_all (\<lambda>h. h \<in> set ds_forbiddenHeaders) forbiddenHeaders"
    by code_simp+
  then show ?thesis by (auto simp: list_all_iff)
qed

lemma policies_agree:
  assumes "trim_space raw = raw" and "raw \<noteq> []"
  shows "validateHTTPURL lib raw = None \<longleftrightarrow> (\<exists>u. ValidateMCPHTTPURL lib raw = Inr u)"
  using assms by (auto simp: validateHTTPURL_def ValidateMCPHTTPURL_def net_isLoopbackHost_eq Let_def split: option.splits)

lemma ValidateHeaders_None: "ValidateHeaders h = None \<longleftrightarrow> (\<forall>k \<in> fst ` set h. to_lower (trim_space k) \<notin> set forbiddenHeaders)"
  by (auto simp: ValidateHeaders_def first_failure_None forbidden_same split: if_splits)

lemma validated_http_server:
  assumes "validateServer lib sid s = None" and "sc_Type s = ServerTypeStreamableHTTP"
  shows "validateHTTPURL lib (sc_URL s) = None" "trim_space (sc_URL s) \<noteq> []"
    "\<forall>k \<in> fst ` set (sc_Headers s). to_lower (trim_space k) \<notin> set forbiddenHeaders"
  using assms
  by (auto simp: validateServer_def validate_type_def ServerTypeStreamableHTTP_def ServerTypeStdio_def first_failure_None
      split: if_splits option.splits)

lemma resolved_http_server:
  assumes "Resolve lib environ isWindows (Some cfg) configDir lookup = Inr rc" and "(sid, srv) \<in> set (rc_Servers rc)"
    and "rs_Type srv = ServerTypeStreamableHTTP"
  shows "validateHTTPURL lib (rs_URL srv) = None" "trim_space (rs_URL srv) \<noteq> []"
    "\<forall>k \<in> fst ` set (rs_Headers srv). to_lower (trim_space k) \<notin> set forbiddenHeaders"
proof -
  from assms(1) obtain c x where c: "Some cfg = Some c" and v: "Validate lib (Some cfg) = None"
    and all: "list_all2 (\<lambda>(sid, s) (sid', rs). sid' = sid \<and> resolve_server x sid s = Inr rs) (cfg_MCPServers c) (rc_Servers rc)"
    by (rule Resolve_Inr)
  from list_all2_member2 [OF all assms(2)] obtain s where s: "(sid, s) \<in> set (cfg_MCPServers c)" "resolve_server x sid s = Inr srv"
    by auto
  have vs: "validateServer lib sid s = None" using v c s(1) by (auto elim!: Validate_None)
  have t: "sc_Type s = ServerTypeStreamableHTTP" using resolve_server_fields [OF s(2)] assms(3) by simp
  then have "rs_URL srv = sc_URL s \<and> map fst (rs_Headers srv) = map fst (sc_Headers s)"
    using s(2) by (auto simp: resolve_server_def Let_def ServerTypeStreamableHTTP_def ServerTypeStdio_def expand_values_keys(1)
        split: if_splits sum.splits)
  then have "rs_URL srv = sc_URL s" "fst ` set (rs_Headers srv) = fst ` set (sc_Headers s)" by (metis list.set_map)+
  with validated_http_server [OF vs t]
  show "validateHTTPURL lib (rs_URL srv) = None" "trim_space (rs_URL srv) \<noteq> []"
    "\<forall>k \<in> fst ` set (rs_Headers srv). to_lower (trim_space k) \<notin> set forbiddenHeaders"
    by simp_all
qed


text \<open>
  No process is left behind: a failed creation leaves exactly the processes running that ran before, and a successful
  one adds at most the process that it hands to its caller.
\<close>

theorem CreateSession_no_leak:
  assumes "CreateSession env srv running = (r, running')"
  shows "case r of
      Inl e \<Rightarrow> running' = running
    | Inr (s, None) \<Rightarrow> running' = running
    | Inr (s, Some pid) \<Rightarrow> running' = pid # running \<and> fac_launch env (server_process_spec srv) = Inr pid"
  using assms by (auto simp: CreateSession_def Let_def split: if_splits sum.splits)

section \<open>Header injection\<close>

lemma of_lower_upper: "lower_char (upper_char c) = lower_char c"
proof (cases "is_lower c")
  case True
  then have b: "97 \<le> (of_char c :: nat) \<and> (of_char c :: nat) \<le> 122" by (simp add: is_lower_def less_eq_char_def)
  then have u: "(of_char (upper_char c) :: nat) = of_char c - 32" using True b by (auto simp: upper_char_def intro!: mod_less)
  have "65 \<le> n - 32 \<and> n - 32 \<le> 90" if "97 \<le> n \<and> n \<le> 122" for n :: nat using that by arith
  from this [OF b] have "is_upper (upper_char c)" using u by (simp add: is_upper_def less_eq_char_def)
  moreover have "\<not> is_upper c" using b by (simp add: is_upper_def less_eq_char_def)
  ultimately show ?thesis using u b by (simp add: lower_char_def)
next
  case False
  then show ?thesis by (simp add: upper_char_def)
qed

lemma canonicalKey_lower: "to_lower (canonicalKey k) = to_lower k"
proof -
  have "map lower_char (canon_from up k) = map lower_char k" for up
    by (induction k arbitrary: up) (simp_all add: of_lower_upper)
  then show ?thesis by (simp add: canonicalKey_def to_lower_def)
qed

lemma inject_other:
  "canonicalKey ` fst ` set headers \<inter> {n} = {} \<Longrightarrow> mget (inject_headers headers h) n = mget h n"
  unfolding inject_headers_def
  by (induction headers arbitrary: h) auto

lemma trim_words_none:
  assumes "list_all (\<lambda>w. w \<noteq> [] \<and> \<not> header_char (hd w)) ws" and "list_all header_char s"
  shows "trim_words ws s = s"
proof -
  have "\<not> has_prefix s w" if "w \<in> set ws" for w
  proof -
    have "w \<noteq> [] \<and> \<not> header_char (hd w)" using that assms(1) by (simp add: list_all_iff)
    then show ?thesis using assms(2) by (cases w; cases s) auto
  qed
  then have "find (\<lambda>w. w \<noteq> [] \<and> has_prefix s w) ws = None" by (simp add: find_None_iff)
  then show ?thesis by (simp add: trim_words.simps)
qed

lemma trim_space_header: "list_all header_char s \<Longrightarrow> trim_space s = s"
proof -
  have "list_all (\<lambda>w. w \<noteq> [] \<and> \<not> header_char (hd w)) space_runes" "list_all (\<lambda>w. w \<noteq> [] \<and> \<not> header_char (hd w)) (map rev space_runes)"
    by code_simp+
  then show "list_all header_char s \<Longrightarrow> trim_space s = s" by (simp add: trim_space_def trim_words_none)
qed

text \<open>A name with blanks around it is no canonical name, so it cannot stand for one of the SDK's.\<close>

lemma canonical_forbidden:
  assumes "canonicalKey k = n" and "list_all header_char n" and "to_lower n \<in> set forbiddenHeaders"
  shows "to_lower (trim_space k) \<in> set forbiddenHeaders"
proof -
  have "list_all header_char k" using assms(1,2) by (auto simp: canonicalKey_def split: if_splits)
  with assms(1,3) canonicalKey_lower [of k] show ?thesis by (simp add: trim_space_header)
qed

text \<open>
  Configured headers cannot take over the protocol: whatever headers a client was built with, every request keeps the
  session identifier and the protocol version that the SDK gave it, and redirections, which would carry the configured
  credentials to another origin, are not followed.
\<close>

theorem injected_headers_safe:
  assumes "newHTTPClient headers = Inr client"
  shows "mget (inject_headers (hc_Headers client) req) ''Mcp-Session-Id'' = mget req ''Mcp-Session-Id'' \<and>
    mget (inject_headers (hc_Headers client) req) ''Mcp-Protocol-Version'' = mget req ''Mcp-Protocol-Version'' \<and>
    mget (inject_headers (hc_Headers client) req) ''Host'' = mget req ''Host'' \<and> \<not> hc_FollowRedirects client"
proof -
  have v: "ValidateHeaders headers = None" and c: "hc_Headers client = headers" "\<not> hc_FollowRedirects client"
    using assms(1) by (auto simp: newHTTPClient_def split: option.splits)
  have no: "canonicalKey ` fst ` set headers \<inter> {n} = {}" if "list_all header_char n" "to_lower n \<in> set forbiddenHeaders" for n
    using v canonical_forbidden [OF _ that] by (auto simp: ValidateHeaders_None)
  have "list_all (\<lambda>n. list_all header_char n \<and> to_lower n \<in> set forbiddenHeaders) [''Mcp-Session-Id'', ''Mcp-Protocol-Version'', ''Host'']"
    by code_simp
  with inject_other [OF no] c show ?thesis by simp
qed

section \<open>Witnesses\<close>

definition remote_lib :: go_lib where
  "remote_lib = demo_lib\<lparr>lib_urlParse := (\<lambda>_. Some \<lparr>url_Scheme = ''https'', url_Host = ''h'', url_Hostname = ''h'', url_hasUser = False,
     url_Opaque = [], url_Path = [], url_RawPath = [], url_RawQuery = [], url_ForceQuery = False, url_Fragment = []\<rparr>)\<rparr>"

definition remote_raw :: Config where
  "remote_raw = demo_raw\<lparr>cfg_MCPServers := [(''web'', (snd (hd (cfg_MCPServers demo_raw)))\<lparr>sc_Type := ServerTypeStreamableHTTP,
     sc_Command := [], sc_Env := [], sc_URL := ''https://h/mcp'', sc_Headers := [(''X-Key'', ''k'')]\<rparr>)]\<rparr>"

definition remote_server :: ResolvedServer where
  "remote_server = snd (hd (rc_Servers (projr (Resolve remote_lib demo_environ False (Some remote_raw) ''/etc'' demo_lookup))))"

definition remote_env :: "string factory_env" where
  "remote_env = \<lparr>fac_lib = remote_lib, fac_connectHTTP = (\<lambda>_ o'. Inr (hop_Endpoint o')), fac_connectIO = (\<lambda>_ _ _. Inl ''eof''),
     fac_launch = (\<lambda>_. Inr 7)\<rparr>"


theorem CreateSession_no_leak_witness:
  "snd (CreateSession remote_env (remote_server\<lparr>rs_Type := ServerTypeStdio\<rparr>) [3]) = [3]"
proof -
  obtain r running where c: "CreateSession remote_env (remote_server\<lparr>rs_Type := ServerTypeStdio\<rparr>) [3] = (r, running)" by fastforce
  have "isl (fst (CreateSession remote_env (remote_server\<lparr>rs_Type := ServerTypeStdio\<rparr>) [3]))" by code_simp
  with c CreateSession_no_leak [OF c] show ?thesis by (cases r) auto
qed

theorem injected_headers_safe_witness:
  "mget (inject_headers [(''x-key'', ''k'')] [(''Mcp-Session-Id'', ''s'')]) ''Mcp-Session-Id'' = Some ''s''"
proof -
  have "ValidateHeaders [(''x-key'', ''k'')] = None" by code_simp
  then have "newHTTPClient [(''x-key'', ''k'')] = Inr \<lparr>hc_Headers = [(''x-key'', ''k'')], hc_FollowRedirects = False, hc_Timeout = 0\<rparr>"
    by (simp add: newHTTPClient_def)
  from injected_headers_safe [OF this, of "[(''Mcp-Session-Id'', ''s'')]"] show ?thesis by simp
qed

end
