(* ===== verification/Process.thy ===== *)
theory Process
  imports Endpoints
begin

text \<open>
  Child processes (\<^verbatim>\<open>internal/process\<close>): the choice of the program to run (\<^verbatim>\<open>resolve.go\<close>), the bootstrap line of the worker
  (\<^verbatim>\<open>bootstrap.go\<close>, \<^verbatim>\<open>worker_windows.go\<close>), launching with its clean-up (\<^verbatim>\<open>launcher_posix.go\<close>, \<^verbatim>\<open>launcher_windows.go\<close>) and the
  closing of a process group.

  The operating system is a parameter: which calls fail, what a lookup finds, and when processes end. Times are in
  milliseconds. The path functions of the platform are parameters too, with the laws that the proofs use.
\<close>

section \<open>Which program is run\<close>

datatype process_error =
    ErrCommandRejected string
  | PrEmptyBootstrap
  | PrBootstrapNoCommand
  | PrBootstrapMarshal string
  | PrBootstrapTooLarge
  | PrBootstrapRead
  | PrBootstrapParse string
  | ErrTimeout
  | ErrJobAssignFailed string
  | PrStep string string

record platform =
  pl_windows :: bool
  pl_Base :: "string \<Rightarrow> string"
  pl_Ext :: "string \<Rightarrow> string"
  pl_Dir :: "string \<Rightarrow> string"
  pl_Join :: "string list \<Rightarrow> string"
  pl_LookPath :: "string \<Rightarrow> string + string"
  pl_Stat :: "string \<Rightarrow> bool"

record ResolveResult =
  rr_Spec :: process_spec
  rr_Warning :: string

definition find_npx :: "platform \<Rightarrow> process_spec \<Rightarrow> string option" where
  "find_npx pl spec =
     (if contains_any (ps_Command spec) [CHR ''/'', CHR 0x5C] then Some (ps_Command spec)
      else case pl_LookPath pl ''npx.cmd'' of
             Inr p \<Rightarrow> Some p
           | Inl _ \<Rightarrow>
               (case pl_LookPath pl ''npx'' of
                  Inr p \<Rightarrow> Some p
                | Inl _ \<Rightarrow>
                    (case pl_LookPath pl ''node.exe'' of
                       Inr p \<Rightarrow> Some (pl_Join pl [pl_Dir pl p, ''npx.cmd''])
                     | Inl _ \<Rightarrow>
                         (case pl_LookPath pl ''node'' of
                            Inr p \<Rightarrow> Some (pl_Join pl [pl_Dir pl p, ''npx.cmd''])
                          | Inl _ \<Rightarrow> None))))"

definition resolveNpx :: "platform \<Rightarrow> process_spec \<Rightarrow> process_error + ResolveResult" where
  "resolveNpx pl spec =
     (case find_npx pl spec of
        None \<Rightarrow> Inl (ErrCommandRejected ''npx not found'')
      | Some npxPath \<Rightarrow>
          let nodeDir = pl_Dir pl npxPath;
              nodeName = (if pl_windows pl then ''node.exe'' else ''node'');
              nodeExe = pl_Join pl [nodeDir, nodeName];
              npxCli = pl_Join pl [nodeDir, ''node_modules'', ''npm'', ''bin'', ''npx-cli.js'']
          in if \<not> pl_Stat pl nodeExe then Inl (ErrCommandRejected nodeExe)
             else if \<not> pl_Stat pl npxCli then Inl (ErrCommandRejected npxCli)
             else Inr \<lparr>rr_Spec = spec\<lparr>ps_Command := nodeExe, ps_Args := npxCli # ps_Args spec\<rparr>, rr_Warning = []\<rparr>)"

definition shell_warning :: string where
  "shell_warning = ''explicit command 'cmd.exe' enables shell execution; arguments are passed directly without shell escaping guarantees''"

definition is_batch_ext :: "string \<Rightarrow> bool" where
  "is_batch_ext ext \<longleftrightarrow> to_lower ext = ''.bat'' \<or> to_lower ext = ''.cmd''"

definition resolve_native :: "platform \<Rightarrow> process_spec \<Rightarrow> process_error + ResolveResult" where
  "resolve_native pl spec =
     (if is_batch_ext (pl_Ext pl (ps_Command spec)) then Inl (ErrCommandRejected (ps_Command spec))
      else
        let targetPath =
              (if pl_windows pl \<and> \<not> contains_any (ps_Command spec) [CHR ''/'', CHR 0x5C]
               then (case pl_LookPath pl (ps_Command spec) of Inr p \<Rightarrow> p | Inl _ \<Rightarrow> ps_Command spec)
               else ps_Command spec);
            targetBase = to_lower (pl_Base pl targetPath);
            result = \<lparr>rr_Spec = spec\<lparr>ps_Command := targetPath\<rparr>, rr_Warning = []\<rparr>
        in if targetBase = ''npx'' \<or> targetBase = ''npx.cmd'' then resolveNpx pl spec
           else if targetBase = ''uvx'' \<or> targetBase = ''uvx.exe'' then Inr result
           else if is_batch_ext (pl_Ext pl targetPath) then Inl (ErrCommandRejected targetPath)
           else Inr result)"

definition ResolveCommandWithFS :: "platform \<Rightarrow> process_spec \<Rightarrow> process_error + ResolveResult" where
  "ResolveCommandWithFS pl spec =
     (if ps_Command spec = [] then Inl (ErrCommandRejected [])
      else
        let baseName = to_lower (pl_Base pl (ps_Command spec))
        in if baseName = ''cmd.exe'' \<or> baseName = ''cmd'' then Inr \<lparr>rr_Spec = spec, rr_Warning = shell_warning\<rparr>
           else if baseName = ''npx'' \<or> baseName = ''npx.cmd''
           then if \<not> pl_windows pl
                then if \<not> contains_any (ps_Command spec) [CHR ''/'', CHR 0x5C]
                     then (case pl_LookPath pl (ps_Command spec) of
                             Inl e \<Rightarrow> Inl (ErrCommandRejected e)
                           | Inr p \<Rightarrow> Inr \<lparr>rr_Spec = spec\<lparr>ps_Command := p\<rparr>, rr_Warning = []\<rparr>)
                     else Inr \<lparr>rr_Spec = spec, rr_Warning = []\<rparr>
                else resolveNpx pl spec
           else resolve_native pl spec)"

text \<open>
  What is used of the platform's paths: the extension is that of the last element, and a joined path ends with the last
  of the joined names.
\<close>

definition name_ext :: "string \<Rightarrow> string" where
  "name_ext n = (case index_byte (rev n) (CHR ''.'') of None \<Rightarrow> [] | Some i \<Rightarrow> CHR ''.'' # rev (take i (rev n)))"

definition path_laws :: "platform \<Rightarrow> bool" where
  "path_laws pl \<longleftrightarrow>
     (\<forall>p. pl_Ext pl p = name_ext (pl_Base pl p)) \<and>
     (\<forall>d n. n \<in> {''node.exe'', ''node'', ''npx.cmd''} \<longrightarrow> pl_Base pl (pl_Join pl [d, n]) = n)"

lemma lower_name_ext: "to_lower (name_ext n) = name_ext (to_lower n)"
proof -
  have dot: "(lower_char c = CHR ''.'') = (c = CHR ''.'')" for c
  proof (cases "is_upper c")
    case True
    then have b: "65 \<le> (of_char c :: nat) \<and> (of_char c :: nat) \<le> 90" by (simp add: is_upper_def less_eq_char_def)
    then have "(of_char (lower_char c) :: nat) = of_char c + 32" using True by (simp add: lower_char_def)
    with b have "(of_char (lower_char c) :: nat) \<noteq> 46 \<and> (of_char c :: nat) \<noteq> 46" by simp
    then show ?thesis by auto
  qed (simp add: lower_char_def)
  have i: "index_byte (map lower_char s) (CHR ''.'') = index_byte s (CHR ''.'')" for s
    by (induction s) (simp_all add: dot)
  have l: "lower_char (CHR ''.'') = CHR ''.''" by code_simp
  show ?thesis
    by (simp add: name_ext_def to_lower_def rev_map i take_map l split: option.splits)
qed

lemma resolveNpx_not_batch:
  assumes "path_laws pl" and "resolveNpx pl spec = Inr r"
  shows "\<not> is_batch_ext (pl_Ext pl (ps_Command (rr_Spec r)))"
proof -
  have "\<not> is_batch_ext (name_ext ''node.exe'')" "\<not> is_batch_ext (name_ext ''node'')" by code_simp+
  with assms show ?thesis
    by (auto simp: resolveNpx_def Let_def path_laws_def split: option.splits if_splits)
qed

lemma resolve_native_not_batch:
  assumes "path_laws pl" and "resolve_native pl spec = Inr r"
  shows "\<not> is_batch_ext (pl_Ext pl (ps_Command (rr_Spec r)))"
proof -
  have "\<not> is_batch_ext (pl_Ext pl p)" if "to_lower (pl_Base pl p) = ''uvx'' \<or> to_lower (pl_Base pl p) = ''uvx.exe''" for p
  proof -
    have "to_lower (pl_Ext pl p) = name_ext (to_lower (pl_Base pl p))" using assms(1) by (simp add: path_laws_def lower_name_ext)
    moreover have "name_ext ''uvx'' = []" "name_ext ''uvx.exe'' = ''.exe''" by code_simp+
    ultimately show ?thesis using that by (auto simp: is_batch_ext_def)
  qed
  with assms(2) resolveNpx_not_batch [OF assms(1)] show ?thesis
    by (auto simp: resolve_native_def Let_def split: if_splits sum.splits)
qed

lemma resolveNpx_keeps:
  assumes "resolveNpx pl spec = Inr r"
  shows "ps_Env (rr_Spec r) = ps_Env spec \<and> ps_Dir (rr_Spec r) = ps_Dir spec \<and>
    (\<exists>pre. ps_Args (rr_Spec r) = pre @ ps_Args spec \<and> length pre \<le> 1)"
proof -
  obtain cmd cli where "rr_Spec r = spec\<lparr>ps_Command := cmd, ps_Args := cli # ps_Args spec\<rparr>"
    using assms by (auto simp: resolveNpx_def Let_def split: option.splits if_splits)
  then show ?thesis by (auto intro: exI [of _ "[cli]"])
qed

lemma resolve_native_keeps:
  assumes "resolve_native pl spec = Inr r"
  shows "ps_Env (rr_Spec r) = ps_Env spec \<and> ps_Dir (rr_Spec r) = ps_Dir spec \<and>
    (\<exists>pre. ps_Args (rr_Spec r) = pre @ ps_Args spec \<and> length pre \<le> 1)"
proof (cases "resolveNpx pl spec = Inr r")
  case True
  then show ?thesis by (rule resolveNpx_keeps)
next
  case False
  then have "ps_Env (rr_Spec r) = ps_Env spec \<and> ps_Dir (rr_Spec r) = ps_Dir spec \<and> ps_Args (rr_Spec r) = ps_Args spec"
    using assms by (auto simp: resolve_native_def Let_def split: if_splits)
  then show ?thesis by simp
qed


section \<open>The bootstrap line\<close>

definition MaxBootstrapBytes :: nat where "MaxBootstrapBytes = 1024 * 1024"

definition newline :: char where "newline = CHR 0x0A"

text \<open>\<open>marshal\<close> and \<open>unmarshal\<close> are \<^verbatim>\<open>encoding/json\<close> on the message, which is a specification.\<close>

definition WriteBootstrap :: "(process_spec \<Rightarrow> string + string) \<Rightarrow> process_spec option \<Rightarrow> process_error + string" where
  "WriteBootstrap marshal msg =
     (case msg of
        None \<Rightarrow> Inl PrEmptyBootstrap
      | Some m \<Rightarrow>
          if ps_Command m = [] then Inl PrBootstrapNoCommand
          else case marshal m of
                 Inl e \<Rightarrow> Inl (PrBootstrapMarshal e)
               | Inr data \<Rightarrow> if length data + 1 > MaxBootstrapBytes then Inl PrBootstrapTooLarge else Inr (data @ [newline]))"

text \<open>The loop over the bytes of the input: \<open>n\<close> bytes are in the buffer. The second result is what the reader has not consumed.\<close>

fun read_line :: "nat \<Rightarrow> string \<Rightarrow> (process_error + string) \<times> string" where
  "read_line n [] = (Inl PrBootstrapRead, [])"
| "read_line n (b # bs) =
     (if b = newline then (Inr [], bs)
      else if n \<ge> MaxBootstrapBytes then (Inl PrBootstrapTooLarge, bs)
      else case read_line (n + 1) bs of (Inl e, rest) \<Rightarrow> (Inl e, rest) | (Inr l, rest) \<Rightarrow> (Inr (b # l), rest))"

definition ReadBootstrap ::
  "(string \<Rightarrow> string + process_spec) \<Rightarrow> bool \<Rightarrow> string \<Rightarrow> (process_error + process_spec) \<times> string" where
  "ReadBootstrap unmarshal timedOut input =
     (if timedOut then (Inl ErrTimeout, input)
      else case read_line 0 input of
             (Inl e, rest) \<Rightarrow> (Inl e, rest)
           | (Inr data, rest) \<Rightarrow>
               (if data = [] then Inl PrEmptyBootstrap
                else case unmarshal data of
                       Inl e \<Rightarrow> Inl (PrBootstrapParse e)
                     | Inr msg \<Rightarrow> if ps_Command msg = [] then Inl PrBootstrapNoCommand else Inr msg,
                rest))"

text \<open>The worker on Windows: which program it starts, and the bytes that it copies to that program's input.\<close>

definition RunWorkerWithIO ::
  "(string \<Rightarrow> string + process_spec) \<Rightarrow> bool \<Rightarrow> string \<Rightarrow> process_error + process_spec \<times> string" where
  "RunWorkerWithIO unmarshal timedOut stdin =
     (case ReadBootstrap unmarshal timedOut stdin of
        (Inl e, _) \<Rightarrow> Inl e
      | (Inr msg, br) \<Rightarrow> Inr (msg, br))"

definition WorkerFlag :: string where "WorkerFlag = ''_worker''"

definition IsWorkerArg :: "string list \<Rightarrow> bool" where
  "IsWorkerArg args \<longleftrightarrow> length args > 1 \<and> args ! 1 = WorkerFlag"

lemma read_line_line:
  assumes "newline \<notin> set l" and "n + length l \<le> MaxBootstrapBytes"
  shows "read_line n (l @ newline # rest) = (Inr l, rest)"
  using assms by (induction l arbitrary: n) auto

lemma read_line_bounded: "read_line n s = (Inr l, rest) \<Longrightarrow> n \<le> MaxBootstrapBytes \<Longrightarrow> n + length l \<le> MaxBootstrapBytes \<and> s = l @ newline # rest"
  by (induction n s arbitrary: l rule: read_line.induct) (auto split: if_splits sum.splits prod.splits)

text \<open>
  What is used of \<^verbatim>\<open>encoding/json\<close>: what it encodes it decodes to the same message, in one non-empty line. It may refuse to
  encode; strings that are no UTF-8 are outside of the law.
\<close>

definition json_exact :: "(process_spec \<Rightarrow> string + string) \<Rightarrow> (string \<Rightarrow> string + process_spec) \<Rightarrow> bool" where
  "json_exact marshal unmarshal \<longleftrightarrow>
     (\<forall>m data. marshal m = Inr data \<longrightarrow> unmarshal data = Inr m \<and> newline \<notin> set data \<and> data \<noteq> [])"

lemma written_line_read:
  assumes "WriteBootstrap marshal (Some spec) = Inr bytes" and "json_exact marshal unmarshal"
  shows "ReadBootstrap unmarshal False (bytes @ protocol) = (Inr spec, protocol)"
proof -
  obtain data where d: "marshal spec = Inr data" "bytes = data @ [newline]" "length data + 1 \<le> MaxBootstrapBytes" "ps_Command spec \<noteq> []"
    using assms(1) by (auto simp: WriteBootstrap_def split: if_splits sum.splits)
  have u: "unmarshal data = Inr spec" "newline \<notin> set data" "data \<noteq> []" using assms(2) d(1) by (auto simp: json_exact_def)
  have "read_line 0 (data @ newline # protocol) = (Inr data, protocol)"
    using read_line_line [OF u(2), of 0 protocol] d(3) by simp
  with u d show ?thesis by (simp add: ReadBootstrap_def)
qed

text \<open>
  The worker starts exactly the program that the hub sent it, and that program reads exactly the protocol bytes that
  follow the line, however they were buffered together: whatever line the writer accepts fits the reader's limit.
\<close>

theorem bootstrap_roundtrip:
  assumes "WriteBootstrap marshal (Some spec) = Inr bytes" and "json_exact marshal unmarshal"
  shows "RunWorkerWithIO unmarshal False (bytes @ protocol) = Inr (spec, protocol)"
proof -
  have "ReadBootstrap unmarshal False (bytes @ protocol) = (Inr spec, protocol)" using assms by (rule written_line_read)
  then show ?thesis by (simp add: RunWorkerWithIO_def)
qed

section \<open>Launching\<close>

text \<open>What a launch holds of the operating system. The child is listed while it runs or is not reaped.\<close>

datatype os_resource = JobHandle | ProcessHandle | StdinPipe | StdoutPipe | ChildProcess

text \<open>Which system calls fail, and with what.\<close>

record launch_env =
  le_CreateJob :: "string option"
  le_SetJob :: "string option"
  le_Executable :: "string option"
  le_StdinPipe :: "string option"
  le_StdoutPipe :: "string option"
  le_Start :: "string option"
  le_OpenProcess :: "string option"
  le_AssignJob :: "string option"
  le_Write :: "string option"

record LaunchOptions =
  lo_WorkerExe :: string
  lo_WorkerArgs :: "string list"
  lo_GracePeriod :: int

definition defaultLaunchOptions :: LaunchOptions where
  "defaultLaunchOptions = \<lparr>lo_WorkerExe = [], lo_WorkerArgs = [], lo_GracePeriod = 2000\<rparr>"

definition WithWorkerBinary :: "string \<Rightarrow> string list \<Rightarrow> LaunchOptions \<Rightarrow> LaunchOptions" where
  "WithWorkerBinary exe args o' = o'\<lparr>lo_WorkerExe := exe, lo_WorkerArgs := args\<rparr>"

definition WithGracePeriod :: "int \<Rightarrow> LaunchOptions \<Rightarrow> LaunchOptions" where
  "WithGracePeriod d o' = o'\<lparr>lo_GracePeriod := d\<rparr>"

text \<open>A started process: what runs, and with which environment (\<^term>\<open>None\<close> inherits the hub's).\<close>

record started =
  st_Run :: process_spec
  st_Grace :: int

definition drop_resources :: "os_resource list \<Rightarrow> os_resource list \<Rightarrow> os_resource list" where
  "drop_resources gone owned = filter (\<lambda>r. r \<notin> set gone) owned"

definition startPlatform_posix ::
  "platform \<Rightarrow> launch_env \<Rightarrow> process_spec \<Rightarrow> LaunchOptions \<Rightarrow> (process_error + started) \<times> os_resource list" where
  "startPlatform_posix pl env spec opts =
     (case ResolveCommandWithFS pl spec of
        Inl e \<Rightarrow> (Inl e, [])
      | Inr resolved \<Rightarrow>
          let owned = []
          in case le_StdinPipe env of
               Some e \<Rightarrow> (Inl (PrStep ''create stdin pipe'' e), owned)
             | None \<Rightarrow>
                 let owned = StdinPipe # owned
                 in case le_StdoutPipe env of
                      Some e \<Rightarrow> (Inl (PrStep ''create stdout pipe'' e), drop_resources [StdinPipe] owned)
                    | None \<Rightarrow>
                        let owned = StdoutPipe # owned
                        in case le_Start env of
                             Some e \<Rightarrow> (Inl (PrStep ''start process'' e), drop_resources [StdinPipe, StdoutPipe] owned)
                           | None \<Rightarrow> (Inr \<lparr>st_Run = rr_Spec resolved, st_Grace = lo_GracePeriod opts\<rparr>, ChildProcess # owned))"

text \<open>The last argument of a failed step after the start: the worker is killed and reaped and everything is closed.\<close>

definition abandon_worker :: "os_resource list \<Rightarrow> os_resource list" where
  "abandon_worker owned = drop_resources [ChildProcess, StdinPipe, StdoutPipe, JobHandle] owned"

definition worker_command :: "string \<Rightarrow> LaunchOptions \<Rightarrow> string \<times> string list" where
  "worker_command self opts =
     (if lo_WorkerExe opts = [] then self else lo_WorkerExe opts,
      if lo_WorkerArgs opts = [] then [WorkerFlag] else lo_WorkerArgs opts)"

text \<open>The job object holds the worker before it learns what to run.\<close>

definition handover ::
  "(process_spec \<Rightarrow> string + string) \<Rightarrow> launch_env \<Rightarrow> process_spec \<Rightarrow> os_resource list \<Rightarrow>
   (process_error + string) \<times> os_resource list" where
  "handover marshal env spec owned =
     (case le_OpenProcess env of
        Some e \<Rightarrow> (Inl (PrStep ''open worker process'' e), abandon_worker owned)
      | None \<Rightarrow>
          let owned = drop_resources [ProcessHandle] (ProcessHandle # owned)
          in case le_AssignJob env of
               Some e \<Rightarrow> (Inl (ErrJobAssignFailed e), abandon_worker owned)
             | None \<Rightarrow>
                 (case WriteBootstrap marshal (Some spec) of
                    Inl e \<Rightarrow> (Inl e, abandon_worker owned)
                  | Inr bytes \<Rightarrow>
                      (case le_Write env of
                         Some e \<Rightarrow> (Inl (PrStep ''write bootstrap message'' e), abandon_worker owned)
                       | None \<Rightarrow> (Inr bytes, owned))))"

text \<open>The result on Windows is the line that the worker gets and its own command.\<close>

definition startPlatform_windows ::
  "platform \<Rightarrow> (process_spec \<Rightarrow> string + string) \<Rightarrow> launch_env \<Rightarrow> string \<Rightarrow> process_spec \<Rightarrow> LaunchOptions \<Rightarrow>
   (process_error + string \<times> string \<times> string list) \<times> os_resource list" where
  "startPlatform_windows pl marshal env self spec opts =
     (case ResolveCommandWithFS pl spec of
        Inl e \<Rightarrow> (Inl e, [])
      | Inr resolved \<Rightarrow>
          (case le_CreateJob env of
             Some e \<Rightarrow> (Inl (PrStep ''create job object'' e), [])
           | None \<Rightarrow>
               let owned = [JobHandle]
               in case le_SetJob env of
                    Some e \<Rightarrow> (Inl (PrStep ''set job object limit'' e), drop_resources [JobHandle] owned)
                  | None \<Rightarrow>
                      if lo_WorkerExe opts = [] \<and> le_Executable env \<noteq> None
                      then (Inl (PrStep ''get executable path'' (the (le_Executable env))), drop_resources [JobHandle] owned)
                      else case le_StdinPipe env of
                             Some e \<Rightarrow> (Inl (PrStep ''create worker stdin pipe'' e), drop_resources [JobHandle] owned)
                           | None \<Rightarrow>
                               let owned = StdinPipe # owned
                               in case le_StdoutPipe env of
                                    Some e \<Rightarrow> (Inl (PrStep ''create worker stdout pipe'' e), drop_resources [StdinPipe, JobHandle] owned)
                                  | None \<Rightarrow>
                                      let owned = StdoutPipe # owned
                                      in case le_Start env of
                                           Some e \<Rightarrow> (Inl (PrStep ''start worker process'' e),
                                                      drop_resources [StdinPipe, StdoutPipe, JobHandle] owned)
                                         | None \<Rightarrow>
                                             (case handover marshal env (rr_Spec resolved) (ChildProcess # owned) of
                                                (Inl e, owned) \<Rightarrow> (Inl e, owned)
                                              | (Inr bytes, owned) \<Rightarrow> (Inr (bytes, worker_command self opts), owned))))"

lemma handover_error: "handover marshal env spec [ChildProcess, StdoutPipe, StdinPipe, JobHandle] = (Inl e, owned) \<Longrightarrow> owned = []"
  by (auto simp: handover_def Let_def abandon_worker_def drop_resources_def split: option.splits sum.splits)

text \<open>
  A launch that fails, wherever it fails, leaves no process, pipe or handle behind, on both platforms.
\<close>

theorem failed_launch_leaves_nothing:
  "(startPlatform_posix pl env spec opts = (Inl e, owned) \<longrightarrow> owned = []) \<and>
   (startPlatform_windows pl marshal env self spec opts = (Inl e, owned) \<longrightarrow> owned = [])"
proof -
  have "startPlatform_posix pl env spec opts = (Inl e, owned) \<Longrightarrow> owned = []"
    by (auto simp: startPlatform_posix_def Let_def drop_resources_def split: sum.splits option.splits)
  moreover have "startPlatform_windows pl marshal env self spec opts = (Inl e, owned) \<Longrightarrow> owned = []"
    by (auto simp: startPlatform_windows_def Let_def drop_resources_def dest: handover_error split: sum.splits option.splits if_splits prod.splits)
  ultimately show ?thesis by blast
qed

lemma startPlatform_windows_sends:
  assumes "startPlatform_windows pl marshal env self spec opts = (Inr (bytes, cmd), owned)"
  obtains resolved where "ResolveCommandWithFS pl spec = Inr resolved" and "WriteBootstrap marshal (Some (rr_Spec resolved)) = Inr bytes"
  using assms
  by (auto simp: startPlatform_windows_def handover_def Let_def split: sum.splits option.splits if_splits prod.splits)

lemma ResolveCommandWithFS_env:
  assumes "ResolveCommandWithFS pl spec = Inr r"
  shows "ps_Env (rr_Spec r) = ps_Env spec"
proof (cases "resolveNpx pl spec = Inr r \<or> resolve_native pl spec = Inr r")
  case True
  then show ?thesis using resolveNpx_keeps resolve_native_keeps by blast
next
  case False
  with assms show ?thesis
    by (auto simp: ResolveCommandWithFS_def Let_def split: if_splits sum.splits)
qed


section \<open>Closing a process group\<close>

datatype proc_event = StdinClosed | SIGTERM | SIGKILL

text \<open>
  The processes of the group: whether some of them is alive at a time, and whether the root is reaped, given what was done
  to them so far, with \<open>os_lag\<close> the time by which a sleep is late.
\<close>

record group_os =
  os_alive :: "(nat \<times> proc_event) list \<Rightarrow> nat \<Rightarrow> bool"
  os_reaped :: "(nat \<times> proc_event) list \<Rightarrow> nat \<Rightarrow> bool"
  os_lag :: "nat \<Rightarrow> nat"

definition processGroupAlive :: "group_os \<Rightarrow> int \<Rightarrow> (nat \<times> proc_event) list \<Rightarrow> nat \<Rightarrow> bool" where
  "processGroupAlive os pgid ev t \<longleftrightarrow> (if pgid \<le> 0 then False else os_alive os ev t)"

function poll_group :: "group_os \<Rightarrow> int \<Rightarrow> (nat \<times> proc_event) list \<Rightarrow> nat \<Rightarrow> nat \<Rightarrow> bool \<times> nat" where
  "poll_group os pgid ev deadline t =
     (if t < deadline
      then if \<not> processGroupAlive os pgid ev t then (True, t) else poll_group os pgid ev deadline (t + 20 + os_lag os t)
      else (\<not> processGroupAlive os pgid ev t, t))"
  by pat_completeness auto
termination by (relation "measure (\<lambda>(os, pgid, ev, deadline, t). deadline - t)") auto

declare poll_group.simps [simp del]

definition waitForProcessGroupExit :: "group_os \<Rightarrow> int \<Rightarrow> (nat \<times> proc_event) list \<Rightarrow> int \<Rightarrow> nat \<Rightarrow> bool \<times> nat" where
  "waitForProcessGroupExit os pgid ev timeout t =
     poll_group os pgid ev (t + nat (if timeout \<le> 0 then 1000 else timeout)) t"

text \<open>Waiting for the root to be reaped, at most for the grace period, and without a limit.\<close>

definition wait_grace :: "group_os \<Rightarrow> (nat \<times> proc_event) list \<Rightarrow> int \<Rightarrow> nat \<Rightarrow> nat" where
  "wait_grace os ev grace t =
     (case find (os_reaped os ev) [t..<t + nat grace] of Some t' \<Rightarrow> t' | None \<Rightarrow> t + nat grace)"

partial_function (option) wait_reaped :: "group_os \<Rightarrow> (nat \<times> proc_event) list \<Rightarrow> nat \<Rightarrow> nat option" where
  "wait_reaped os ev t = (if os_reaped os ev t then Some t else wait_reaped os ev (t + 1))"

text \<open>
  \<^verbatim>\<open>Close\<close>, run once: the result is what was done to the group and when it returns; \<^term>\<open>None\<close> is not returning.
\<close>

definition terminate_group :: "group_os \<Rightarrow> int \<Rightarrow> int \<Rightarrow> (nat \<times> proc_event) list \<Rightarrow> nat \<Rightarrow> (nat \<times> proc_event) list \<times> nat" where
  "terminate_group os pgid grace ev t =
     (if processGroupAlive os pgid ev t
      then let ev = ev @ [(t, SIGTERM)]; (gone, t) = waitForProcessGroupExit os pgid ev grace t
           in if \<not> gone then let ev = ev @ [(t, SIGKILL)] in (ev, snd (waitForProcessGroupExit os pgid ev grace t)) else (ev, t)
      else (ev, t))"

definition posix_Close :: "group_os \<Rightarrow> int \<Rightarrow> int \<Rightarrow> nat \<Rightarrow> ((nat \<times> proc_event) list \<times> nat) option" where
  "posix_Close os pid grace t =
     (let ev = [(t, StdinClosed)];
          t = wait_grace os ev grace t;
          (ev, t) = terminate_group os pid grace ev t
      in case wait_reaped os ev t of None \<Rightarrow> None | Some t \<Rightarrow> Some (ev, t))"

text \<open>
  What is used of the operating system: a group that is gone stays gone, whatever is sent to it; a killed group is gone
  after \<open>kill_ms\<close>; and the root of a group that is gone is reaped after some time.
\<close>

definition os_laws :: "group_os \<Rightarrow> nat \<Rightarrow> bool" where
  "os_laws os kill_ms \<longleftrightarrow>
     (\<forall>ev more t t'. \<not> os_alive os ev t \<and> t \<le> t' \<longrightarrow> \<not> os_alive os (ev @ more) t') \<and>
     (\<forall>ev t0 t. (t0, SIGKILL) \<in> set ev \<and> t0 + kill_ms \<le> t \<longrightarrow> \<not> os_alive os ev t) \<and>
     (\<forall>ev t. \<not> os_alive os ev t \<longrightarrow> (\<exists>t' \<ge> t. os_reaped os ev t'))"

lemma poll_group_result:
  "poll_group os pgid ev deadline t = (gone, t') \<Longrightarrow> t \<le> t' \<and> gone = (\<not> processGroupAlive os pgid ev t') \<and> (gone \<or> deadline \<le> t')"
proof (induction os pgid ev deadline t rule: poll_group.induct)
  case (1 os pgid ev deadline t)
  show ?case
  proof (cases "t < deadline \<and> processGroupAlive os pgid ev t")
    case True
    then have "poll_group os pgid ev deadline (t + 20 + os_lag os t) = (gone, t')"
      using "1.prems" poll_group.simps [of os pgid ev deadline t] by simp
    with "1.IH" True show ?thesis by auto
  next
    case False
    then show ?thesis using "1.prems" poll_group.simps [of os pgid ev deadline t] by (auto split: if_splits)
  qed
qed

lemma waitForProcessGroupExit_result:
  assumes "waitForProcessGroupExit os pgid ev timeout t = (gone, t')"
  shows "t \<le> t'" "gone = (\<not> processGroupAlive os pgid ev t')" "gone \<or> t + nat (if timeout \<le> 0 then 1000 else timeout) \<le> t'"
  using poll_group_result [OF assms [unfolded waitForProcessGroupExit_def]] by blast+

lemma wait_reaped_returns:
  "os_reaped os ev t' \<Longrightarrow> t \<le> t' \<Longrightarrow> \<exists>t''. wait_reaped os ev t = Some t'' \<and> t \<le> t''"
proof (induction "t' - t" arbitrary: t)
  case 0
  then have "t = t'" by simp
  with 0 show ?case by (simp add: wait_reaped.simps [of os ev t'])
next
  case (Suc n)
  then have "n = t' - (t + 1)" "t + 1 \<le> t'" by auto
  with Suc.hyps(1) Suc.prems obtain t'' where "wait_reaped os ev (t + 1) = Some t''" "t + 1 \<le> t''" by blast
  then show ?case by (cases "os_reaped os ev t") (simp_all add: wait_reaped.simps [of os ev t])
qed

lemma wait_grace_le: "t \<le> wait_grace os ev grace t"
  by (auto simp: wait_grace_def find_Some_iff split: option.splits)

text \<open>The signals that a closing sends, in order and with the time between them.\<close>

definition orderly :: "nat \<Rightarrow> int \<Rightarrow> (nat \<times> proc_event) list \<Rightarrow> bool" where
  "orderly t grace ev \<longleftrightarrow>
     ev = [(t, StdinClosed)] \<or>
     (\<exists>t1 \<ge> t. ev = [(t, StdinClosed), (t1, SIGTERM)] \<or>
       (\<exists>t2. ev = [(t, StdinClosed), (t1, SIGTERM), (t2, SIGKILL)] \<and> t1 + nat (if grace \<le> 0 then 1000 else grace) \<le> t2))"

lemma terminate_group_result:
  assumes "os_laws os kill_ms" and "pid > 0" and "kill_ms \<le> nat (if grace \<le> 0 then 1000 else grace)"
    and "terminate_group os pid grace [(t0, StdinClosed)] t = (ev, t')" and "t0 \<le> t"
  shows "\<not> os_alive os ev t' \<and> orderly t0 grace ev"
proof (cases "processGroupAlive os pid [(t0, StdinClosed)] t")
  case False
  then show ?thesis using assms(2,4) by (auto simp: terminate_group_def processGroupAlive_def orderly_def)
next
  case True
  let ?ev = "[(t0, StdinClosed), (t, SIGTERM)]"
  obtain gone t1 where w: "waitForProcessGroupExit os pid ?ev grace t = (gone, t1)" by fastforce
  note r = waitForProcessGroupExit_result [OF w]
  show ?thesis
  proof (cases gone)
    case g: True
    then have "ev = ?ev" "t' = t1" using True assms(4) w by (simp_all add: terminate_group_def Let_def)
    with g r(2) assms(2,5) show ?thesis by (auto simp: processGroupAlive_def orderly_def)
  next
    case False
    let ?kill = "?ev @ [(t1, SIGKILL)]"
    obtain gone' t2 where w2: "waitForProcessGroupExit os pid ?kill grace t1 = (gone', t2)" by fastforce
    have "(ev, t') = (?kill, t2)" using True False assms(4) w w2 by (simp add: terminate_group_def)
    then have ev: "ev = ?kill" and w': "waitForProcessGroupExit os pid ?kill grace t1 = (gone', t')" using w2 by simp_all
    note r' = waitForProcessGroupExit_result [OF w']
    have "\<not> os_alive os ev t'"
    proof (cases gone')
      case True
      with r'(2) ev assms(2) show ?thesis by (simp add: processGroupAlive_def)
    next
      case False
      then have "t1 + kill_ms \<le> t'" using r'(3) assms(3) by linarith
      moreover have "(t1, SIGKILL) \<in> set ev" using ev by simp
      ultimately show ?thesis using assms(1) unfolding os_laws_def by blast
    qed
    moreover have "orderly t0 grace ev" using ev False r(3) assms(5) by (auto simp: orderly_def)
    ultimately show ?thesis by blast
  qed
qed

text \<open>
  C37. Closing a process ends its whole group and returns: whatever the processes of the group do with the closing of
  their input and with \<^verbatim>\<open>SIGTERM\<close>, when \<^verbatim>\<open>Close\<close> returns none of them is alive, and it does return. \<^verbatim>\<open>SIGKILL\<close> is sent only
  after \<^verbatim>\<open>SIGTERM\<close> and a whole grace period.
\<close>

theorem posix_Close_ends_group:
  assumes "os_laws os kill_ms" and "pid > 0" and "kill_ms \<le> nat (if grace \<le> 0 then 1000 else grace)"
  shows "\<exists>ev t'. posix_Close os pid grace t = Some (ev, t') \<and> \<not> os_alive os ev t' \<and> orderly t grace ev"
proof -
  let ?t = "wait_grace os [(t, StdinClosed)] grace t"
  obtain ev t1 where g: "terminate_group os pid grace [(t, StdinClosed)] ?t = (ev, t1)" by fastforce
  note r = terminate_group_result [OF assms g wait_grace_le]
  obtain t2 where "t1 \<le> t2" "os_reaped os ev t2" using assms(1) r unfolding os_laws_def by blast
  from wait_reaped_returns [OF this(2,1)] obtain t' where w: "wait_reaped os ev t1 = Some t'" "t1 \<le> t'" by blast
  have "\<not> os_alive os ev t'" using assms(1) r w(2) unfolding os_laws_def by (metis append_Nil2)
  with w r g show ?thesis by (simp add: posix_Close_def Let_def)
qed

section \<open>Witnesses\<close>

definition demo_separators :: "char list" where "demo_separators = [CHR ''/'', CHR 0x5C]"

definition demo_windows :: platform where
  "demo_windows =
     \<lparr>pl_windows = True,
      pl_Base = (\<lambda>p. rev (takeWhile (\<lambda>c. c \<notin> set demo_separators) (rev p))),
      pl_Ext = (\<lambda>p. name_ext (rev (takeWhile (\<lambda>c. c \<notin> set demo_separators) (rev p)))),
      pl_Dir = (\<lambda>p. rev (drop 1 (dropWhile (\<lambda>c. c \<notin> set demo_separators) (rev p)))),
      pl_Join = (\<lambda>ns. drop 1 (concat (map (\<lambda>n. ''/'' @ n) ns))),
      pl_LookPath = (\<lambda>n. if n = ''npx.cmd'' then Inr ''C:/node/npx.cmd'' else if n = ''tool'' then Inr ''C:/bin/tool.BAT'' else Inl ''not found''),
      pl_Stat = (\<lambda>_. True)\<rparr>"

lemma demo_windows_laws: "path_laws demo_windows" "pl_windows demo_windows"
proof -
  have "pl_Base demo_windows (pl_Join demo_windows [d, n]) = n" if "n \<in> {''node.exe'', ''node'', ''npx.cmd''}" for d n
    using that by (auto simp: demo_windows_def demo_separators_def)
  then show "path_laws demo_windows" by (simp add: path_laws_def) (simp add: demo_windows_def)
  show "pl_windows demo_windows" by (simp add: demo_windows_def)
qed

definition npx_spec :: process_spec where
  "npx_spec = \<lparr>ps_Command = ''npx'', ps_Args = [''-y'', ''server''], ps_Dir = [], ps_Env = Some []\<rparr>"

definition npx_resolved :: ResolveResult where
  "npx_resolved = projr (ResolveCommandWithFS demo_windows npx_spec)"

lemma npx_resolves: "ResolveCommandWithFS demo_windows npx_spec = Inr npx_resolved"
proof -
  have "\<not> isl (ResolveCommandWithFS demo_windows npx_spec)" by code_simp
  then show ?thesis by (simp add: npx_resolved_def)
qed


definition demo_json :: "process_spec \<Rightarrow> string + string" where
  "demo_json m = (if m = rr_Spec npx_resolved then Inr ''{}'' else Inl ''no'')"

definition demo_unjson :: "string \<Rightarrow> string + process_spec" where
  "demo_unjson s = (if s = ''{}'' then Inr (rr_Spec npx_resolved) else Inl ''no'')"

lemma demo_json_exact: "json_exact demo_json demo_unjson"
  by (auto simp: json_exact_def demo_json_def demo_unjson_def newline_def split: if_splits)

theorem bootstrap_roundtrip_witness: "RunWorkerWithIO demo_unjson False (''{}'' @ [newline] @ ''hello'') = Inr (rr_Spec npx_resolved, ''hello'')"
proof -
  have "ps_Command (rr_Spec npx_resolved) \<noteq> []" by code_simp
  then have "WriteBootstrap demo_json (Some (rr_Spec npx_resolved)) = Inr (''{}'' @ [newline])"
    by (simp add: WriteBootstrap_def demo_json_def MaxBootstrapBytes_def)
  from bootstrap_roundtrip [OF this demo_json_exact, of "''hello''"] show ?thesis by simp
qed

definition refused_env :: launch_env where
  "refused_env = \<lparr>le_CreateJob = None, le_SetJob = None, le_Executable = None, le_StdinPipe = None, le_StdoutPipe = None, le_Start = None,
     le_OpenProcess = None, le_AssignJob = Some ''denied'', le_Write = None\<rparr>"

theorem failed_launch_leaves_nothing_witness:
  "snd (startPlatform_windows demo_windows demo_json refused_env ''hub.exe'' npx_spec defaultLaunchOptions) = []"
proof -
  have f: "isl (fst (startPlatform_windows demo_windows demo_json refused_env ''hub.exe'' npx_spec defaultLaunchOptions))" by code_simp
  obtain r owned where s: "startPlatform_windows demo_windows demo_json refused_env ''hub.exe'' npx_spec defaultLaunchOptions = (r, owned)" by fastforce
  with f obtain e where "r = Inl e" by (auto simp: isl_def)
  with s failed_launch_leaves_nothing [of demo_windows refused_env npx_spec defaultLaunchOptions e owned demo_json "''hub.exe''"]
  show ?thesis by simp
qed

definition npx_server :: ResolvedServer where
  "npx_server = remote_server\<lparr>rs_Type := ServerTypeStdio, rs_Command := ''npx'', rs_Args := [''-y'', ''server''], rs_Cwd := [], rs_Env := []\<rparr>"


text \<open>A group that only a kill ends, five milliseconds later.\<close>

definition stubborn_os :: group_os where
  "stubborn_os =
     \<lparr>os_alive = (\<lambda>ev t. list_all (\<lambda>(t0, e). e = SIGKILL \<longrightarrow> t < t0 + 5) ev),
      os_reaped = (\<lambda>ev t. \<not> list_all (\<lambda>(t0, e). e = SIGKILL \<longrightarrow> t < t0 + 5) ev), os_lag = (\<lambda>_. 0)\<rparr>"

theorem posix_Close_ends_group_witness:
  "\<exists>ev t'. posix_Close stubborn_os 7 100 0 = Some (ev, t') \<and> \<not> os_alive stubborn_os ev t' \<and> orderly 0 100 ev"
proof -
  have a: "os_alive stubborn_os ev t \<longleftrightarrow> \<not> (\<exists>t0. (t0, SIGKILL) \<in> set ev \<and> t0 + 5 \<le> t)"
    for ev t by (fastforce simp: stubborn_os_def list_all_iff)
  have r: "os_reaped stubborn_os ev t \<longleftrightarrow> \<not> os_alive stubborn_os ev t" for ev t by (simp add: stubborn_os_def)
  have "os_laws stubborn_os 5" unfolding os_laws_def r a by (auto intro: order_trans)
  from posix_Close_ends_group [OF this, of 7 100 0] show ?thesis by simp
qed

end
