(* ===== verification/Legacy_Stdio.thy ===== *)
theory Legacy_Stdio
  imports Go_Prelude
begin

text \<open>
  The transport that hides the SDK's \<^verbatim>\<open>server/discover\<close> probe from stdio servers (\<^verbatim>\<open>downstream/legacy_stdio_transport.go\<close>).

  The connection is a step relation: the goroutine that reads from the delegate, the writes and the reads of the SDK, and
  closing. Both channels hold one message. The delegate is given by what it has still to deliver and by what was written
  to it; \<open>lc_delivered\<close>, \<open>lc_accepted\<close> and \<open>lc_got\<close> record what went through for the proofs. A read may take from either
  channel, which includes the choice of Go's \<^verbatim>\<open>select\<close>.
\<close>

section \<open>Messages\<close>

record rpc_request =
  rq_Method :: string
  rq_ID :: "int option"
  rq_Params :: string

record rpc_response =
  rsp_ID :: "int option"
  rsp_Error :: "(int \<times> string) option"
  rsp_Result :: string

datatype rpc_message = RpcRequest rpc_request | RpcResponse rpc_response

definition CodeMethodNotFound :: int where "CodeMethodNotFound = -32601"

definition IsCall :: "rpc_request \<Rightarrow> bool" where
  "IsCall r \<longleftrightarrow> rq_ID r \<noteq> None"

fun is_probe :: "rpc_message \<Rightarrow> bool" where
  "is_probe (RpcRequest r) \<longleftrightarrow> rq_Method r = ''server/discover'' \<and> IsCall r"
| "is_probe (RpcResponse _) \<longleftrightarrow> False"

fun probe_response :: "rpc_message \<Rightarrow> rpc_message" where
  "probe_response (RpcRequest r) =
     RpcResponse \<lparr>rsp_ID = rq_ID r, rsp_Error = Some (CodeMethodNotFound, ''server/discover is hidden for legacy stdio compatibility''), rsp_Result = []\<rparr>"
| "probe_response m = m"

section \<open>The connection\<close>

type_synonym read_result = "string + rpc_message"

datatype loop_pc = LoopRead | LoopSend read_result | LoopEnd

datatype origin = FromProbe rpc_message | FromServer read_result

record legacy_conn =
  lc_synthetic :: "rpc_message list"
  lc_incoming :: "read_result list"
  lc_done :: bool
  lc_loop :: loop_pc
  lc_input :: "read_result list"
  lc_written :: "rpc_message list"
  lc_delivered :: "read_result list"
  lc_accepted :: "rpc_message list"
  lc_got :: "origin list"

definition legacy_Connect :: "read_result list \<Rightarrow> legacy_conn" where
  "legacy_Connect input =
     \<lparr>lc_synthetic = [], lc_incoming = [], lc_done = False, lc_loop = LoopRead, lc_input = input, lc_written = [],
      lc_delivered = [], lc_accepted = [], lc_got = []\<rparr>"

text \<open>One round of \<^verbatim>\<open>readLoop\<close>: receiving from the delegate, then handing on, unless the connection is closed.\<close>

definition loop_receive :: "legacy_conn \<Rightarrow> legacy_conn option" where
  "loop_receive c =
     (case (lc_loop c, lc_input c) of
        (LoopRead, r # rs) \<Rightarrow> Some (c\<lparr>lc_loop := LoopSend r, lc_input := rs, lc_delivered := lc_delivered c @ [r]\<rparr>)
      | _ \<Rightarrow> None)"

definition loop_send :: "legacy_conn \<Rightarrow> legacy_conn option" where
  "loop_send c =
     (case lc_loop c of
        LoopSend r \<Rightarrow>
          if length (lc_incoming c) < 1
          then Some (c\<lparr>lc_incoming := lc_incoming c @ [r], lc_loop := (if isl r then LoopEnd else LoopRead)\<rparr>)
          else None
      | _ \<Rightarrow> None)"

definition loop_stop :: "legacy_conn \<Rightarrow> legacy_conn option" where
  "loop_stop c = (case lc_loop c of LoopSend r \<Rightarrow> if lc_done c then Some (c\<lparr>lc_loop := LoopEnd\<rparr>) else None | _ \<Rightarrow> None)"

text \<open>\<^verbatim>\<open>Write\<close>: \<open>writeErr\<close> is the result of the delegate. A probe waits for a place in its channel; \<^term>\<open>None\<close> is waiting.\<close>

definition legacy_Write :: "rpc_message \<Rightarrow> string option \<Rightarrow> legacy_conn \<Rightarrow> (string option \<times> legacy_conn) option" where
  "legacy_Write msg writeErr c =
     (if is_probe msg
      then if length (lc_synthetic c) < 1
           then Some (None, c\<lparr>lc_synthetic := lc_synthetic c @ [probe_response msg], lc_accepted := lc_accepted c @ [msg]\<rparr>)
           else if lc_done c then Some (Some ''connection closed'', c)
           else None
      else case writeErr of
             Some e \<Rightarrow> Some (Some e, c)
           | None \<Rightarrow> Some (None, c\<lparr>lc_written := lc_written c @ [msg], lc_accepted := lc_accepted c @ [msg]\<rparr>))"

definition read_synthetic :: "legacy_conn \<Rightarrow> (rpc_message \<times> legacy_conn) option" where
  "read_synthetic c =
     (case lc_synthetic c of [] \<Rightarrow> None | m # ms \<Rightarrow> Some (m, c\<lparr>lc_synthetic := ms, lc_got := lc_got c @ [FromProbe m]\<rparr>))"

definition read_incoming :: "legacy_conn \<Rightarrow> (read_result \<times> legacy_conn) option" where
  "read_incoming c =
     (case lc_incoming c of [] \<Rightarrow> None | r # rs \<Rightarrow> Some (r, c\<lparr>lc_incoming := rs, lc_got := lc_got c @ [FromServer r]\<rparr>))"

text \<open>\<^verbatim>\<open>Read\<close> when nothing changes in between: the synthetic channel comes first; \<^term>\<open>None\<close> is waiting.\<close>

definition legacy_Read :: "legacy_conn \<Rightarrow> (read_result \<times> legacy_conn) option" where
  "legacy_Read c =
     (case read_synthetic c of
        Some (m, c') \<Rightarrow> Some (Inr m, c')
      | None \<Rightarrow>
          (case read_incoming c of
             Some (r, c') \<Rightarrow> Some (r, c')
           | None \<Rightarrow> if lc_done c then Some (Inl ''connection closed'', c) else None))"

definition legacy_Close :: "legacy_conn \<Rightarrow> legacy_conn" where
  "legacy_Close c = c\<lparr>lc_done := True\<rparr>"

inductive legacy_step :: "legacy_conn \<Rightarrow> legacy_conn \<Rightarrow> bool" where
  receive: "loop_receive c = Some c' \<Longrightarrow> legacy_step c c'"
| send: "loop_send c = Some c' \<Longrightarrow> legacy_step c c'"
| stop: "loop_stop c = Some c' \<Longrightarrow> legacy_step c c'"
| sdk_write: "legacy_Write msg writeErr c = Some (r, c') \<Longrightarrow> legacy_step c c'"
| read_probe: "read_synthetic c = Some (m, c') \<Longrightarrow> legacy_step c c'"
| read_server: "read_incoming c = Some (r, c') \<Longrightarrow> legacy_step c c'"
| close: "legacy_step c (legacy_Close c)"

inductive legacy_reachable :: "read_result list \<Rightarrow> legacy_conn \<Rightarrow> bool" for input where
  init: "legacy_reachable input (legacy_Connect input)"
| step: "legacy_reachable input c \<Longrightarrow> legacy_step c c' \<Longrightarrow> legacy_reachable input c'"

section \<open>Nothing is lost and the probe stays hidden\<close>

definition got_probes :: "origin list \<Rightarrow> rpc_message list" where
  "got_probes os = concat (map (\<lambda>x. case x of FromProbe m \<Rightarrow> [m] | _ \<Rightarrow> []) os)"

definition got_server :: "origin list \<Rightarrow> read_result list" where
  "got_server os = concat (map (\<lambda>x. case x of FromServer r \<Rightarrow> [r] | _ \<Rightarrow> []) os)"

lemma got_snoc [simp]:
  "got_probes (os @ [FromProbe m]) = got_probes os @ [m]" "got_probes (os @ [FromServer r]) = got_probes os"
  "got_server (os @ [FromProbe m]) = got_server os" "got_server (os @ [FromServer r]) = got_server os @ [r]"
  "got_probes [] = []" "got_server [] = []"
  by (simp_all add: got_probes_def got_server_def)

text \<open>A message that the loop holds is dropped only when the connection is closed.\<close>

definition legacy_inv :: "read_result list \<Rightarrow> legacy_conn \<Rightarrow> bool" where
  "legacy_inv input c \<longleftrightarrow>
     lc_written c = filter (\<lambda>m. \<not> is_probe m) (lc_accepted c) \<and>
     got_probes (lc_got c) @ lc_synthetic c = map probe_response (filter is_probe (lc_accepted c)) \<and>
     length (lc_synthetic c) \<le> 1 \<and> length (lc_incoming c) \<le> 1 \<and>
     lc_delivered c @ lc_input c = input \<and>
     (case lc_loop c of
        LoopRead \<Rightarrow> got_server (lc_got c) @ lc_incoming c = lc_delivered c
      | LoopSend r \<Rightarrow> got_server (lc_got c) @ lc_incoming c @ [r] = lc_delivered c
      | LoopEnd \<Rightarrow> got_server (lc_got c) @ lc_incoming c = lc_delivered c \<or>
          lc_done c \<and> (\<exists>r. got_server (lc_got c) @ lc_incoming c @ [r] = lc_delivered c))"

named_theorems legacy_defs
lemmas [legacy_defs] = legacy_inv_def loop_receive_def loop_send_def loop_stop_def legacy_Write_def read_synthetic_def
  read_incoming_def legacy_Close_def

lemma legacy_inv_loop:
  assumes "legacy_inv input c"
  shows "loop_receive c = Some c' \<Longrightarrow> legacy_inv input c'" "loop_send c = Some c' \<Longrightarrow> legacy_inv input c'"
    "loop_stop c = Some c' \<Longrightarrow> legacy_inv input c'"
  using assms by (auto simp: legacy_defs split: loop_pc.splits list.splits if_splits)

lemma legacy_inv_client:
  assumes "legacy_inv input c"
  shows "legacy_Write msg writeErr c = Some (r, c') \<Longrightarrow> legacy_inv input c'" "legacy_inv input (legacy_Close c)"
  using assms by (auto simp: legacy_defs split: loop_pc.splits if_splits option.splits)

lemma legacy_inv_read:
  assumes "legacy_inv input c"
  shows "read_synthetic c = Some (m, c') \<Longrightarrow> legacy_inv input c'" "read_incoming c = Some (x, c') \<Longrightarrow> legacy_inv input c'"
  using assms by (auto simp: legacy_defs split: loop_pc.splits list.splits)

lemma legacy_reachable_inv: "legacy_reachable input c \<Longrightarrow> legacy_inv input c"
proof (induction rule: legacy_reachable.induct)
  case init
  then show ?case by (simp add: legacy_inv_def legacy_Connect_def)
next
  case (step c c')
  from step.hyps(2) step.IH show ?case
    by (cases rule: legacy_step.cases) (auto intro: legacy_inv_loop legacy_inv_client legacy_inv_read)
qed

lemma got_server_prefix: "legacy_inv input c \<Longrightarrow> \<exists>rest. input = got_server (lc_got c) @ rest"
  by (auto simp: legacy_inv_def split: loop_pc.splits) (metis append.assoc)+

text \<open>
  C40. In every interleaving the subprocess never sees a probe and sees every other accepted message once and in order,
  while every probe is answered once, in order, with its own identifier, or its answer is still waiting; and what the SDK
  reads from the server is a prefix of what the server sent, with nothing lost, repeated or reordered.
\<close>

theorem legacy_transport_transparent:
  assumes "legacy_reachable input c"
  shows "lc_written c = filter (\<lambda>m. \<not> is_probe m) (lc_accepted c) \<and>
    got_probes (lc_got c) @ lc_synthetic c = map probe_response (filter is_probe (lc_accepted c)) \<and>
    (\<exists>rest. input = got_server (lc_got c) @ rest) \<and>
    (\<not> lc_done c \<and> lc_input c = [] \<and> lc_incoming c = [] \<and> (\<forall>r. lc_loop c \<noteq> LoopSend r) \<longrightarrow> got_server (lc_got c) = input)"
proof -
  note inv = legacy_reachable_inv [OF assms]
  then have "\<not> lc_done c \<and> lc_input c = [] \<and> lc_incoming c = [] \<and> (\<forall>r. lc_loop c \<noteq> LoopSend r) \<longrightarrow> got_server (lc_got c) = input"
    by (auto simp: legacy_inv_def split: loop_pc.splits)
  with inv got_server_prefix [OF inv] show ?thesis by (simp add: legacy_inv_def)
qed

text \<open>
  A probe that is written is answered by the next read, whatever the server does, and never waits on the server: the
  write finds a place whenever the answers so far were read.
\<close>

theorem probe_answered_at_once:
  assumes "is_probe msg" and "lc_synthetic c = []"
  shows "\<exists>c' c''. legacy_Write msg writeErr c = Some (None, c') \<and> legacy_Read c' = Some (Inr (probe_response msg), c'') \<and>
    lc_written c'' = lc_written c \<and> lc_synthetic c'' = []"
  using assms by (simp add: legacy_Write_def legacy_Read_def read_synthetic_def)

section \<open>Witnesses\<close>

definition demo_probe :: rpc_message where
  "demo_probe = RpcRequest \<lparr>rq_Method = ''server/discover'', rq_ID = Some 1, rq_Params = []\<rparr>"

definition demo_initialize :: rpc_message where
  "demo_initialize = RpcRequest \<lparr>rq_Method = ''initialize'', rq_ID = Some 2, rq_Params = []\<rparr>"

definition demo_legacy :: legacy_conn where
  "demo_legacy = snd (the (legacy_Write demo_initialize None
     (snd (the (read_synthetic (snd (the (legacy_Write demo_probe None (legacy_Connect [Inl ''EOF'']))))))))) "

lemma demo_legacy_reachable: "legacy_reachable [Inl ''EOF''] demo_legacy"
proof -
  let ?c1 = "snd (the (legacy_Write demo_probe None (legacy_Connect [Inl ''EOF''])))"
  let ?c2 = "snd (the (read_synthetic ?c1))"
  have p: "is_probe demo_probe" "\<not> is_probe demo_initialize" by (simp_all add: demo_probe_def demo_initialize_def IsCall_def)
  have "legacy_Write demo_probe None (legacy_Connect [Inl ''EOF'']) = Some (None, ?c1)" "read_synthetic ?c1 = Some (probe_response demo_probe, ?c2)"
    "legacy_Write demo_initialize None ?c2 = Some (None, demo_legacy)"
    using p by (simp_all add: demo_legacy_def legacy_Write_def legacy_Connect_def read_synthetic_def)
  then have "legacy_step (legacy_Connect [Inl ''EOF'']) ?c1" "legacy_step ?c1 ?c2" "legacy_step ?c2 demo_legacy"
    by (auto intro: legacy_step.intros)
  then show ?thesis by (meson legacy_reachable.init legacy_reachable.step)
qed

theorem legacy_transport_transparent_witness:
  "lc_written demo_legacy = [demo_initialize] \<and> got_probes (lc_got demo_legacy) = [probe_response demo_probe]"
proof -
  have a: "lc_accepted demo_legacy = [demo_probe, demo_initialize]" "lc_synthetic demo_legacy = []"
    "is_probe demo_probe" "\<not> is_probe demo_initialize"
    by code_simp+
  with legacy_transport_transparent [OF demo_legacy_reachable] show ?thesis by simp
qed

theorem probe_answered_at_once_witness:
  "\<exists>c' c''. legacy_Write demo_probe None (legacy_Connect []) = Some (None, c') \<and> legacy_Read c' = Some (Inr (probe_response demo_probe), c'') \<and>
    lc_written c'' = [] \<and> lc_synthetic c'' = []"
proof -
  have "is_probe demo_probe" "lc_synthetic (legacy_Connect []) = []" by (simp_all add: demo_probe_def IsCall_def legacy_Connect_def)
  from probe_answered_at_once [OF this, of None] show ?thesis by (simp add: legacy_Connect_def)
qed

end
