(* ===== verification/Spec2Isabelle.thy ===== *)
theory Spec2Isabelle
  imports Publisher Discovery Wire_Limit Config_Import Admin_Transactions Http_Front_Properties Bridge Process
    Legacy_Stdio
begin

text \<open>
  \<^bold>\<open>MCP Manager.\<close> The program is a hub for the Model Context Protocol: it keeps connections to a set of downstream
  MCP servers (child processes that speak over stdio, or remote servers over streamable HTTP), publishes their tools
  under unique public names on one MCP server of its own, and routes every tool call to the server that owns the tool.
  This library models its Go packages under \<^verbatim>\<open>src/internal\<close> as HOL definitions and proves what makes them correct.

  \<^bold>\<open>Parts and how they interact.\<close>
    \<^item> \<^verbatim>\<open>config\<close> reads, checks, resolves, imports and atomically rewrites the configuration file; \<^verbatim>\<open>runtime\<close> polls the file
      and hands a new resolved configuration to the manager.
    \<^item> \<^verbatim>\<open>manager\<close> keeps one coordinator per configured server. A coordinator dials the server, discovers its tools
      (\<^verbatim>\<open>downstream\<close>), publishes them, and owns a generation: the session with its admission, its count of leases and its drain.
    \<^item> \<^verbatim>\<open>catalog\<close> gives the tools public names, enforces the limits and keeps the routing table; \<^verbatim>\<open>inbound\<close> publishes the
      catalog on the SDK server.
    \<^item> \<^verbatim>\<open>router\<close> looks a public name up, takes a lease on the server's generation, calls the tool and records the call.
    \<^item> \<^verbatim>\<open>wirelimit\<close> bounds the size of a message on the wire.
    \<^item> \<^verbatim>\<open>inbound/http.go\<close> is the HTTP front: it checks every request and hands it to the MCP endpoint, to the status pages or to
      \<^verbatim>\<open>admin\<close>, the administration API that edits the configuration file in transactions with the controller.
    \<^item> \<^verbatim>\<open>bridge\<close> is the other end: a local stdio server that shows a hub's tools to a client and forwards its calls.

  \<^bold>\<open>Theories.\<close>
    \<^item> \<^theory_text>\<open>Go_Prelude\<close>, \<^theory_text>\<open>Go_JSON\<close>: strings, maps, results, loops and JSON documents of Go; the shared lemmas.
    \<^item> \<^theory_text>\<open>Naming\<close>, \<^theory_text>\<open>Validation\<close>, \<^theory_text>\<open>Catalog\<close> (\<^verbatim>\<open>catalog/naming.go\<close>, \<^verbatim>\<open>limits.go\<close>, \<^verbatim>\<open>validation.go\<close>, \<^verbatim>\<open>filter.go\<close>,
      \<^verbatim>\<open>catalog.go\<close>, \<^verbatim>\<open>snapshot.go\<close>, \<^verbatim>\<open>route.go\<close>); \<^theory_text>\<open>Catalog_Invariants\<close>, \<^theory_text>\<open>Catalog_Lookup\<close>, \<^theory_text>\<open>Catalog_Properties\<close>: unique valid
      names within the limits, the meaning of a lookup, the exactness of the reported differences, the naming rule as a
      declarative specification, independence of the map order, and the stale route that change detection can leave.
    \<^item> \<^theory_text>\<open>Publisher\<close> (\<^verbatim>\<open>inbound/publisher.go\<close>, the adapter of \<^verbatim>\<open>manager/manager.go\<close>): publication in small steps under its
      lock; a client never sees half of one.
    \<^item> \<^theory_text>\<open>Discovery\<close> (\<^verbatim>\<open>downstream/session.go\<close>, \<^verbatim>\<open>catalog/pagination.go\<close>): when paging succeeds and with what, and that no change
      notification is lost. \<^theory_text>\<open>Wire_Limit\<close> (\<^verbatim>\<open>wirelimit/reader.go\<close>): which streams are refused, however they are chunked.
    \<^item> \<^theory_text>\<open>Generation\<close> (\<^verbatim>\<open>manager/types.go\<close>): lease counting and draining, with the lost wakeup of two drains.
    \<^item> \<^theory_text>\<open>Router\<close> (\<^verbatim>\<open>router/router.go\<close>): the protocol of a call, over a locale of lease providers.
    \<^item> \<^theory_text>\<open>Coordinator\<close>, \<^theory_text>\<open>Coordinator_Invariants\<close>, \<^theory_text>\<open>Coordinator_Properties\<close> (\<^verbatim>\<open>manager/coordinator.go\<close>): the goroutine as a step
      relation between its lock regions, interleaved with \<^verbatim>\<open>UpdateConfig\<close>, \<^verbatim>\<open>Stop\<close>, leases and notifications.
    \<^item> \<^theory_text>\<open>Manager\<close>, \<^theory_text>\<open>Manager_Properties\<close> (\<^verbatim>\<open>manager/manager.go\<close>, \<^verbatim>\<open>options.go\<close>): reconciliation with a configuration, preflight,
      readiness, recent calls; the manager as a lease provider; the race between removal and publication.
    \<^item> \<^theory_text>\<open>Config_Types\<close>, \<^theory_text>\<open>Config_Env\<close>, \<^theory_text>\<open>Config_Validate\<close>, \<^theory_text>\<open>Config_Resolve\<close>, \<^theory_text>\<open>Config_Decode\<close>, \<^theory_text>\<open>Config_Load\<close>, \<^theory_text>\<open>Config_Properties\<close>
      (\<^verbatim>\<open>config/\<close>): the pipeline from bytes to a resolved configuration, what it guarantees to the manager, and that
      credentials do not reach child processes by inheritance. \<^theory_text>\<open>Config_Decode_Properties\<close>: what the strict decoder accepts.
    \<^item> \<^theory_text>\<open>Config_Write\<close> (\<^verbatim>\<open>config/atomic.go\<close>, \<^verbatim>\<open>atomic_posix.go\<close>, \<^verbatim>\<open>lock_unix.go\<close>): the file is replaced as a whole, under a lock and only
      if it has the expected digest; concurrent writers in small steps. \<^theory_text>\<open>Config_Import\<close> (\<^verbatim>\<open>config/import.go\<close>): imports merge.
    \<^item> \<^theory_text>\<open>Controller\<close> (\<^verbatim>\<open>runtime/controller.go\<close>): debounced polling, reloads that fail without effect, and the composition of
      file, pipeline and manager.
    \<^item> \<^theory_text>\<open>Admin\<close>, \<^theory_text>\<open>Admin_Properties\<close>, \<^theory_text>\<open>Admin_Transactions\<close> (\<^verbatim>\<open>admin/admin.go\<close>, \<^verbatim>\<open>tokens.go\<close>): sessions, limits, redaction, and transactions
      that end with the new file in force or with the old one restored.
    \<^item> \<^theory_text>\<open>Http_Front\<close>, \<^theory_text>\<open>Http_Front_Properties\<close> (\<^verbatim>\<open>inbound/http.go\<close>, the wiring of \<^verbatim>\<open>cli/app.go\<close>): who reaches the MCP endpoint and who
      changes the configuration, through the middleware, the multiplexer and the handlers together; the bound on sessions.
    \<^item> \<^theory_text>\<open>Endpoints\<close> (\<^verbatim>\<open>netpolicy/hub_endpoint.go\<close>, \<^verbatim>\<open>downstream/options.go\<close>, \<^verbatim>\<open>roundtripper.go\<close>, \<^verbatim>\<open>manager/session.go\<close>): the policies for
      URLs and headers, dialling and the session factory; what the configuration accepts, the connection accepts.
    \<^item> \<^theory_text>\<open>Process\<close> (\<^verbatim>\<open>process/\<close>): which program is run, with which environment, that a failed launch leaves nothing behind and that
      closing ends the whole process group. \<^theory_text>\<open>Legacy_Stdio\<close> (\<^verbatim>\<open>downstream/legacy_stdio_transport.go\<close>): the transport that hides the
      SDK's probe loses and reorders nothing.
    \<^item> \<^theory_text>\<open>Bridge\<close> (\<^verbatim>\<open>bridge/\<close>): the stdio bridge mirrors the hub's tools; its goroutines in small steps, where a listing is one step.

  \<^bold>\<open>Conventions.\<close> A struct is a record whose fields carry a prefix, an error result is a sum or option, a Go map is an
  association list in the order of one iteration, and theorems hold for all orders. A method that holds its lock
  throughout is one definition; one that releases it is given by its regions, and a step relation interleaves them.
  Functions of the standard library and of the SDK that the code only calls are parameters (records of functions such as
  \<open>catalog_env\<close>, \<open>go_lib\<close>, \<open>json_lib\<close>, \<open>call_env\<close>), with what the proofs rely on as named hypotheses. Loops are total: paging
  stops after 64 pages and its measure is the number of pages left; the searches and expansions consume their input; the
  polling of a process group has the time to its deadline as measure, and the wait for the root, which the code does not bound,
  is a partial function that is proved to return. No fuel is used.

  \<^bold>\<open>Not modelled.\<close> The SDK's sessions and transports, HTTP listeners and the embedded web pages are library behaviour around
  the modelled core. The Windows variants of the file writer and of closing a process are calls of the Windows API. The POSIX
  worker is not reached. The command line, apart from its wiring of the hub, prints reports; the test servers are fixtures.
\<close>

end
